(* ===== verification/Gds_Prelude.thy ===== *)
theory Gds_Prelude
  imports
    Main
    "HOL-Library.Char_ord"
    "HOL-Library.List_Lexorder"
    "HOL-Library.Product_Lexorder"
    "HOL-Library.AList"
    "HOL-Library.Multiset"
begin

text \<open>
  What the component theories share: the reading of Rust's \<open>str\<close> as a list of bytes and
  the string operations the sources call; the reading of \<open>Result\<close>-valued code that changes
  state (\<open>proc\<close>), with its composition and its invariant rules; association lists standing for
  \<open>HashMap\<close>; generic lemmas on lists, and the collections the components add to:
  \<^item> \<open>proc_simps\<close>: how the state-and-error combinators compute;
  \<^item> \<open>proc_pres\<close>: introduction rules for invariants of state-and-error programs.
\<close>

named_theorems proc_simps
named_theorems proc_pres

section \<open>Strings\<close>

text \<open>
  A Rust \<open>String\<close> is the list of its UTF-8 bytes, so \<open>len()\<close> is the length, and the ordering of
  \<open>String\<close> (bytewise lexicographic) is the order of \<open>HOL-Library.List_Lexorder\<close> on \<open>char list\<close>.
\<close>

definition starts_with :: "string \<Rightarrow> string \<Rightarrow> bool" where
  "starts_with s p \<longleftrightarrow> take (length p) s = p"

definition ends_with :: "string \<Rightarrow> string \<Rightarrow> bool" where
  "ends_with s p \<longleftrightarrow> starts_with (rev s) (rev p)"

fun contains_str :: "string \<Rightarrow> string \<Rightarrow> bool" where
  "contains_str [] p = (p = [])"
| "contains_str (c # s) p = (starts_with (c # s) p \<or> contains_str s p)"

text \<open>\<open>str::split\<close> with a one-byte separator: an empty string has one (empty) piece.\<close>

fun split_on :: "char \<Rightarrow> string \<Rightarrow> string list" where
  "split_on c [] = [[]]"
| "split_on c (x # xs) =
     (if x = c then [] # split_on c xs
      else (case split_on c xs of [] \<Rightarrow> [[x]] | w # ws \<Rightarrow> (x # w) # ws))"

fun join_with :: "string \<Rightarrow> string list \<Rightarrow> string" where
  "join_with sep [] = []"
| "join_with sep [w] = w"
| "join_with sep (w # v # ws) = w @ sep @ join_with sep (v # ws)"

text \<open>\<open>str::split_once\<close>: the pieces before and after the first separator.\<close>

fun split_once :: "char \<Rightarrow> string \<Rightarrow> (string \<times> string) option" where
  "split_once c [] = None"
| "split_once c (x # xs) =
     (if x = c then Some ([], xs)
      else map_option (\<lambda>(a, b). (x # a, b)) (split_once c xs))"

text \<open>\<open>str::strip_prefix\<close>.\<close>

definition strip_prefix_str :: "string \<Rightarrow> string \<Rightarrow> string option" where
  "strip_prefix_str s p = (if starts_with s p then Some (drop (length p) s) else None)"

text \<open>\<open>to_string()\<close> of an unsigned integer.\<close>

definition digit_char :: "nat \<Rightarrow> char" where
  "digit_char d = char_of (48 + d)"

fun nat_to_str :: "nat \<Rightarrow> string" where
  "nat_to_str n = (if n < 10 then [digit_char n] else nat_to_str (n div 10) @ [digit_char (n mod 10)])"

declare nat_to_str.simps [simp del]

definition int_to_str :: "int \<Rightarrow> string" where
  "int_to_str i = (if i < 0 then ''-'' @ nat_to_str (nat (- i)) else nat_to_str (nat i))"

lemma split_on_not_Nil [simp]: "split_on c s \<noteq> []"
  by (induction s) (auto split: list.splits)

lemma split_on_no_sep: "w \<in> set (split_on c s) \<Longrightarrow> c \<notin> set w"
proof (induction s arbitrary: w)
  case Nil
  then show ?case by simp
next
  case (Cons x s)
  show ?case
  proof (cases "x = c")
    case True
    with Cons show ?thesis by auto
  next
    case False
    then obtain v vs where s: "split_on c s = v # vs"
      using split_on_not_Nil [of c s] by (cases "split_on c s") auto
    with Cons False show ?thesis by fastforce
  qed
qed

lemma split_on_append_sep: "split_on c (a @ c # b) = split_on c a @ split_on c b"
proof (induction a)
  case Nil
  then show ?case by simp
next
  case (Cons x a)
  show ?case
  proof (cases "x = c")
    case True
    with Cons show ?thesis by simp
  next
    case False
    then obtain v vs where "split_on c a = v # vs"
      using split_on_not_Nil [of c a] by (cases "split_on c a") auto
    with Cons False show ?thesis by simp
  qed
qed

lemma split_on_no_occ: "c \<notin> set s \<Longrightarrow> split_on c s = [s]"
  by (induction s) auto

lemma split_on_join:
  assumes "\<And>w. w \<in> set ws \<Longrightarrow> c \<notin> set w" and "ws \<noteq> []"
  shows "split_on c (join_with [c] ws) = ws"
  using assms
proof (induction ws rule: induct_list012)
  case (3 w v ws)
  then show ?case by (simp add: split_on_append_sep split_on_no_occ)
qed (auto simp: split_on_no_occ)

lemma join_split_on: "join_with [c] (split_on c s) = s"
proof (induction s)
  case Nil
  then show ?case by simp
next
  case (Cons x s)
  obtain v vs where s: "split_on c s = v # vs"
    using split_on_not_Nil [of c s] by (cases "split_on c s") auto
  with Cons show ?case by (cases vs) auto
qed

lemma join_with_snoc: "ws \<noteq> [] \<Longrightarrow> join_with sep (ws @ [w]) = join_with sep ws @ sep @ w"
  by (induction sep ws rule: join_with.induct) auto

lemma set_join_with: "set (join_with sep ws) \<subseteq> (\<Union>w \<in> set ws. set w) \<union> set sep"
  by (induction sep ws rule: join_with.induct) auto

lemma nat_to_str_not_Nil [simp]: "nat_to_str n \<noteq> []"
  by (subst nat_to_str.simps) simp

definition is_digit :: "char \<Rightarrow> bool" where
  "is_digit c \<longleftrightarrow> (48::nat) \<le> of_char c \<and> (of_char c::nat) \<le> 57"

lemma of_char_digit [simp]: "d < 10 \<Longrightarrow> (of_char (digit_char d) :: nat) = 48 + d"
  by (simp add: digit_char_def)

lemma digit_char_inj: "d < 10 \<Longrightarrow> e < 10 \<Longrightarrow> digit_char d = digit_char e \<Longrightarrow> d = e"
  by (metis add_left_cancel of_char_digit)

lemma nat_to_str_digits: "c \<in> set (nat_to_str n) \<Longrightarrow> is_digit c"
proof (induction n rule: nat_to_str.induct)
  case (1 n)
  show ?case
  proof (cases "n < 10")
    case True
    with 1 show ?thesis by (subst (asm) (2) nat_to_str.simps) (auto simp: is_digit_def)
  next
    case False
    with 1 show ?thesis by (subst (asm) (2) nat_to_str.simps) (auto simp: is_digit_def)
  qed
qed

lemma nat_to_str_inj: "nat_to_str m = nat_to_str n \<Longrightarrow> m = n"
proof (induction m arbitrary: n rule: nat_to_str.induct)
  case (1 m)
  have m: "nat_to_str m = (if m < 10 then [digit_char m]
      else nat_to_str (m div 10) @ [digit_char (m mod 10)])"
    by (rule nat_to_str.simps)
  have n: "nat_to_str n = (if n < 10 then [digit_char n]
      else nat_to_str (n div 10) @ [digit_char (n mod 10)])"
    by (rule nat_to_str.simps)
  show ?case
  proof (cases "m < 10 \<or> n < 10")
    case True
    with "1.prems" m n show ?thesis
      by (cases "m < 10"; cases "n < 10")
        (auto simp: append_eq_Cons_conv Cons_eq_append_conv intro: digit_char_inj)
  next
    case False
    with "1.prems" m n have d: "nat_to_str (m div 10) = nat_to_str (n div 10)"
      and e: "digit_char (m mod 10) = digit_char (n mod 10)" by auto
    from d False have "m div 10 = n div 10" using "1.IH" by simp
    moreover from e have "m mod 10 = n mod 10" by (intro digit_char_inj) auto
    ultimately show ?thesis by (metis div_mult_mod_eq)
  qed
qed

section \<open>Programs that change state and may fail\<close>

text \<open>
  An \<open>async fn ... -> Result<T, E>\<close> over shared state is a function from the state to the outcome
  (\<open>Inl\<close> the error, \<open>Inr\<close> the value) and the state it leaves, also when it fails. \<open>seqp\<close> is the
  \<open>?\<close> operator: an error ends the program in the state reached so far.
\<close>

type_synonym ('s, 'e, 'a) proc = "'s \<Rightarrow> ('e + 'a) \<times> 's"

definition retp :: "'a \<Rightarrow> ('s, 'e, 'a) proc" where
  "retp x s = (Inr x, s)"

definition failp :: "'e \<Rightarrow> ('s, 'e, 'a) proc" where
  "failp e s = (Inl e, s)"

definition seqp :: "('s, 'e, 'a) proc \<Rightarrow> ('a \<Rightarrow> ('s, 'e, 'b) proc) \<Rightarrow> ('s, 'e, 'b) proc" where
  "seqp m f s = (case m s of (Inl e, s') \<Rightarrow> (Inl e, s') | (Inr x, s') \<Rightarrow> f x s')"

text \<open>\<open>liftp\<close>: a pure \<open>Result\<close>; \<open>getp\<close>: a read of the state; \<open>modp\<close>: a write that cannot fail;
  \<open>map_errp\<close>: \<open>map_err\<close>; \<open>tryp\<close>: the outcome as a value (a \<open>match\<close> on it, or \<open>let _ =\<close>).\<close>

definition liftp :: "'e + 'a \<Rightarrow> ('s, 'e, 'a) proc" where
  "liftp r s = (r, s)"

definition getp :: "('s \<Rightarrow> 'a) \<Rightarrow> ('s, 'e, 'a) proc" where
  "getp f s = (Inr (f s), s)"

definition modp :: "('s \<Rightarrow> 's) \<Rightarrow> ('s, 'e, unit) proc" where
  "modp f s = (Inr (), f s)"

definition map_errp :: "('e \<Rightarrow> 'f) \<Rightarrow> ('s, 'e, 'a) proc \<Rightarrow> ('s, 'f, 'a) proc" where
  "map_errp g m s = (case m s of (Inl e, s') \<Rightarrow> (Inl (g e), s') | (Inr x, s') \<Rightarrow> (Inr x, s'))"

definition tryp :: "('s, 'e, 'a) proc \<Rightarrow> ('s, 'f, 'e + 'a) proc" where
  "tryp m s = (case m s of (r, s') \<Rightarrow> (Inr r, s'))"

lemma retp_apply [proc_simps]: "retp x s = (Inr x, s)"
  by (simp add: retp_def)

lemma failp_apply [proc_simps]: "failp e s = (Inl e, s)"
  by (simp add: failp_def)

lemma liftp_apply [proc_simps]: "liftp r s = (r, s)"
  by (simp add: liftp_def)

lemma getp_apply [proc_simps]: "getp f s = (Inr (f s), s)"
  by (simp add: getp_def)

lemma modp_apply [proc_simps]: "modp f s = (Inr (), f s)"
  by (simp add: modp_def)

lemmas seqp_apply [proc_simps] = seqp_def
lemmas map_errp_apply [proc_simps] = map_errp_def
lemmas tryp_apply [proc_simps] = tryp_def

text \<open>A program that returned a value ran each of its parts to a value.\<close>

lemma seqp_InrE:
  assumes "seqp m f s = (Inr y, t)"
  obtains x u where "m s = (Inr x, u)" and "f x u = (Inr y, t)"
  using assms by (auto simp: seqp_def split: prod.splits sum.splits)

lemma seqp_InlE:
  assumes "seqp m f s = (Inl e, t)"
  obtains (first) "m s = (Inl e, t)"
  | (second) x u where "m s = (Inr x, u)" and "f x u = (Inl e, t)"
  using assms by (auto simp: seqp_def split: prod.splits sum.splits)

lemma seqp_assoc: "seqp (seqp m f) g = seqp m (\<lambda>x. seqp (f x) g)"
  by (rule ext) (simp add: seqp_def split: prod.splits sum.splits)

lemma seqp_retp [simp]: "seqp (retp x) f = f x"
  by (rule ext) (simp add: seqp_def retp_def)

text \<open>\<open>pres I m\<close>: the program keeps the invariant \<open>I\<close>, whether it succeeds or fails.\<close>

definition pres :: "('s \<Rightarrow> bool) \<Rightarrow> ('s, 'e, 'a) proc \<Rightarrow> bool" where
  "pres I m \<longleftrightarrow> (\<forall>s. I s \<longrightarrow> I (snd (m s)))"

lemma presI: "(\<And>s. I s \<Longrightarrow> I (snd (m s))) \<Longrightarrow> pres I m"
  by (simp add: pres_def)

lemma presD: "pres I m \<Longrightarrow> I s \<Longrightarrow> m s = (r, t) \<Longrightarrow> I t"
  by (metis pres_def snd_conv)

lemma pres_retp [proc_pres]: "pres I (retp x)"
  by (simp add: pres_def retp_def)

lemma pres_failp [proc_pres]: "pres I (failp e)"
  by (simp add: pres_def failp_def)

lemma pres_liftp [proc_pres]: "pres I (liftp r)"
  by (simp add: pres_def liftp_def)

lemma pres_getp [proc_pres]: "pres I (getp f)"
  by (simp add: pres_def getp_def)

lemma pres_seqp [proc_pres]: "pres I m \<Longrightarrow> (\<And>x. pres I (f x)) \<Longrightarrow> pres I (seqp m f)"
  by (fastforce simp: pres_def seqp_def split: prod.splits sum.splits)

lemma pres_map_errp [proc_pres]: "pres I m \<Longrightarrow> pres I (map_errp g m)"
  by (fastforce simp: pres_def map_errp_def split: prod.splits sum.splits)

lemma pres_tryp [proc_pres]: "pres I m \<Longrightarrow> pres I (tryp m)"
  by (fastforce simp: pres_def tryp_def split: prod.splits)

lemma pres_if [proc_pres]: "(b \<Longrightarrow> pres I m) \<Longrightarrow> (\<not> b \<Longrightarrow> pres I n) \<Longrightarrow> pres I (if b then m else n)"
  by simp

lemma pres_case_option [proc_pres]:
  "pres I m \<Longrightarrow> (\<And>x. pres I (f x)) \<Longrightarrow> pres I (case z of None \<Rightarrow> m | Some x \<Rightarrow> f x)"
  by (cases z) auto

lemma pres_case_sum [proc_pres]:
  "(\<And>x. pres I (f x)) \<Longrightarrow> (\<And>x. pres I (g x)) \<Longrightarrow> pres I (case z of Inl x \<Rightarrow> f x | Inr y \<Rightarrow> g y)"
  by (cases z) auto

lemma pres_case_prod [proc_pres]:
  "(\<And>x y. pres I (f x y)) \<Longrightarrow> pres I (case z of (x, y) \<Rightarrow> f x y)"
  by (cases z) auto

lemma pres_modp: "(\<And>s. I s \<Longrightarrow> I (f s)) \<Longrightarrow> pres I (modp f)"
  by (simp add: pres_def modp_def)

lemma seqp_presE:
  assumes "seqp m f s = (Inr y, t)" and "pres J m" and "J s"
  obtains x u where "m s = (Inr x, u)" and "J u" and "f x u = (Inr y, t)"
  using assms by (auto elim!: seqp_InrE dest: presD)

text \<open>
  \<open>keeps J K m\<close>: the program keeps \<open>J\<close> when its outcome is one of \<open>K\<close> (\<open>keeps J isl m\<close>: when it
  fails). \<open>fails m\<close>: it fails from every state.
\<close>

definition keeps :: "('s \<Rightarrow> bool) \<Rightarrow> ('e + 'a \<Rightarrow> bool) \<Rightarrow> ('s, 'e, 'a) proc \<Rightarrow> bool" where
  "keeps J K m \<longleftrightarrow> (\<forall>s r t. J s \<longrightarrow> m s = (r, t) \<longrightarrow> K r \<longrightarrow> J t)"

definition fails :: "('s, 'e, 'a) proc \<Rightarrow> bool" where
  "fails m \<longleftrightarrow> (\<forall>s. \<exists>e t. m s = (Inl e, t))"

named_theorems fail_rules

lemma keepsD: "keeps J K m \<Longrightarrow> J s \<Longrightarrow> m s = (r, t) \<Longrightarrow> K r \<Longrightarrow> J t"
  unfolding keeps_def by blast

lemma keeps_of_pres: "pres J m \<Longrightarrow> keeps J K m"
  unfolding keeps_def by (blast dest: presD)

lemma keeps_returns [fail_rules]: "keeps J K (retp x)" "keeps J K (failp e)"
  by (simp_all add: keeps_def retp_def failp_def)

lemma keeps_seqp [fail_rules]:
  assumes "pres J m" and "\<And>x. keeps J K (f x)"
  shows "keeps J K (seqp m f)"
  unfolding keeps_def
proof (intro allI impI)
  fix s r t
  assume J: "J s" and run: "seqp m f s = (r, t)" and K: "K r"
  obtain x u where m: "m s = (x, u)" by (cases "m s")
  then have "J u" using presD [OF assms(1) J] by simp
  then show "J t" using run m K keepsD [OF assms(2)] by (cases x) (auto simp: seqp_def)
qed

lemma keeps_value: "(\<And>x. keeps (\<lambda>s. f s = x) K m) \<Longrightarrow> keeps (\<lambda>s. I (f s)) K m"
  unfolding keeps_def by metis

text \<open>A last step that may change \<open>J\<close> on success, followed by steps that cannot fail.\<close>

lemma keeps_then:
  "keeps J isl m \<Longrightarrow> (\<And>x s. \<exists>y t. f x s = (Inr y, t)) \<Longrightarrow> keeps J isl (seqp m f)"
  unfolding keeps_def by (metis isl_def prod.inject seqp_InlE sum.distinct(1))

lemma keeps_case_option [fail_rules]:
  "keeps J K m \<Longrightarrow> (\<And>x. keeps J K (f x)) \<Longrightarrow> keeps J K (case z of None \<Rightarrow> m | Some x \<Rightarrow> f x)"
  by (cases z) auto

lemma failsD: "fails m \<Longrightarrow> m s = (r, t) \<Longrightarrow> \<exists>e. r = Inl e"
  unfolding fails_def by (metis prod.inject)

lemma fails_failp [fail_rules]: "fails (failp e)"
  by (simp add: fails_def failp_def)

lemma fails_first: "fails m \<Longrightarrow> fails (seqp m f)"
  by (auto simp: fails_def seqp_def split: prod.splits sum.splits) (metis Inl_Inr_False prod.inject)

lemma fails_rest: "(\<And>x. fails (f x)) \<Longrightarrow> fails (seqp m f)"
  unfolding fails_def seqp_def by (auto split: prod.splits sum.splits)

lemma fails_case_option [fail_rules]:
  "fails m \<Longrightarrow> (\<And>x. fails (f x)) \<Longrightarrow> fails (case z of None \<Rightarrow> m | Some x \<Rightarrow> f x)"
  by (cases z) auto

lemma fails_map_errp [fail_rules]: "fails m \<Longrightarrow> fails (map_errp g m)"
  by (auto simp: fails_def map_errp_def split: prod.splits sum.splits) (metis Inl_Inr_False prod.inject)

section \<open>Hash maps\<close>

text \<open>
  A \<open>HashMap\<close> is an association list with distinct keys (\<open>AList.update\<close>, \<open>AList.delete\<close>,
  \<open>map_of\<close>). Rust leaves the iteration order open; the model iterates in the list's order, and
  the theorems that depend on an iteration say that the order does not matter.
\<close>

lemma distinct_fst_update [simp]: "distinct (map fst (AList.update k v m)) = distinct (map fst m)"
  using distinct_update by (induction m) (auto simp: dom_update)

lemma distinct_fst_delete [simp]: "distinct (map fst m) \<Longrightarrow> distinct (map fst (AList.delete k m))"
  by (simp add: distinct_delete)

lemma map_of_update: "map_of (AList.update k v m) = (map_of m)(k \<mapsto> v)"
  by (rule update_conv')

lemma map_of_delete: "map_of (AList.delete k m) = (map_of m)(k := None)"
  by (rule delete_conv')

section \<open>Lists\<close>

lemma find_map: "find P (map f xs) = map_option f (find (\<lambda>x. P (f x)) xs)"
  by (induction xs) simp_all

lemma sort_key_mset_unique:
  assumes "mset xs = mset ys" and "inj_on f (set xs)"
  shows "sort_key f xs = sort_key f ys"
  using assms by (intro sort_key_inj_key_eq) auto

end
