(* ===== verification/Gds_Model.thy ===== *)
theory Gds_Model
  imports Gds_Prelude
begin

text \<open>
  The domain model (\<open>crates/gds-core/src/model/\<close>): errors, accounts, sync folders, Drive files,
  file states, change sets and the configuration. Every struct is a record whose fields carry a
  prefix (\<open>fs_relative_path\<close> is \<open>FileState::relative_path\<close>), every enum a datatype. Rust's
  \<open>DateTime<Utc>\<close> is read as the instant it denotes, in nanoseconds since the Unix epoch; the
  functions of the chrono, serde and mime\_guess crates that the code calls are parameters (the
  record \<open>libs\<close>), and what the proofs use of them is the predicate \<open>libs_ok\<close>.
\<close>

section \<open>Errors\<close>

type_synonym datetime = int

datatype io_kind = NotFound | OtherKind

record io_error =
  io_kind :: io_kind
  io_text :: string

text \<open>
  What \<open>sqlx::Error\<close> can be here: a violated constraint of the schema, or a stored
  value that does not decode.
\<close>

datatype db_error =
    UniqueViolation string
  | ForeignKeyViolation
  | RowDecode string

datatype sync_error =
    QuotaExceeded nat
  | ConflictFor string
  | PathTraversal string
  | AuthExpired
  | AuthError string
  | OpenUrlRequired string
  | NetworkError io_error
  | IoError string io_error
  | DatabaseError db_error
  | ApiError nat string

text \<open>
  The \<open>#[error(...)]\<close> texts. The rendering of \<open>sqlx::Error\<close> is a parameter; the dash of
  \<open>ApiError\<close> is the three bytes of U+2014.
\<close>

definition em_dash :: string where
  "em_dash = [CHR 0xE2, CHR 0x80, CHR 0x94]"

fun sync_error_display :: "(db_error \<Rightarrow> string) \<Rightarrow> sync_error \<Rightarrow> string" where
  "sync_error_display dbt (QuotaExceeded retry_after) =
     ''API quota exceeded: retry after '' @ nat_to_str retry_after @ ''s''"
| "sync_error_display dbt (ConflictFor path) = ''Conflict detected for file '' @ path"
| "sync_error_display dbt (PathTraversal path) = ''Path traversal or invalid path: '' @ path"
| "sync_error_display dbt AuthExpired = ''Authentication expired or invalid''"
| "sync_error_display dbt (AuthError message) = ''Authentication error: '' @ message"
| "sync_error_display dbt (OpenUrlRequired url) = ''Open this URL to sign in: '' @ url"
| "sync_error_display dbt (NetworkError e) = ''Network error: '' @ io_text e"
| "sync_error_display dbt (IoError path source) =
     ''I/O error at '' @ path @ '': '' @ io_text source"
| "sync_error_display dbt (DatabaseError e) = ''Database error: '' @ dbt e"
| "sync_error_display dbt (ApiError code message) =
     ''Drive API error: '' @ nat_to_str code @ '' '' @ em_dash @ '' '' @ message"

section \<open>Accounts, folders, Drive files\<close>

record account =
  acc_id :: string
  acc_email :: string
  acc_display_name :: "string option"
  acc_keyring_key :: string
  acc_created_at :: datetime

record sync_folder =
  sf_id :: string
  sf_account_id :: string
  sf_local_path :: string
  sf_drive_folder_id :: string
  sf_start_page_token :: "string option"
  sf_last_sync_at :: "datetime option"
  sf_paused :: bool

text \<open>No function of the program makes one.\<close>

record conflict_info =
  ci_local_path :: string
  ci_conflict_copy_path :: string
  ci_server_version :: string
  ci_local_version :: string

record drive_file =
  df_id :: string
  df_name :: string
  df_mime_type :: string
  df_md5_checksum :: "string option"
  df_size :: "string option"
  df_modified_time :: "string option"
  df_parents :: "string list option"
  df_trashed :: "bool option"

text \<open>
  \<open>str::parse::<u64>\<close>: an optional plus sign and at least one decimal digit, the value below
  \<open>2 ^ 64\<close>.
\<close>

definition digit_val :: "char \<Rightarrow> nat" where
  "digit_val c = of_char c - 48"

fun parse_digits :: "nat \<Rightarrow> string \<Rightarrow> nat option" where
  "parse_digits acc [] = Some acc"
| "parse_digits acc (c # cs) =
     (if is_digit c then parse_digits (acc * 10 + digit_val c) cs else None)"

definition parse_uint :: "nat \<Rightarrow> string \<Rightarrow> nat option" where
  "parse_uint bits s =
     (let ds = (case s of c # cs \<Rightarrow> if c = CHR ''+'' then cs else s | [] \<Rightarrow> s)
      in if ds = [] then None
         else (case parse_digits 0 ds of
                 None \<Rightarrow> None
               | Some n \<Rightarrow> if n < 2 ^ bits then Some n else None))"

definition size_bytes :: "drive_file \<Rightarrow> nat option" where
  "size_bytes f = Option.bind (df_size f) (parse_uint 64)"

definition is_trashed :: "drive_file \<Rightarrow> bool" where
  "is_trashed f = (case df_trashed f of Some b \<Rightarrow> b | None \<Rightarrow> False)"

section \<open>The state of a file\<close>

datatype sync_state_kind = Synced | Pending | InConflict | InError | Uploading | Downloading

record sync_state =
  ss_kind :: sync_state_kind
  ss_message :: "string option"

definition ss_synced :: sync_state where
  "ss_synced = \<lparr>ss_kind = Synced, ss_message = None\<rparr>"

definition ss_pending :: sync_state where
  "ss_pending = \<lparr>ss_kind = Pending, ss_message = None\<rparr>"

definition ss_conflict :: sync_state where
  "ss_conflict = \<lparr>ss_kind = InConflict, ss_message = None\<rparr>"

definition ss_error :: "string \<Rightarrow> sync_state" where
  "ss_error msg = \<lparr>ss_kind = InError, ss_message = Some msg\<rparr>"

definition ss_uploading :: sync_state where
  "ss_uploading = \<lparr>ss_kind = Uploading, ss_message = None\<rparr>"

definition ss_downloading :: sync_state where
  "ss_downloading = \<lparr>ss_kind = Downloading, ss_message = None\<rparr>"

record file_state =
  fs_id :: string
  fs_sync_folder_id :: string
  fs_relative_path :: string
  fs_drive_file_id :: "string option"
  fs_drive_md5 :: "string option"
  fs_drive_modified :: "datetime option"
  fs_local_md5 :: "string option"
  fs_local_modified :: "datetime option"
  fs_sync_state :: sync_state
  fs_last_synced_at :: "datetime option"

definition new_pending :: "string \<Rightarrow> string \<Rightarrow> string \<Rightarrow> file_state" where
  "new_pending i sync_folder_id relative_path =
     \<lparr>fs_id = i, fs_sync_folder_id = sync_folder_id, fs_relative_path = relative_path,
      fs_drive_file_id = None, fs_drive_md5 = None, fs_drive_modified = None,
      fs_local_md5 = None, fs_local_modified = None, fs_sync_state = ss_pending,
      fs_last_synced_at = None\<rparr>"

definition fs_is_synced :: "file_state \<Rightarrow> bool" where
  "fs_is_synced s \<longleftrightarrow> ss_kind (fs_sync_state s) = Synced"

definition fs_is_conflict :: "file_state \<Rightarrow> bool" where
  "fs_is_conflict s \<longleftrightarrow> ss_kind (fs_sync_state s) = InConflict"

section \<open>Changes\<close>

record drive_change =
  ch_change_type :: string
  ch_file_id :: string
  ch_file :: "drive_file option"
  ch_removed :: "bool option"

record change_set =
  cs_next_page_token :: "string option"
  cs_new_start_page_token :: "string option"
  cs_changes :: "drive_change list"

section \<open>Configuration\<close>

record oauth_config =
  oc_client_id :: string
  oc_credentials_path :: "string option"
  oc_redirect_port :: nat

record sync_config =
  sc_poll_interval_secs :: nat
  sc_max_concurrent_uploads :: nat
  sc_max_concurrent_downloads :: nat
  sc_conflict_suffix_format :: string
  sc_request_timeout_secs :: nat
  sc_upload_timeout_secs :: nat

record ui_config =
  uc_show_notifications :: bool
  uc_notification_timeout_ms :: nat

record config =
  cfg_oauth :: oauth_config
  cfg_sync :: sync_config
  cfg_ui :: ui_config

definition oauth_config_default :: oauth_config where
  "oauth_config_default = \<lparr>oc_client_id = [], oc_credentials_path = None, oc_redirect_port = 8765\<rparr>"

definition sync_config_default :: sync_config where
  "sync_config_default =
     \<lparr>sc_poll_interval_secs = 30, sc_max_concurrent_uploads = 2, sc_max_concurrent_downloads = 4,
      sc_conflict_suffix_format = ''.conflict-%Y%m%d-%H%M%S'',
      sc_request_timeout_secs = 30, sc_upload_timeout_secs = 300\<rparr>"

definition ui_config_default :: ui_config where
  "ui_config_default = \<lparr>uc_show_notifications = True, uc_notification_timeout_ms = 5000\<rparr>"

definition config_default :: config where
  "config_default =
     \<lparr>cfg_oauth = oauth_config_default, cfg_sync = sync_config_default, cfg_ui = ui_config_default\<rparr>"

section \<open>Third-party functions\<close>

text \<open>
  \<^item> \<open>lib_timestamp\<close>, \<open>lib_timestamp_millis\<close>, \<open>lib_from_timestamp\<close>: chrono's
    \<open>DateTime::timestamp\<close>, \<open>timestamp_millis\<close> and \<open>from_timestamp\<close> (seconds, nanoseconds);
  \<^item> \<open>lib_parse_rfc3339\<close>: \<open>DateTime::parse_from_rfc3339\<close> converted to UTC;
  \<^item> \<open>lib_conflict_stamp\<close>: \<open>format("%Y%m%d-%H%M%S")\<close>;
  \<^item> \<open>lib_state_to_json\<close>, \<open>lib_state_from_json\<close>: serde\_json on \<open>SyncState\<close>;
  \<^item> \<open>lib_mime_guess\<close>: \<open>mime_guess::from_path(p).first_or_octet_stream()\<close>;
  \<^item> \<open>lib_md5\<close>: the hexadecimal \<open>md5::compute\<close> of a byte string.
\<close>

record libs =
  lib_timestamp :: "datetime \<Rightarrow> int"
  lib_timestamp_millis :: "datetime \<Rightarrow> int"
  lib_from_timestamp :: "int \<Rightarrow> nat \<Rightarrow> datetime option"
  lib_parse_rfc3339 :: "string \<Rightarrow> datetime option"
  lib_conflict_stamp :: "datetime \<Rightarrow> string"
  lib_state_to_json :: "sync_state \<Rightarrow> string"
  lib_state_from_json :: "string \<Rightarrow> sync_state option"
  lib_mime_guess :: "string \<Rightarrow> string"
  lib_md5 :: "string \<Rightarrow> string"

text \<open>
  Their documented behaviour, as far as the proofs use it. chrono counts whole seconds and whole
  milliseconds downwards; \<open>from_timestamp\<close> builds the instant for nanoseconds below \<open>10 ^ 9\<close>
  when the second is inside chrono's range (years 1970 to 9999 are), and refuses \<open>2 * 10 ^ 9\<close>
  nanoseconds and more; serde reads back what it wrote.
\<close>

definition max_secs :: int where
  "max_secs = 253402300799"

definition chrono_ok :: "libs \<Rightarrow> bool" where
  "chrono_ok L \<longleftrightarrow>
     (\<forall>t. lib_timestamp L t = t div 1000000000) \<and>
     (\<forall>t. lib_timestamp_millis L t = t div 1000000) \<and>
     (\<forall>s n. 0 \<le> s \<and> s \<le> max_secs \<and> n < 1000000000 \<longrightarrow>
        lib_from_timestamp L s n = Some (s * 1000000000 + int n)) \<and>
     (\<forall>s n. 2000000000 \<le> n \<longrightarrow> lib_from_timestamp L s n = None)"

text \<open>The conflict stamp is made of digits and dashes.\<close>

definition stamp_ok :: "libs \<Rightarrow> bool" where
  "stamp_ok L \<longleftrightarrow> (\<forall>t. \<forall>c \<in> set (lib_conflict_stamp L t). is_digit c \<or> c = CHR ''-'')"

definition serde_ok :: "libs \<Rightarrow> bool" where
  "serde_ok L \<longleftrightarrow> (\<forall>s. lib_state_from_json L (lib_state_to_json L s) = Some s)"

definition libs_ok :: "libs \<Rightarrow> bool" where
  "libs_ok L \<longleftrightarrow> chrono_ok L \<and> stamp_ok L \<and> serde_ok L"

text \<open>
  A concrete instance, used by the witnesses: it satisfies \<open>libs_ok\<close>, so the hypotheses can hold.
  It encodes a state as a tag and its message; its clock texts are decimal numbers.
\<close>

fun kind_tag :: "sync_state_kind \<Rightarrow> char" where
  "kind_tag Synced = CHR ''s''"
| "kind_tag Pending = CHR ''p''"
| "kind_tag InConflict = CHR ''c''"
| "kind_tag InError = CHR ''e''"
| "kind_tag Uploading = CHR ''u''"
| "kind_tag Downloading = CHR ''d''"

definition tag_kind :: "char \<Rightarrow> sync_state_kind" where
  "tag_kind c =
     (if c = CHR ''s'' then Synced else if c = CHR ''p'' then Pending
      else if c = CHR ''c'' then InConflict else if c = CHR ''e'' then InError
      else if c = CHR ''u'' then Uploading else Downloading)"

definition demo_libs :: libs where
  "demo_libs =
     \<lparr>lib_timestamp = (\<lambda>t. t div 1000000000),
      lib_timestamp_millis = (\<lambda>t. t div 1000000),
      lib_from_timestamp = (\<lambda>s n. if n < 1000000000 then Some (s * 1000000000 + int n) else None),
      lib_parse_rfc3339 = (\<lambda>s. map_option (\<lambda>n. int n * 1000000000) (parse_uint 64 s)),
      lib_conflict_stamp = (\<lambda>t. nat_to_str (nat (t div 1000000000))),
      lib_state_to_json = (\<lambda>s. kind_tag (ss_kind s) #
         (case ss_message s of None \<Rightarrow> [] | Some m \<Rightarrow> CHR '':'' # m)),
      lib_state_from_json = (\<lambda>t. case t of
         [] \<Rightarrow> None
       | k # m \<Rightarrow> Some \<lparr>ss_kind = tag_kind k,
           ss_message = (case m of [] \<Rightarrow> None | c # m' \<Rightarrow> Some m')\<rparr>),
      lib_mime_guess = (\<lambda>_. ''application/octet-stream''),
      lib_md5 = (\<lambda>s. s)\<rparr>"

lemma tag_kind_kind_tag [simp]: "tag_kind (kind_tag k) = k"
  by (cases k) (auto simp: tag_kind_def)

lemma demo_libs_ok: "libs_ok demo_libs"
  by (auto simp: libs_ok_def chrono_ok_def stamp_ok_def serde_ok_def demo_libs_def
      dest: nat_to_str_digits split: option.splits)

lemma is_trashed_iff: "is_trashed f \<longleftrightarrow> df_trashed f = Some True"
  by (auto simp: is_trashed_def split: option.splits)

section \<open>Decimal text\<close>

lemma digit_val_digit_char [simp]: "d < 10 \<Longrightarrow> digit_val (digit_char d) = d"
  by (simp add: digit_val_def)

lemma is_digit_digit_char [simp]: "d < 10 \<Longrightarrow> is_digit (digit_char d)"
  by (simp add: is_digit_def)

lemma parse_digits_append:
  "parse_digits acc (xs @ [c]) =
     (case parse_digits acc xs of
        None \<Rightarrow> None
      | Some n \<Rightarrow> if is_digit c then Some (n * 10 + digit_val c) else None)"
  by (induction xs arbitrary: acc) auto

lemma parse_digits_nat_to_str: "parse_digits 0 (nat_to_str n) = Some n"
proof (induction n rule: nat_to_str.induct)
  case (1 n)
  have n: "nat_to_str n = (if n < 10 then [digit_char n]
      else nat_to_str (n div 10) @ [digit_char (n mod 10)])"
    by (rule nat_to_str.simps)
  show ?case
  proof (cases "n < 10")
    case True
    with n show ?thesis by simp
  next
    case False
    with n "1.IH" show ?thesis by (simp add: parse_digits_append)
  qed
qed

lemma plus_not_digit: "\<not> is_digit (CHR ''+'')"
  by (simp add: is_digit_def)

lemma parse_uint_nat_to_str:
  assumes "n < 2 ^ bits"
  shows "parse_uint bits (nat_to_str n) = Some n"
proof -
  have "CHR ''+'' \<notin> set (nat_to_str n)"
    using nat_to_str_digits plus_not_digit by blast
  then have "(case nat_to_str n of c # cs \<Rightarrow> if c = CHR ''+'' then cs else nat_to_str n | [] \<Rightarrow> nat_to_str n)
      = nat_to_str n"
    by (auto split: list.splits)
  with assms show ?thesis
    by (simp only: parse_uint_def Let_def parse_digits_nat_to_str) simp
qed

end
