(* ===== verification/Gds_Change.thy ===== *)
theory Gds_Change
  imports Gds_Model
begin

text \<open>
  Sync actions (\<open>crates/gds-core/src/sync/change.rs\<close>): the kinds, the action record with its
  constructors, the queue priority, and the conflict predicate \<open>is_conflict\<close> with the two change
  tests it is made of, which the diff engine also applies.
\<close>

datatype sync_action_kind =
    NewUpload | NewDownload | UpdateUpload | UpdateDownload | DeleteRemote | DeleteLocal | Conflict

record sync_action =
  sa_kind :: sync_action_kind
  sa_relative_path :: string
  sa_state :: "file_state option"
  sa_drive_file :: "drive_file option"
  sa_local_md5 :: "string option"
  sa_local_modified :: "datetime option"

definition new_upload ::
    "string \<Rightarrow> file_state option \<Rightarrow> string \<Rightarrow> datetime \<Rightarrow> sync_action" where
  "new_upload relative_path state local_md5 local_modified =
     \<lparr>sa_kind = NewUpload, sa_relative_path = relative_path, sa_state = state,
      sa_drive_file = None, sa_local_md5 = Some local_md5,
      sa_local_modified = Some local_modified\<rparr>"

definition new_download :: "string \<Rightarrow> drive_file \<Rightarrow> sync_action" where
  "new_download relative_path f =
     \<lparr>sa_kind = NewDownload, sa_relative_path = relative_path, sa_state = None,
      sa_drive_file = Some f, sa_local_md5 = None, sa_local_modified = None\<rparr>"

definition update_upload ::
    "string \<Rightarrow> file_state \<Rightarrow> string \<Rightarrow> datetime \<Rightarrow> sync_action" where
  "update_upload relative_path state local_md5 local_modified =
     \<lparr>sa_kind = UpdateUpload, sa_relative_path = relative_path, sa_state = Some state,
      sa_drive_file = None, sa_local_md5 = Some local_md5,
      sa_local_modified = Some local_modified\<rparr>"

definition update_download :: "string \<Rightarrow> file_state \<Rightarrow> drive_file \<Rightarrow> sync_action" where
  "update_download relative_path state f =
     \<lparr>sa_kind = UpdateDownload, sa_relative_path = relative_path, sa_state = Some state,
      sa_drive_file = Some f, sa_local_md5 = None, sa_local_modified = None\<rparr>"

definition delete_remote :: "string \<Rightarrow> file_state \<Rightarrow> sync_action" where
  "delete_remote relative_path state =
     \<lparr>sa_kind = DeleteRemote, sa_relative_path = relative_path, sa_state = Some state,
      sa_drive_file = None, sa_local_md5 = None, sa_local_modified = None\<rparr>"

definition delete_local :: "string \<Rightarrow> file_state \<Rightarrow> sync_action" where
  "delete_local relative_path state =
     \<lparr>sa_kind = DeleteLocal, sa_relative_path = relative_path, sa_state = Some state,
      sa_drive_file = None, sa_local_md5 = None, sa_local_modified = None\<rparr>"

definition conflict_action ::
    "string \<Rightarrow> file_state \<Rightarrow> drive_file \<Rightarrow> string \<Rightarrow> datetime \<Rightarrow> sync_action" where
  "conflict_action relative_path state f local_md5 local_modified =
     \<lparr>sa_kind = Conflict, sa_relative_path = relative_path, sa_state = Some state,
      sa_drive_file = Some f, sa_local_md5 = Some local_md5,
      sa_local_modified = Some local_modified\<rparr>"

lemmas action_defs =
  new_upload_def new_download_def update_upload_def update_download_def
  delete_remote_def delete_local_def conflict_action_def

fun kind_priority :: "sync_action_kind \<Rightarrow> nat" where
  "kind_priority NewDownload = 0"
| "kind_priority UpdateDownload = 0"
| "kind_priority Conflict = 1"
| "kind_priority NewUpload = 2"
| "kind_priority UpdateUpload = 2"
| "kind_priority DeleteLocal = 3"
| "kind_priority DeleteRemote = 3"

definition priority :: "sync_action \<Rightarrow> nat" where
  "priority a = kind_priority (sa_kind a)"

text \<open>
  The two change tests. A stored local time that is missing counts as changed; a missing remote
  value is compared as a value.
\<close>

definition local_changed :: "file_state \<Rightarrow> string \<Rightarrow> datetime \<Rightarrow> bool" where
  "local_changed state md5 modified \<longleftrightarrow>
     fs_local_md5 state \<noteq> Some md5 \<or>
     (case fs_local_modified state of Some t \<Rightarrow> t \<noteq> modified | None \<Rightarrow> True)"

definition remote_changed ::
    "file_state \<Rightarrow> string option \<Rightarrow> datetime option \<Rightarrow> bool" where
  "remote_changed state drive_md5 drive_modified \<longleftrightarrow>
     fs_drive_md5 state \<noteq> drive_md5 \<or> fs_drive_modified state \<noteq> drive_modified"

definition is_conflict ::
    "file_state \<Rightarrow> string \<Rightarrow> datetime \<Rightarrow> string option \<Rightarrow> datetime option \<Rightarrow> bool" where
  "is_conflict state local_md5 local_modified drive_md5 drive_modified \<longleftrightarrow>
     local_changed state local_md5 local_modified \<and>
     remote_changed state drive_md5 drive_modified"

lemma local_changed_iff:
  "local_changed state md5 modified \<longleftrightarrow>
     \<not> (fs_local_md5 state = Some md5 \<and> fs_local_modified state = Some modified)"
  by (auto simp: local_changed_def split: option.splits)

lemma priority_less_4: "priority a < 4"
  by (cases "sa_kind a") (simp_all add: priority_def)

lemma priority_iff:
  "priority a = 0 \<longleftrightarrow> sa_kind a \<in> {NewDownload, UpdateDownload}"
  "priority a = 1 \<longleftrightarrow> sa_kind a = Conflict"
  "priority a = 2 \<longleftrightarrow> sa_kind a \<in> {NewUpload, UpdateUpload}"
  "priority a = 3 \<longleftrightarrow> sa_kind a \<in> {DeleteLocal, DeleteRemote}"
  by (cases "sa_kind a"; simp add: priority_def)+

lemma action_path [simp]:
  "sa_relative_path (new_upload p st m t) = p"
  "sa_relative_path (new_download p f) = p"
  "sa_relative_path (update_upload p s m t) = p"
  "sa_relative_path (update_download p s f) = p"
  "sa_relative_path (delete_remote p s) = p"
  "sa_relative_path (delete_local p s) = p"
  "sa_relative_path (conflict_action p s f m t) = p"
  by (simp_all add: action_defs)

lemma action_kind [simp]:
  "sa_kind (new_upload p st m t) = NewUpload"
  "sa_kind (new_download p f) = NewDownload"
  "sa_kind (update_upload p s m t) = UpdateUpload"
  "sa_kind (update_download p s f) = UpdateDownload"
  "sa_kind (delete_remote p s) = DeleteRemote"
  "sa_kind (delete_local p s) = DeleteLocal"
  "sa_kind (conflict_action p s f m t) = Conflict"
  by (simp_all add: action_defs)

text \<open>
  What the constructors put into an action for its kind: the data the executor will ask for.
\<close>

definition action_wf :: "sync_action \<Rightarrow> bool" where
  "action_wf a \<longleftrightarrow>
     (sa_kind a \<in> {UpdateUpload, UpdateDownload, DeleteRemote, DeleteLocal, Conflict} \<longrightarrow>
        sa_state a \<noteq> None) \<and>
     (sa_kind a \<in> {NewDownload, UpdateDownload, Conflict} \<longrightarrow> sa_drive_file a \<noteq> None) \<and>
     (sa_kind a \<in> {NewUpload, UpdateUpload, Conflict} \<longrightarrow>
        sa_local_md5 a \<noteq> None \<and> sa_local_modified a \<noteq> None)"

lemma action_wf_constructors [simp]:
  "action_wf (new_upload p st m t)" "action_wf (new_download p f)"
  "action_wf (update_upload p s m t)" "action_wf (update_download p s f)"
  "action_wf (delete_remote p s)" "action_wf (delete_local p s)"
  "action_wf (conflict_action p s f m t)"
  by (simp_all add: action_wf_def action_defs)

end
