(* ===== verification/Gds_Queue.thy ===== *)
theory Gds_Queue
  imports Gds_Change
begin

text \<open>
  The queue of sync actions (\<open>crates/gds-core/src/sync/queue.rs\<close>): a \<open>VecDeque\<close> kept in priority
  order. \<open>from_actions\<close> sorts by priority and path, \<open>push\<close> inserts behind every action of the
  same or a more urgent priority, \<open>pop\<close> takes the front. The locale \<open>priority_queue\<close> is the
  interface the executor relies on; \<open>SyncQueue\<close> interprets it.
\<close>

section \<open>The interface\<close>

locale priority_queue =
  fixes empty :: "'q"
    and push :: "'q \<Rightarrow> 'a \<Rightarrow> 'q"
    and pop :: "'q \<Rightarrow> ('a \<times> 'q) option"
    and items :: "'q \<Rightarrow> 'a list"
    and rank :: "'a \<Rightarrow> nat"
  assumes items_empty: "items empty = []"
    and items_push: "mset (items (push q x)) = add_mset x (mset (items q))"
    and ranked_push: "sorted (map rank (items q)) \<Longrightarrow> sorted (map rank (items (push q x)))"
    and stable_push: "sorted (map rank (items q)) \<Longrightarrow>
      filter (\<lambda>y. rank y = r) (items (push q x)) =
      filter (\<lambda>y. rank y = r) (items q) @ (if rank x = r then [x] else [])"
    and pop_None: "pop q = None \<longleftrightarrow> items q = []"
    and pop_Some: "pop q = Some (x, q') \<Longrightarrow> items q = x # items q'"
begin

lemma pop_length: "pop q = Some (x, q') \<Longrightarrow> length (items q) = Suc (length (items q'))"
  by (drule pop_Some) simp

lemma pop_ranked: "sorted (map rank (items q)) \<Longrightarrow> pop q = Some (x, q') \<Longrightarrow> sorted (map rank (items q'))"
  by (drule pop_Some) simp

lemma pop_least: "sorted (map rank (items q)) \<Longrightarrow> pop q = Some (x, q') \<Longrightarrow> y \<in> set (items q) \<Longrightarrow> rank x \<le> rank y"
  by (drule pop_Some) auto

lemma pushes_ranked: "sorted (map rank (items q)) \<Longrightarrow> sorted (map rank (items (foldl push q xs)))"
  by (induction xs arbitrary: q) (auto intro: ranked_push)

lemma pushes_items: "mset (items (foldl push q xs)) = mset xs + mset (items q)"
  by (induction xs arbitrary: q) (auto simp: items_push)

lemma pushes_stable:
  "sorted (map rank (items q)) \<Longrightarrow>
   filter (\<lambda>y. rank y = r) (items (foldl push q xs)) =
   filter (\<lambda>y. rank y = r) (items q) @ filter (\<lambda>y. rank y = r) xs"
  by (induction xs arbitrary: q) (simp_all add: ranked_push stable_push)

text \<open>Pushing a list into the empty queue is a stable sort of the list by rank.\<close>

lemma pushes_sort: "items (foldl push empty xs) = sort_key rank xs"
proof -
  have "sorted (map rank (items (foldl push empty xs)))"
    by (rule pushes_ranked) (simp add: items_empty)
  moreover have "mset (items (foldl push empty xs)) = mset xs"
    by (simp add: pushes_items items_empty)
  moreover have "filter (\<lambda>y. rank k = rank y) (items (foldl push empty xs)) =
      filter (\<lambda>y. rank k = rank y) xs" for k
    using pushes_stable [of empty "rank k" xs] by (simp add: items_empty eq_commute)
  ultimately show ?thesis
    by (intro properties_for_sort_key [symmetric]) auto
qed

end

section \<open>The implementation\<close>

record sync_queue =
  sq_inner :: "sync_action list"

definition queue_new :: sync_queue where
  "queue_new = \<lparr>sq_inner = []\<rparr>"

definition action_key :: "sync_action \<Rightarrow> nat \<times> string" where
  "action_key a = (priority a, sa_relative_path a)"

definition from_actions :: "sync_action list \<Rightarrow> sync_queue" where
  "from_actions actions = \<lparr>sq_inner = sort_key action_key actions\<rparr>"

text \<open>The loop of \<open>push\<close>: \<open>i\<close> ends as the index of the first action of a later priority.\<close>

fun push_index :: "nat \<Rightarrow> nat \<Rightarrow> nat \<Rightarrow> sync_action list \<Rightarrow> nat" where
  "push_index p i j [] = i"
| "push_index p i j (a # as) =
     (if priority a > p then j else push_index p (j + 1) (j + 1) as)"

definition queue_push :: "sync_queue \<Rightarrow> sync_action \<Rightarrow> sync_queue" where
  "queue_push q action =
     (let i = push_index (priority action) 0 0 (sq_inner q)
      in q\<lparr>sq_inner := take i (sq_inner q) @ action # drop i (sq_inner q)\<rparr>)"

definition queue_pop :: "sync_queue \<Rightarrow> (sync_action \<times> sync_queue) option" where
  "queue_pop q = (case sq_inner q of [] \<Rightarrow> None | a # as \<Rightarrow> Some (a, q\<lparr>sq_inner := as\<rparr>))"

definition queue_is_empty :: "sync_queue \<Rightarrow> bool" where
  "queue_is_empty q \<longleftrightarrow> sq_inner q = []"

definition queue_len :: "sync_queue \<Rightarrow> nat" where
  "queue_len q = length (sq_inner q)"

lemma push_index_split:
  "push_index p i i xs = i + length (takeWhile (\<lambda>a. priority a \<le> p) xs)"
  by (induction p i i xs rule: push_index.induct) auto

lemma queue_push_inner:
  "sq_inner (queue_push q x) =
     takeWhile (\<lambda>a. priority a \<le> priority x) (sq_inner q) @ x #
     dropWhile (\<lambda>a. priority a \<le> priority x) (sq_inner q)"
  by (simp add: queue_push_def push_index_split Let_def takeWhile_eq_take [symmetric]
      dropWhile_eq_drop [symmetric])

lemma sorted_dropWhile_greater:
  "sorted (map f xs) \<Longrightarrow> y \<in> set (dropWhile (\<lambda>a. f a \<le> (p :: nat)) xs) \<Longrightarrow> p < f y"
  by (induction xs) (auto split: if_splits)

lemma sorted_insert_behind:
  fixes f :: "'a \<Rightarrow> nat"
  assumes "sorted (map f xs)"
  shows "sorted (map f (takeWhile (\<lambda>a. f a \<le> f x) xs @ x # dropWhile (\<lambda>a. f a \<le> f x) xs))"
proof -
  let ?t = "takeWhile (\<lambda>a. f a \<le> f x) xs" and ?d = "dropWhile (\<lambda>a. f a \<le> f x) xs"
  have xs: "sorted (map f ?t @ map f ?d)"
    using assms by (metis map_append takeWhile_dropWhile_id)
  have t: "\<forall>y \<in> set ?t. f y \<le> f x"
    by (auto dest: set_takeWhileD)
  have d: "\<forall>y \<in> set ?d. f x < f y"
    using sorted_dropWhile_greater [OF assms] by blast
  have "sorted (map f ?d)" and "sorted (map f ?t)"
    using xs by (simp_all add: sorted_append)
  then show ?thesis
    using t d by (fastforce simp add: sorted_append less_imp_le)
qed

lemma filter_insert_behind:
  fixes f :: "'a \<Rightarrow> nat"
  assumes "sorted (map f xs)"
  shows "filter (\<lambda>y. f y = r) (takeWhile (\<lambda>a. f a \<le> f x) xs @ x # dropWhile (\<lambda>a. f a \<le> f x) xs) =
    filter (\<lambda>y. f y = r) xs @ (if f x = r then [x] else [])"
proof -
  let ?t = "takeWhile (\<lambda>a. f a \<le> f x) xs" and ?d = "dropWhile (\<lambda>a. f a \<le> f x) xs"
  have xs: "filter (\<lambda>y. f y = r) xs = filter (\<lambda>y. f y = r) ?t @ filter (\<lambda>y. f y = r) ?d"
    by (metis filter_append takeWhile_dropWhile_id)
  have "filter (\<lambda>y. f y = r) ?d = []" if "f x = r"
    using sorted_dropWhile_greater [OF assms, where p = "f x"] that
    by (fastforce simp: filter_empty_conv)
  with xs show ?thesis by simp
qed

interpretation sq: priority_queue queue_new queue_push queue_pop sq_inner priority
proof unfold_locales
  show "sq_inner queue_new = []" by (simp add: queue_new_def)
next
  fix q :: sync_queue and x :: sync_action
  have "mset (sq_inner q) = mset (takeWhile (\<lambda>a. priority a \<le> priority x) (sq_inner q)) +
      mset (dropWhile (\<lambda>a. priority a \<le> priority x) (sq_inner q))"
    by (metis mset_append takeWhile_dropWhile_id)
  then show "mset (sq_inner (queue_push q x)) = add_mset x (mset (sq_inner q))"
    by (simp add: queue_push_inner)
next
  fix q :: sync_queue and x :: sync_action
  assume "sorted (map priority (sq_inner q))"
  then show "sorted (map priority (sq_inner (queue_push q x)))"
    unfolding queue_push_inner by (rule sorted_insert_behind)
next
  fix q :: sync_queue and x :: sync_action and r :: nat
  assume "sorted (map priority (sq_inner q))"
  then show "filter (\<lambda>y. priority y = r) (sq_inner (queue_push q x)) =
      filter (\<lambda>y. priority y = r) (sq_inner q) @ (if priority x = r then [x] else [])"
    unfolding queue_push_inner by (rule filter_insert_behind)
qed (auto simp: queue_pop_def split: list.splits)

section \<open>Sorting a list of actions into a queue\<close>

lemma from_actions_mset: "mset (sq_inner (from_actions xs)) = mset xs"
  by (simp add: from_actions_def)

lemma from_actions_sorted_key: "sorted (map action_key (sq_inner (from_actions xs)))"
  by (simp add: from_actions_def)

lemma sorted_key_priority:
  "sorted (map action_key xs) \<Longrightarrow> sorted (map priority xs)"
  by (induction xs) (auto simp: action_key_def)

lemma from_actions_ranked: "sorted (map priority (sq_inner (from_actions xs)))"
  by (rule sorted_key_priority [OF from_actions_sorted_key])

lemma action_key_inj_on: "inj_on sa_relative_path A \<Longrightarrow> inj_on action_key A"
  by (auto simp: inj_on_def action_key_def)

text \<open>
  The queue built from a list of actions holds exactly these actions, ordered by priority
  (downloads, conflicts, uploads, deletions) and by path within a priority, and so does every
  queue \<open>pop\<close> leaves behind; \<open>pop\<close> therefore always returns an action of the most urgent
  priority still queued.
\<close>

theorem from_actions_pop_order:
  assumes "queue_pop (from_actions xs) = Some (a, q)"
  shows "mset xs = add_mset a (mset (sq_inner q)) \<and>
    sorted (map action_key (a # sq_inner q)) \<and>
    (\<forall>b \<in> set xs. priority a \<le> priority b)"
proof -
  have q: "sq_inner (from_actions xs) = a # sq_inner q"
    by (rule sq.pop_Some [OF assms])
  then have "mset xs = add_mset a (mset (sq_inner q))"
    using from_actions_mset [of xs] by simp
  moreover have "sorted (map action_key (a # sq_inner q))"
    using from_actions_sorted_key [of xs] q by simp
  moreover have "priority a \<le> priority b" if "b \<in> set xs" for b
    using sq.pop_least [OF from_actions_ranked assms, of b] that by (simp add: from_actions_def)
  ultimately show ?thesis by blast
qed

definition demo_folder_file :: file_state where
  "demo_folder_file = new_pending ''id'' ''f'' ''a.txt''"

definition demo_actions :: "sync_action list" where
  "demo_actions =
     [delete_local ''d'' demo_folder_file, new_upload ''b'' None [] 0, new_upload ''a'' None [] 0]"

lemma from_actions_pop_order_witness:
  "mset demo_actions = add_mset (new_upload ''a'' None [] 0)
     (mset [new_upload ''b'' None [] 0, delete_local ''d'' demo_folder_file])"
  using from_actions_pop_order [of demo_actions "new_upload ''a'' None [] 0"
      "\<lparr>sq_inner = [new_upload ''b'' None [] 0, delete_local ''d'' demo_folder_file]\<rparr>"]
  by (simp add: from_actions_def queue_pop_def demo_actions_def action_key_def priority_def)

text \<open>
  When no two actions share a path, the queue does not depend on the order of the list it is
  built from; so the iteration order of the \<open>HashMap\<close> that \<open>merge_actions\<close> drains is not
  observable in what the executor runs.
\<close>

theorem from_actions_order_irrelevant:
  assumes "mset xs = mset ys" and "distinct (map sa_relative_path xs)"
  shows "from_actions xs = from_actions ys"
proof -
  have "inj_on action_key (set xs)"
    using assms(2) by (intro action_key_inj_on) (simp add: distinct_map)
  with assms(1) show ?thesis
    by (simp add: from_actions_def sort_key_mset_unique)
qed

lemma from_actions_order_irrelevant_witness:
  "from_actions demo_actions = from_actions (rev demo_actions)"
  by (rule from_actions_order_irrelevant) (simp_all add: demo_actions_def)

text \<open>
  Pushing actions one at a time into a new queue gives the stable sort of the sequence by
  priority: actions of one priority leave the queue in the order they were pushed.
\<close>

theorem queue_push_is_stable_sort:
  "sq_inner (foldl queue_push queue_new xs) = sort_key priority xs"
  by (rule sq.pushes_sort)

end
