(* ===== verification/Gds_Workspace.thy ===== *)
theory Gds_Workspace
  imports Gds_Model
begin

text \<open>
  Google Workspace files: export types (\<open>crates/gds-core/src/api/workspace.rs\<close>) and stub files
  (\<open>crates/gds-core/src/sync/workspace_stub.rs\<close>), the one-line shortcuts written in place of the
  content of a Doc, Sheet or Slides file.
\<close>

definition MIME_GOOGLE_DOCUMENT :: string where
  "MIME_GOOGLE_DOCUMENT = ''application/vnd.google-apps.document''"

definition MIME_GOOGLE_SPREADSHEET :: string where
  "MIME_GOOGLE_SPREADSHEET = ''application/vnd.google-apps.spreadsheet''"

definition MIME_GOOGLE_PRESENTATION :: string where
  "MIME_GOOGLE_PRESENTATION = ''application/vnd.google-apps.presentation''"

definition MIME_GOOGLE_DRAWING :: string where
  "MIME_GOOGLE_DRAWING = ''application/vnd.google-apps.drawing''"

definition MIME_GOOGLE_SCRIPT :: string where
  "MIME_GOOGLE_SCRIPT = ''application/vnd.google-apps.script''"

lemmas mime_defs =
  MIME_GOOGLE_DOCUMENT_def MIME_GOOGLE_SPREADSHEET_def MIME_GOOGLE_PRESENTATION_def
  MIME_GOOGLE_DRAWING_def MIME_GOOGLE_SCRIPT_def

definition EXPORT_DOCX :: string where
  "EXPORT_DOCX = ''application/vnd.openxmlformats-officedocument.wordprocessingml.document''"

definition EXPORT_XLSX :: string where
  "EXPORT_XLSX = ''application/vnd.openxmlformats-officedocument.spreadsheetml.sheet''"

definition EXPORT_PPTX :: string where
  "EXPORT_PPTX = ''application/vnd.openxmlformats-officedocument.presentationml.presentation''"

definition EXPORT_SVG :: string where
  "EXPORT_SVG = ''image/svg+xml''"

definition EXPORT_SCRIPT_JSON :: string where
  "EXPORT_SCRIPT_JSON = ''application/vnd.google-apps.script+json''"

definition export_mime_type :: "string \<Rightarrow> string option" where
  "export_mime_type drive_mime =
     (if drive_mime = MIME_GOOGLE_DOCUMENT then Some EXPORT_DOCX
      else if drive_mime = MIME_GOOGLE_SPREADSHEET then Some EXPORT_XLSX
      else if drive_mime = MIME_GOOGLE_PRESENTATION then Some EXPORT_PPTX
      else if drive_mime = MIME_GOOGLE_DRAWING then Some EXPORT_SVG
      else if drive_mime = MIME_GOOGLE_SCRIPT then Some EXPORT_SCRIPT_JSON
      else None)"

definition is_google_workspace_file :: "string \<Rightarrow> bool" where
  "is_google_workspace_file drive_mime \<longleftrightarrow> export_mime_type drive_mime \<noteq> None"

definition DOCS_URL_PREFIX :: string where
  "DOCS_URL_PREFIX = ''https://docs.google.com/document/d/''"

definition SHEETS_URL_PREFIX :: string where
  "SHEETS_URL_PREFIX = ''https://docs.google.com/spreadsheets/d/''"

definition SLIDES_URL_PREFIX :: string where
  "SLIDES_URL_PREFIX = ''https://docs.google.com/presentation/d/''"

definition URL_SUFFIX :: string where
  "URL_SUFFIX = ''/edit''"

definition newline :: string where
  "newline = [CHR 0x0A]"

definition workspace_file_url :: "string \<Rightarrow> string \<Rightarrow> string option" where
  "workspace_file_url drive_file_id mime_type =
     map_option (\<lambda>prefix. prefix @ drive_file_id @ URL_SUFFIX)
       (if mime_type = MIME_GOOGLE_DOCUMENT then Some DOCS_URL_PREFIX
        else if mime_type = MIME_GOOGLE_SPREADSHEET then Some SHEETS_URL_PREFIX
        else if mime_type = MIME_GOOGLE_PRESENTATION then Some SLIDES_URL_PREFIX
        else None)"

definition gdoc_stub_content :: "string \<Rightarrow> string" where
  "gdoc_stub_content drive_file_id = DOCS_URL_PREFIX @ drive_file_id @ URL_SUFFIX @ newline"

definition gsheet_stub_content :: "string \<Rightarrow> string" where
  "gsheet_stub_content drive_file_id = SHEETS_URL_PREFIX @ drive_file_id @ URL_SUFFIX @ newline"

definition gslides_stub_content :: "string \<Rightarrow> string" where
  "gslides_stub_content drive_file_id = SLIDES_URL_PREFIX @ drive_file_id @ URL_SUFFIX @ newline"

definition stub_content_for_mime :: "string \<Rightarrow> string \<Rightarrow> string option" where
  "stub_content_for_mime drive_file_id mime_type =
     map_option (\<lambda>url. url @ newline) (workspace_file_url drive_file_id mime_type)"

text \<open>A Workspace type has a stub unless it is a drawing or a script.\<close>

lemma stub_iff:
  "stub_content_for_mime i m \<noteq> None \<longleftrightarrow>
     is_google_workspace_file m \<and> m \<noteq> MIME_GOOGLE_DRAWING \<and> m \<noteq> MIME_GOOGLE_SCRIPT"
  by (simp add: stub_content_for_mime_def workspace_file_url_def is_google_workspace_file_def
      export_mime_type_def mime_defs)

lemma stub_of_workspace:
  "stub_content_for_mime i MIME_GOOGLE_DOCUMENT = Some (gdoc_stub_content i)"
  "stub_content_for_mime i MIME_GOOGLE_SPREADSHEET = Some (gsheet_stub_content i)"
  "stub_content_for_mime i MIME_GOOGLE_PRESENTATION = Some (gslides_stub_content i)"
  by (simp_all add: stub_content_for_mime_def workspace_file_url_def gdoc_stub_content_def
      gsheet_stub_content_def gslides_stub_content_def mime_defs)

lemma drawing_no_stub:
  "is_google_workspace_file MIME_GOOGLE_DRAWING"
  "stub_content_for_mime i MIME_GOOGLE_DRAWING = None"
  by (simp_all add: is_google_workspace_file_def export_mime_type_def stub_content_for_mime_def
      workspace_file_url_def mime_defs)

end
