(* ===== verification/Gds_Paths.thy ===== *)
theory Gds_Paths
  imports Gds_Model "HOL-Library.Word"
begin

text \<open>
  Paths: the part of \<open>std::path\<close> the sources use, then \<open>safe_local_path\<close> and
  \<open>conflict_copy_path\<close> of \<open>crates/gds-core/src/sync/path.rs\<close>. A path is what
  \<open>Path::components\<close> yields: whether it starts at the root, and its components (\<open>"."\<close> only in
  front of a relative path). Rust compares paths by components, so equality here is equality
  there. The queries to the disk (\<open>exists\<close>, \<open>canonicalize\<close>) are parameters: one picture of the
  disk for the run of the function. Names are valid UTF-8.
\<close>

section \<open>std::path\<close>

record path =
  p_abs :: bool
  p_segs :: "string list"

definition path_segs_of :: "string \<Rightarrow> string list" where
  "path_segs_of s = filter (\<lambda>w. w \<noteq> [] \<and> w \<noteq> ''.'') (split_on CHR ''/'' s)"

definition path_of :: "string \<Rightarrow> path" where
  "path_of s =
     (if starts_with s ''/'' then \<lparr>p_abs = True, p_segs = path_segs_of s\<rparr>
      else if hd (split_on CHR ''/'' s) = ''.'' then
        \<lparr>p_abs = False, p_segs = ''.'' # path_segs_of s\<rparr>
      else \<lparr>p_abs = False, p_segs = path_segs_of s\<rparr>)"

definition path_show :: "path \<Rightarrow> string" where
  "path_show p = (if p_abs p then ''/'' else []) @ join_with ''/'' (p_segs p)"

definition path_dot :: path where
  "path_dot = \<lparr>p_abs = False, p_segs = [''.'']\<rparr>"

definition path_join :: "path \<Rightarrow> string \<Rightarrow> path" where
  "path_join p s =
     (if starts_with s ''/'' \<or> (\<not> p_abs p \<and> p_segs p = []) then path_of s
      else \<lparr>p_abs = p_abs p, p_segs = p_segs p @ path_segs_of s\<rparr>)"

definition path_parent :: "path \<Rightarrow> path option" where
  "path_parent p =
     (if p_segs p = [] then None else Some \<lparr>p_abs = p_abs p, p_segs = butlast (p_segs p)\<rparr>)"

definition path_starts_with :: "path \<Rightarrow> path \<Rightarrow> bool" where
  "path_starts_with p base \<longleftrightarrow>
     p_abs p = p_abs base \<and> take (length (p_segs base)) (p_segs p) = p_segs base"

definition file_name :: "path \<Rightarrow> string option" where
  "file_name p =
     (if p_segs p = [] then None
      else let n = last (p_segs p) in if n = ''..'' \<or> n = ''.'' then None else Some n)"

text \<open>\<open>rsplit_file_at_dot\<close>: the text before and after the last dot; a leading dot is part of the name.\<close>

definition rsplit_once :: "char \<Rightarrow> string \<Rightarrow> (string \<times> string) option" where
  "rsplit_once c s = map_option (\<lambda>(a, b). (rev b, rev a)) (split_once c (rev s))"

definition name_stem :: "string \<Rightarrow> string" where
  "name_stem n = (case rsplit_once CHR ''.'' n of
     None \<Rightarrow> n | Some (stem, ext) \<Rightarrow> if stem = [] then n else stem)"

definition name_extension :: "string \<Rightarrow> string option" where
  "name_extension n = (case rsplit_once CHR ''.'' n of
     None \<Rightarrow> None | Some (stem, ext) \<Rightarrow> if stem = [] then None else Some ext)"

definition file_stem :: "path \<Rightarrow> string option" where
  "file_stem p = map_option name_stem (file_name p)"

definition extension :: "path \<Rightarrow> string option" where
  "extension p = Option.bind (file_name p) name_extension"

definition with_extension :: "path \<Rightarrow> string \<Rightarrow> path" where
  "with_extension p e = (case file_stem p of
     None \<Rightarrow> p
   | Some stem \<Rightarrow>
       p\<lparr>p_segs := butlast (p_segs p) @ [if e = [] then stem else stem @ ''.'' @ e]\<rparr>)"

text \<open>A relative path below \<open>base\<close>: \<open>strip_prefix\<close>.\<close>

definition strip_prefix :: "path \<Rightarrow> path \<Rightarrow> path option" where
  "strip_prefix p base =
     (if path_starts_with p base
      then Some \<lparr>p_abs = False, p_segs = drop (length (p_segs base)) (p_segs p)\<rparr> else None)"

text \<open>The components of a parsed path are real names: not empty, without a slash.\<close>

definition seg_ok :: "string \<Rightarrow> bool" where
  "seg_ok w \<longleftrightarrow> w \<noteq> [] \<and> w \<noteq> ''.'' \<and> CHR ''/'' \<notin> set w"

lemma path_segs_of_ok: "\<forall>w \<in> set (path_segs_of s). seg_ok w"
  by (auto simp: path_segs_of_def seg_ok_def dest: split_on_no_sep)

lemma path_segs_of_join:
  assumes "\<forall>w \<in> set ws. seg_ok w"
  shows "path_segs_of (join_with ''/'' ws) = ws"
proof (cases "ws = []")
  case True
  then show ?thesis by (simp add: path_segs_of_def)
next
  case False
  with assms have "split_on CHR ''/'' (join_with ''/'' ws) = ws"
    by (intro split_on_join) (auto simp: seg_ok_def)
  with assms show ?thesis by (auto simp: path_segs_of_def seg_ok_def filter_id_conv)
qed

lemma starts_with_single: "starts_with s [c] \<longleftrightarrow> (\<exists>t. s = c # t)"
  by (cases s) (auto simp: starts_with_def)

lemma join_with_not_slash:
  assumes "\<forall>w \<in> set ws. seg_ok w"
  shows "\<not> starts_with (join_with ''/'' ws) ''/''"
proof (cases ws)
  case Nil
  then show ?thesis by (simp add: starts_with_def)
next
  case (Cons w vs)
  with assms obtain c w' where "w = c # w'" and "c \<noteq> CHR ''/''"
    by (cases w) (auto simp: seg_ok_def)
  with Cons show ?thesis by (cases vs) (auto simp: starts_with_single)
qed

lemma path_parent_shorter:
  "path_parent p = Some q \<Longrightarrow> length (p_segs q) < length (p_segs p)"
  by (auto simp: path_parent_def split: if_splits)

section \<open>safe\_local\_path\<close>

text \<open>The segment loop: \<open>..\<close> pops, \<open>.\<close> and empty segments are skipped.\<close>

fun push_segments :: "string list \<Rightarrow> string list \<Rightarrow> string list" where
  "push_segments segments [] = segments"
| "push_segments segments (seg # rest) =
     push_segments
       (if seg = ''..'' then butlast segments
        else if seg \<noteq> ''.'' then segments @ [seg] else segments) rest"

definition sanitized_segments :: "string \<Rightarrow> string list" where
  "sanitized_segments relative =
     push_segments [] (filter (\<lambda>c. c \<noteq> []) (split_on CHR ''/'' relative))"

text \<open>The walk over the ancestors of a candidate that does not exist.\<close>

function check_ancestors ::
    "(path \<Rightarrow> bool) \<Rightarrow> (path \<Rightarrow> io_error + path) \<Rightarrow> path \<Rightarrow> path \<Rightarrow> string \<Rightarrow> path option \<Rightarrow>
     sync_error + unit" where
  "check_ancestors ex canon sync_root root_canon relative None = Inr ()"
| "check_ancestors ex canon sync_root root_canon relative (Some p) =
     (if p = sync_root \<or> p = path_dot then Inr ()
      else if ex p then
        (case canon p of
           Inl e \<Rightarrow> Inl (IoError (path_show p) e)
         | Inr p_canon \<Rightarrow>
             if \<not> path_starts_with p_canon root_canon then Inl (PathTraversal relative)
             else Inr ())
      else check_ancestors ex canon sync_root root_canon relative (path_parent p))"
  by pat_completeness auto

termination
  by (relation "measure (\<lambda>(ex, canon, sync_root, root_canon, relative, a).
        case a of None \<Rightarrow> 0 | Some p \<Rightarrow> Suc (length (p_segs p)))")
    (auto simp: path_parent_def)

definition safe_local_path ::
    "(path \<Rightarrow> bool) \<Rightarrow> (path \<Rightarrow> io_error + path) \<Rightarrow> path \<Rightarrow> string \<Rightarrow> sync_error + path" where
  "safe_local_path ex canon sync_root relative =
     (if CHR 0x00 \<in> set relative then Inl (PathTraversal relative)
      else
        let sanitized = join_with ''/'' (sanitized_segments relative);
            candidate = path_join sync_root sanitized
        in case canon sync_root of
             Inl e \<Rightarrow> Inl (IoError (path_show sync_root) e)
           | Inr root_canon \<Rightarrow>
               if ex candidate then
                 (case canon candidate of
                    Inl e \<Rightarrow> Inl (IoError (path_show candidate) e)
                  | Inr canonical \<Rightarrow>
                      if \<not> path_starts_with canonical root_canon then Inl (PathTraversal relative)
                      else Inr candidate)
               else
                 (case check_ancestors ex canon sync_root root_canon relative
                         (path_parent candidate) of
                    Inl e \<Rightarrow> Inl e
                  | Inr _ \<Rightarrow> Inr candidate))"

definition no_dotdot :: "string list \<Rightarrow> bool" where
  "no_dotdot ws \<longleftrightarrow> (\<forall>w \<in> set ws. seg_ok w \<and> w \<noteq> ''..'')"

lemma no_dotdot_butlast: "no_dotdot segs \<Longrightarrow> no_dotdot (butlast segs)"
  unfolding no_dotdot_def by (blast dest: in_set_butlastD)

lemma no_dotdot_snoc: "no_dotdot (segs @ [w]) \<longleftrightarrow> no_dotdot segs \<and> seg_ok w \<and> w \<noteq> ''..''"
  unfolding no_dotdot_def by auto

lemma push_segments_ok:
  assumes "no_dotdot segs" and "\<And>w. w \<in> set ws \<Longrightarrow> w \<noteq> [] \<and> CHR ''/'' \<notin> set w"
  shows "no_dotdot (push_segments segs ws)"
  using assms
proof (induction ws arbitrary: segs)
  case (Cons w ws)
  have w: "w \<noteq> []" "CHR ''/'' \<notin> set w" using Cons.prems(2) [of w] by simp_all
  have "no_dotdot (if w = ''..'' then butlast segs else if w \<noteq> ''.'' then segs @ [w] else segs)"
    using Cons.prems(1) w
    by (simp only: no_dotdot_butlast no_dotdot_snoc seg_ok_def simp_thms split: if_split) blast
  then show ?case
    using Cons.IH Cons.prems(2) by (simp only: push_segments.simps) simp
qed simp

lemma sanitized_no_dotdot: "no_dotdot (sanitized_segments relative)"
  unfolding sanitized_segments_def
  by (rule push_segments_ok) (auto simp: no_dotdot_def dest: split_on_no_sep)

text \<open>The path \<open>k\<close> segments below the root.\<close>

definition below :: "path \<Rightarrow> string list \<Rightarrow> nat \<Rightarrow> path" where
  "below root ws k = \<lparr>p_abs = p_abs root, p_segs = p_segs root @ take k ws\<rparr>"

lemma join_sanitized:
  assumes "p_abs root"
  shows "path_join root (join_with ''/'' (sanitized_segments relative)) =
    below root (sanitized_segments relative) (length (sanitized_segments relative))"
proof -
  have ok: "\<forall>w \<in> set (sanitized_segments relative). seg_ok w"
    using sanitized_no_dotdot [of relative] by (simp add: no_dotdot_def)
  show ?thesis
    using assms join_with_not_slash [OF ok] path_segs_of_join [OF ok]
    by (simp add: path_join_def below_def)
qed

lemma below_parent:
  "k < length ws \<Longrightarrow> path_parent (below root ws (Suc k)) = Some (below root ws k)"
  by (simp add: path_parent_def below_def take_Suc_conv_app_nth butlast_append)

lemma below_neq_root: "p_abs root \<Longrightarrow> k < length ws \<Longrightarrow>
   below root ws (Suc k) \<noteq> root \<and> below root ws (Suc k) \<noteq> path_dot"
  by (cases root; cases ws) (auto simp: below_def path_dot_def)

lemma below_0: "below root ws 0 = root"
  by (simp add: below_def)

text \<open>A path text that only names segments is kept as it is.\<close>

lemma push_segments_plain:
  "\<forall>w \<in> set ws. w \<noteq> ''.'' \<and> w \<noteq> ''..'' \<Longrightarrow> push_segments segs ws = segs @ ws"
  by (induction ws arbitrary: segs) auto

lemma sanitized_plain:
  assumes "no_dotdot ws"
  shows "sanitized_segments (join_with ''/'' ws) = ws"
proof (cases "ws = []")
  case True
  then show ?thesis by (simp add: sanitized_segments_def)
next
  case False
  with assms have "split_on CHR ''/'' (join_with ''/'' ws) = ws"
    by (intro split_on_join) (auto simp: no_dotdot_def seg_ok_def)
  moreover have "filter (\<lambda>c. c \<noteq> []) ws = ws"
    using assms by (auto simp: no_dotdot_def seg_ok_def filter_id_conv)
  moreover have "push_segments [] ws = ws"
    using assms push_segments_plain [of ws "[]"] by (auto simp: no_dotdot_def seg_ok_def)
  ultimately show ?thesis by (simp add: sanitized_segments_def)
qed

text \<open>
  \<open>deepest ex root ws k\<close>: the path \<open>k\<close> segments down is the last one on the way to the candidate
  that exists on the disk.
\<close>

definition deepest :: "(path \<Rightarrow> bool) \<Rightarrow> path \<Rightarrow> string list \<Rightarrow> nat \<Rightarrow> bool" where
  "deepest ex root ws k \<longleftrightarrow>
     k \<le> length ws \<and> ex (below root ws k) \<and> (\<forall>j \<in> {k<..length ws}. \<not> ex (below root ws j))"

lemma check_ancestors_sound:
  assumes "p_abs root" and "n \<le> length ws"
    and "check_ancestors ex canon root rc relative (Some (below root ws n)) = Inr ()"
    and "0 < k" and "k \<le> n" and "ex (below root ws k)"
    and "\<forall>j \<in> {k<..n}. \<not> ex (below root ws j)"
  shows "\<exists>c. canon (below root ws k) = Inr c \<and> path_starts_with c rc"
  using assms
proof (induction n)
  case 0
  then show ?case by simp
next
  case (Suc n)
  have ne: "below root ws (Suc n) \<noteq> root" "below root ws (Suc n) \<noteq> path_dot"
    using below_neq_root [of root n ws] Suc.prems by auto
  have par: "path_parent (below root ws (Suc n)) = Some (below root ws n)"
    using Suc.prems by (simp add: below_parent)
  show ?case
  proof (cases "ex (below root ws (Suc n))")
    case True
    with Suc.prems have "k = Suc n" by (metis greaterThanAtMost_iff le_neq_implies_less order_refl)
    with True ne Suc.prems(3) show ?thesis
      by (auto split: sum.splits if_splits)
  next
    case False
    with Suc.prems have "k \<noteq> Suc n" by auto
    with False ne par Suc show ?thesis by auto
  qed
qed

text \<open>What acceptance means, and that nothing else can come back as the path.\<close>

lemma safe_local_path_Inr:
  assumes "p_abs root" and "safe_local_path ex canon root relative = Inr p"
  defines "ws \<equiv> sanitized_segments relative"
  shows "p = below root ws (length ws) \<and> no_dotdot ws \<and> CHR 0x00 \<notin> set relative \<and>
    (\<exists>rc. canon root = Inr rc \<and>
      (\<forall>k. 0 < k \<longrightarrow> deepest ex root ws k \<longrightarrow>
         (\<exists>c. canon (below root ws k) = Inr c \<and> path_starts_with c rc)))"
proof -
  have cand: "path_join root (join_with ''/'' ws) = below root ws (length ws)"
    using assms(1) join_sanitized unfolding ws_def by blast
  from assms(2) obtain rc where rc: "canon root = Inr rc" and nul: "CHR 0x00 \<notin> set relative"
    and p: "p = below root ws (length ws)"
    and acc: "if ex p then \<exists>c. canon p = Inr c \<and> path_starts_with c rc
      else check_ancestors ex canon root rc relative (path_parent p) = Inr ()"
    by (auto simp: safe_local_path_def Let_def cand ws_def [symmetric] split: if_splits sum.splits)
  have "\<exists>c. canon (below root ws k) = Inr c \<and> path_starts_with c rc"
    if "0 < k" and d: "deepest ex root ws k" for k
  proof (cases "ex p")
    case True
    with d p have "k = length ws" by (force simp: deepest_def)
    with True p acc show ?thesis by simp
  next
    case False
    with d p have "k < length ws" by (auto simp: deepest_def le_less)
    then obtain m where m: "length ws = Suc m" "k \<le> m" by (cases "length ws") auto
    then have "check_ancestors ex canon root rc relative (Some (below root ws m)) = Inr ()"
      using acc False p below_parent [of m ws root] by simp
    then show ?thesis
      using check_ancestors_sound [OF assms(1), of m ws ex canon rc relative k] m d \<open>0 < k\<close>
      by (auto simp: deepest_def)
  qed
  with p rc nul show ?thesis
    using sanitized_no_dotdot [of relative] by (auto simp: ws_def)
qed

lemma check_ancestors_reject:
  assumes "p_abs root" and "n \<le> length ws" and "0 < k" and "k \<le> n"
    and "ex (below root ws k)" and "\<forall>j \<in> {k<..n}. \<not> ex (below root ws j)"
    and "canon (below root ws k) = Inr c" and "\<not> path_starts_with c rc"
  shows "check_ancestors ex canon root rc relative (Some (below root ws n)) = Inl (PathTraversal relative)"
  using assms
proof (induction n)
  case (Suc n)
  have ne: "below root ws (Suc n) \<noteq> root" "below root ws (Suc n) \<noteq> path_dot"
    using below_neq_root [of root n ws] Suc.prems by auto
  have par: "path_parent (below root ws (Suc n)) = Some (below root ws n)"
    using Suc.prems by (simp add: below_parent)
  show ?case
  proof (cases "ex (below root ws (Suc n))")
    case True
    with Suc.prems have "k = Suc n" by (metis greaterThanAtMost_iff le_neq_implies_less order_refl)
    with True ne Suc.prems show ?thesis by auto
  next
    case False
    with Suc.prems have "k \<noteq> Suc n" by auto
    with False ne par Suc show ?thesis by auto
  qed
qed simp

lemma safe_local_path_reject:
  assumes "p_abs root" and "CHR 0x00 \<notin> set relative" and "canon root = Inr rc"
    and "0 < k" and "deepest ex root (sanitized_segments relative) k"
    and "canon (below root (sanitized_segments relative) k) = Inr c" and "\<not> path_starts_with c rc"
  shows "safe_local_path ex canon root relative = Inl (PathTraversal relative)"
proof -
  let ?ws = "sanitized_segments relative"
  have cand: "path_join root (join_with ''/'' ?ws) = below root ?ws (length ?ws)"
    using assms(1) by (rule join_sanitized)
  show ?thesis
  proof (cases "ex (below root ?ws (length ?ws))")
    case True
    with assms(5) have "k = length ?ws" by (force simp: deepest_def)
    with assms True cand show ?thesis by (simp add: safe_local_path_def)
  next
    case False
    with assms(5) have "k < length ?ws" by (auto simp: deepest_def le_less)
    then obtain m where m: "length ?ws = Suc m" "k \<le> m" by (cases "length ?ws") auto
    have "check_ancestors ex canon root rc relative (Some (below root ?ws m)) = Inl (PathTraversal relative)"
      using check_ancestors_reject [OF assms(1), of m ?ws k ex canon c rc relative] m assms
      by (auto simp: deepest_def)
    moreover have "path_parent (below root ?ws (length ?ws)) = Some (below root ?ws m)"
      using m below_parent [of m ?ws root] by simp
    ultimately show ?thesis
      using assms False cand by (simp add: safe_local_path_def Let_def)
  qed
qed

text \<open>
  C17: a path \<open>safe_local_path\<close> accepts is the sync root followed by the segments that the loop leaves,
  which are names only (no \<open>..\<close>, no \<open>.\<close>, no empty name, no null byte), whatever exists on the disk. When some prefix below the root exists, the last one that does resolves,
  symbolic links followed, to a place inside the resolved sync root. (The root is absolute.)
\<close>

theorem safe_local_path_contained:
  assumes "p_abs root" and "safe_local_path ex canon root relative = Inr p"
  defines "ws \<equiv> sanitized_segments relative"
  shows "p = \<lparr>p_abs = True, p_segs = p_segs root @ ws\<rparr> \<and> path_starts_with p root \<and>
    no_dotdot ws \<and> CHR 0x00 \<notin> set relative \<and>
    (\<exists>rc. canon root = Inr rc \<and>
      (\<forall>k. 0 < k \<and> deepest ex root ws k \<longrightarrow>
         (\<exists>c. canon (below root ws k) = Inr c \<and> path_starts_with c rc)))"
  using safe_local_path_Inr [OF assms(1,2)] assms(1)
  by (auto simp: below_def path_starts_with_def ws_def)

text \<open>A disk on which \<open>/r/link\<close> leads out of the root and \<open>/r/d\<close> is an ordinary directory.\<close>

definition demo_root :: path where
  "demo_root = \<lparr>p_abs = True, p_segs = [''r'']\<rparr>"

definition demo_exists :: "path \<Rightarrow> bool" where
  "demo_exists p \<longleftrightarrow> p_segs p \<in> {[''r''], [''r'', ''d''], [''r'', ''link'']}"

definition demo_canon :: "path \<Rightarrow> io_error + path" where
  "demo_canon p = Inr (if p_segs p = [''r'', ''link''] then \<lparr>p_abs = True, p_segs = [''etc'']\<rparr> else p)"

text \<open>A path that climbs out on a disk where nothing exists below the root, and one below \<open>/r/d\<close>.\<close>

lemma safe_local_path_contained_witness:
  "safe_local_path (\<lambda>p. p = demo_root) Inr demo_root ''../../../etc/passwd'' =
     Inr \<lparr>p_abs = True, p_segs = [''r'', ''etc'', ''passwd'']\<rparr> \<and>
   no_dotdot (sanitized_segments ''../../../etc/passwd'') \<and>
   (\<exists>c. demo_canon (below demo_root (sanitized_segments ''../d/./x'') 1) = Inr c \<and> path_starts_with c demo_root)"
proof (intro conjI)
  show p: "safe_local_path (\<lambda>p. p = demo_root) Inr demo_root ''../../../etc/passwd'' =
      Inr \<lparr>p_abs = True, p_segs = [''r'', ''etc'', ''passwd'']\<rparr>"
    by code_simp
  show "no_dotdot (sanitized_segments ''../../../etc/passwd'')"
    using safe_local_path_contained [OF _ p] by (simp add: demo_root_def)
  have d: "deepest demo_exists demo_root (sanitized_segments ''../d/./x'') 1"
    by (auto simp: deepest_def below_def demo_exists_def demo_root_def sanitized_segments_def
        numeral_2_eq_2 le_Suc_eq)
  have q: "safe_local_path demo_exists demo_canon demo_root ''../d/./x'' =
      Inr \<lparr>p_abs = True, p_segs = [''r'', ''d'', ''x'']\<rparr>"
    by code_simp
  have rc: "demo_canon demo_root = Inr demo_root" by (simp add: demo_canon_def demo_root_def)
  have "p_abs demo_root" by (simp add: demo_root_def)
  from safe_local_path_contained [OF this q] d rc
  show "\<exists>c. demo_canon (below demo_root (sanitized_segments ''../d/./x'') 1) = Inr c \<and> path_starts_with c demo_root"
    by fastforce
qed

text \<open>
  A path whose last existing prefix below the root resolves outside the resolved root (a
  symbolic link that leads out of the sync folder) is refused with \<open>PathTraversal\<close>.
\<close>

theorem safe_local_path_rejects_escape:
  assumes "p_abs root" and "CHR 0x00 \<notin> set relative" and "canon root = Inr rc"
    and "0 < k" and "deepest ex root (sanitized_segments relative) k"
    and "canon (below root (sanitized_segments relative) k) = Inr c" and "\<not> path_starts_with c rc"
  shows "safe_local_path ex canon root relative = Inl (PathTraversal relative)"
  using assms by (rule safe_local_path_reject)

lemma safe_local_path_rejects_escape_witness:
  "safe_local_path demo_exists demo_canon demo_root ''link/passwd'' = Inl (PathTraversal ''link/passwd'')"
proof (rule safe_local_path_rejects_escape)
  show "deepest demo_exists demo_root (sanitized_segments ''link/passwd'') 1"
    by (auto simp: deepest_def below_def demo_exists_def demo_root_def sanitized_segments_def
        numeral_2_eq_2 le_Suc_eq)
  show "demo_canon demo_root = Inr demo_root"
    by (simp add: demo_canon_def demo_root_def)
  show "demo_canon (below demo_root (sanitized_segments ''link/passwd'') 1) =
      Inr \<lparr>p_abs = True, p_segs = [''etc'']\<rparr>"
    by (simp add: demo_canon_def demo_root_def below_def sanitized_segments_def)
qed (simp_all add: demo_root_def path_starts_with_def)

section \<open>conflict\_copy\_path\<close>

definition CONFLICT_SUFFIX_FORMAT :: string where
  "CONFLICT_SUFFIX_FORMAT = ''.conflict-%Y%m%d-%H%M%S''"

definition conflict_name :: "string \<Rightarrow> string \<Rightarrow> string \<Rightarrow> string \<Rightarrow> string" where
  "conflict_name stem ext suffix mid = stem @ ext @ ''.conflict-'' @ suffix @ mid @ ext"

text \<open>
  The collision loop. The counter is a \<open>u32\<close> that wraps (the release profile has no overflow
  checks), and nothing bounds the loop, so the result is an option: \<open>None\<close> stands for a loop that
  never ends, which happens when every candidate exists.
\<close>

partial_function (option) conflict_loop ::
    "(path \<Rightarrow> bool) \<Rightarrow> path \<Rightarrow> string \<Rightarrow> string \<Rightarrow> string \<Rightarrow> 32 word \<Rightarrow> path option" where
  "conflict_loop ex parent stem ext suffix n =
     (let candidate = path_join parent
            (conflict_name stem ext suffix (''-'' @ nat_to_str (unat n)))
      in if \<not> ex candidate then Some candidate
         else conflict_loop ex parent stem ext suffix (n + 1))"

declare conflict_loop.simps [code]

definition conflict_copy_path ::
    "libs \<Rightarrow> path \<Rightarrow> datetime \<Rightarrow> (path \<Rightarrow> bool) \<Rightarrow> path option" where
  "conflict_copy_path L base_path timestamp ex =
     (let parent = (case path_parent base_path of Some p \<Rightarrow> p | None \<Rightarrow> path_dot);
          stem = (case file_stem base_path of Some s \<Rightarrow> s | None \<Rightarrow> ''file'');
          ext = (case extension base_path of Some e \<Rightarrow> ''.'' @ e | None \<Rightarrow> []);
          suffix = lib_conflict_stamp L timestamp;
          candidate = path_join parent (conflict_name stem ext suffix [])
      in if \<not> ex candidate then Some candidate
         else conflict_loop ex parent stem ext suffix 2)"

lemma split_once_Some:
  "split_once c s = Some (a, b) \<Longrightarrow> s = a @ c # b"
  by (induction s arbitrary: a) (auto split: if_splits)

lemma rsplit_once_Some:
  assumes "rsplit_once c s = Some (a, b)"
  shows "s = a @ c # b"
proof -
  obtain x y where "split_once c (rev s) = Some (x, y)" and "a = rev y" and "b = rev x"
    using assms by (auto simp: rsplit_once_def)
  then have "rev s = rev b @ c # rev a" using split_once_Some by fastforce
  then show ?thesis by (metis append.assoc append_Cons append_Nil rev_append rev_rev_ident rev.simps(2))
qed

lemma name_stem_subset: "set (name_stem n) \<subseteq> set n"
  by (auto simp: name_stem_def split: option.splits dest: rsplit_once_Some)

lemma name_extension_subset: "name_extension n = Some e \<Longrightarrow> set e \<subseteq> set n"
  by (auto simp: name_extension_def split: option.splits if_splits dest: rsplit_once_Some)

lemma name_stem_extension:
  "name_extension n = Some e \<Longrightarrow> n = name_stem n @ ''.'' @ e"
  "name_extension n = None \<Longrightarrow> name_stem n = n"
  by (auto simp: name_extension_def name_stem_def split: option.splits if_splits
      dest: rsplit_once_Some)

text \<open>A name without a slash that is longer than \<open>"."\<close> is one segment.\<close>

lemma path_segs_of_name: "CHR ''/'' \<notin> set n \<Longrightarrow> n \<noteq> [] \<Longrightarrow> n \<noteq> ''.'' \<Longrightarrow> path_segs_of n = [n]"
  by (simp add: path_segs_of_def split_on_no_occ)

lemma path_join_name:
  assumes "CHR ''/'' \<notin> set n" and "n \<noteq> []" and "n \<noteq> ''.''"
  shows "path_join p n = \<lparr>p_abs = p_abs p, p_segs = p_segs p @ [n]\<rparr>"
proof -
  have s: "\<not> starts_with n ''/''" using assms(1) by (auto simp: starts_with_single)
  have "hd (split_on CHR ''/'' n) \<noteq> ''.''" using assms by (simp add: split_on_no_occ)
  with s show ?thesis
    by (simp add: path_join_def path_of_def path_segs_of_name [OF assms])
qed

definition segs_clean :: "path \<Rightarrow> bool" where
  "segs_clean p \<longleftrightarrow> (\<forall>w \<in> set (p_segs p). CHR ''/'' \<notin> set w)"

lemma conflict_name_plain:
  assumes "CHR ''/'' \<notin> set stem" "CHR ''/'' \<notin> set ext" "CHR ''/'' \<notin> set suffix"
    "CHR ''/'' \<notin> set mid"
  shows "CHR ''/'' \<notin> set (conflict_name stem ext suffix mid)
    \<and> conflict_name stem ext suffix mid \<noteq> [] \<and> conflict_name stem ext suffix mid \<noteq> ''.''"
  using assms by (auto simp: conflict_name_def append_eq_Cons_conv)

lemma nat_to_str_no_slash: "CHR ''/'' \<notin> set (nat_to_str n)"
  using nat_to_str_digits [of "CHR ''/''" n] by (auto simp: is_digit_def)

text \<open>The numbered candidates, as paths.\<close>

definition numbered :: "path \<Rightarrow> string \<Rightarrow> string \<Rightarrow> string \<Rightarrow> 32 word \<Rightarrow> path" where
  "numbered parent stem ext suffix n =
     \<lparr>p_abs = p_abs parent,
      p_segs = p_segs parent @ [conflict_name stem ext suffix (''-'' @ nat_to_str (unat n))]\<rparr>"

lemma numbered_join:
  assumes "CHR ''/'' \<notin> set stem" "CHR ''/'' \<notin> set ext" "CHR ''/'' \<notin> set suffix"
  shows "path_join parent (conflict_name stem ext suffix (''-'' @ nat_to_str (unat n))) =
    numbered parent stem ext suffix n"
  using conflict_name_plain [OF assms, of "''-'' @ nat_to_str (unat n)"] nat_to_str_no_slash
  by (simp add: path_join_name numbered_def)

lemma conflict_loop_step:
  assumes "CHR ''/'' \<notin> set stem" "CHR ''/'' \<notin> set ext" "CHR ''/'' \<notin> set suffix"
  shows "conflict_loop ex parent stem ext suffix n =
    (if \<not> ex (numbered parent stem ext suffix n) then Some (numbered parent stem ext suffix n)
     else conflict_loop ex parent stem ext suffix (n + 1))"
  by (subst conflict_loop.simps) (simp only: Let_def numbered_join [OF assms])

lemma conflict_loop_finds:
  assumes "CHR ''/'' \<notin> set stem" "CHR ''/'' \<notin> set ext" "CHR ''/'' \<notin> set suffix"
    and "\<not> ex (numbered parent stem ext suffix (n + of_nat k))"
  shows "\<exists>m. conflict_loop ex parent stem ext suffix n = Some (numbered parent stem ext suffix m) \<and>
    \<not> ex (numbered parent stem ext suffix m)"
  using assms(4)
proof (induction k arbitrary: n)
  case 0
  then show ?case by (subst conflict_loop_step [OF assms(1-3)]) auto
next
  case (Suc k)
  have "\<not> ex (numbered parent stem ext suffix (n + 1 + of_nat k))"
    using Suc.prems by (simp add: add.assoc)
  from Suc.IH [OF this] show ?case by (subst conflict_loop_step [OF assms(1-3)]) auto
qed

text \<open>The names that exist in a directory.\<close>

definition names_in :: "(path \<Rightarrow> bool) \<Rightarrow> path \<Rightarrow> string set" where
  "names_in ex dir = {w. ex \<lparr>p_abs = p_abs dir, p_segs = p_segs dir @ [w]\<rparr>}"

lemma free_number:
  assumes "finite (names_in ex parent)" and "card (names_in ex parent) < 2 ^ 32"
  shows "\<exists>m. \<not> ex (numbered parent stem ext suffix m)"
proof (rule ccontr)
  let ?name = "\<lambda>m :: 32 word. conflict_name stem ext suffix (''-'' @ nat_to_str (unat m))"
  assume "\<nexists>m. \<not> ex (numbered parent stem ext suffix m)"
  then have "range ?name \<subseteq> names_in ex parent" by (auto simp: names_in_def numbered_def)
  then have "card (range ?name) \<le> card (names_in ex parent)"
    by (rule card_mono [OF assms(1)])
  moreover have "inj ?name"
    by (rule injI) (auto simp: conflict_name_def word_unat_eq_iff dest!: nat_to_str_inj)
  then have "card (range ?name) = 2 ^ 32"
    by (simp add: card_image card_word)
  ultimately show False using assms(2) by simp
qed

lemma file_name_clean: "segs_clean p \<Longrightarrow> file_name p = Some n \<Longrightarrow> CHR ''/'' \<notin> set n"
  by (auto simp: file_name_def segs_clean_def Let_def split: if_splits)

lemma stem_clean:
  assumes "segs_clean base"
  shows "CHR ''/'' \<notin> set (case file_stem base of Some s \<Rightarrow> s | None \<Rightarrow> ''file'')"
proof (cases "file_name base")
  case (Some n)
  then show ?thesis
    using file_name_clean [OF assms Some] name_stem_subset [of n] by (auto simp: file_stem_def)
qed (simp add: file_stem_def)

lemma ext_clean:
  assumes "segs_clean base"
  shows "CHR ''/'' \<notin> set (case extension base of Some e \<Rightarrow> ''.'' @ e | None \<Rightarrow> [])"
proof (cases "extension base")
  case (Some e)
  then obtain n where n: "file_name base = Some n" "name_extension n = Some e"
    by (auto simp: extension_def bind_eq_Some_conv)
  then have "CHR ''/'' \<notin> set e"
    using file_name_clean [OF assms n(1)] name_extension_subset [OF n(2)] by auto
  with Some show ?thesis by simp
qed simp

lemma stamp_clean: "stamp_ok L \<Longrightarrow> CHR ''/'' \<notin> set (lib_conflict_stamp L t)"
  by (auto simp: stamp_ok_def is_digit_def dest!: spec [of _ t])

definition conflict_dir :: "path \<Rightarrow> path" where
  "conflict_dir base = (case path_parent base of Some q \<Rightarrow> q | None \<Rightarrow> path_dot)"

definition counter_text :: "string \<Rightarrow> bool" where
  "counter_text mid \<longleftrightarrow> mid = [] \<or> (\<exists>m. mid = ''-'' @ nat_to_str m)"

lemma conflict_copy_path_some:
  assumes "stamp_ok L" and "segs_clean base"
    and "finite (names_in ex (conflict_dir base))" and "card (names_in ex (conflict_dir base)) < 2 ^ 32"
  shows "\<exists>p mid. conflict_copy_path L base t ex = Some p \<and> \<not> ex p \<and> counter_text mid \<and>
    p = (let parent = conflict_dir base;
             stem = (case file_stem base of Some s \<Rightarrow> s | None \<Rightarrow> ''file'');
             ext = (case extension base of Some e \<Rightarrow> ''.'' @ e | None \<Rightarrow> [])
         in \<lparr>p_abs = p_abs parent,
             p_segs = p_segs parent @ [conflict_name stem ext (lib_conflict_stamp L t) mid]\<rparr>)"
proof -
  define parent where "parent = conflict_dir base"
  define stem where "stem = (case file_stem base of Some s \<Rightarrow> s | None \<Rightarrow> ''file'')"
  define ext where "ext = (case extension base of Some e \<Rightarrow> ''.'' @ e | None \<Rightarrow> [])"
  define suffix where "suffix = lib_conflict_stamp L t"
  have clean: "CHR ''/'' \<notin> set stem" "CHR ''/'' \<notin> set ext" "CHR ''/'' \<notin> set suffix"
    unfolding stem_def ext_def suffix_def
    by (rule stem_clean [OF assms(2)], rule ext_clean [OF assms(2)], rule stamp_clean [OF assms(1)])
  have j: "path_join parent (conflict_name stem ext suffix []) =
      \<lparr>p_abs = p_abs parent, p_segs = p_segs parent @ [conflict_name stem ext suffix []]\<rparr>"
    using conflict_name_plain [OF clean, of "[]"] by (simp add: path_join_name)
  obtain m0 where "\<not> ex (numbered parent stem ext suffix m0)"
    using free_number [OF assms(3,4)] unfolding parent_def by blast
  then have "\<not> ex (numbered parent stem ext suffix (2 + of_nat (unat (m0 - 2))))" by simp
  from conflict_loop_finds [where ex = ex and parent = parent, OF clean this] obtain m where
    m: "conflict_loop ex parent stem ext suffix 2 = Some (numbered parent stem ext suffix m)"
      "\<not> ex (numbered parent stem ext suffix m)" by blast
  have c: "conflict_copy_path L base t ex =
      (if \<not> ex (path_join parent (conflict_name stem ext suffix []))
       then Some (path_join parent (conflict_name stem ext suffix []))
       else conflict_loop ex parent stem ext suffix 2)"
    by (simp add: conflict_copy_path_def Let_def parent_def stem_def ext_def suffix_def conflict_dir_def)
  show ?thesis
    unfolding Let_def parent_def [symmetric] stem_def [symmetric] ext_def [symmetric]
      suffix_def [symmetric] c j
    using m by (auto simp: numbered_def counter_text_def)
qed

lemma name_stem_ext_text:
  "name_stem n @ (case name_extension n of Some e \<Rightarrow> ''.'' @ e | None \<Rightarrow> []) = n"
  using name_stem_extension [of n] by (auto split: option.splits)

lemma file_name_long:
  assumes "length n > 2"
  shows "file_name \<lparr>p_abs = b, p_segs = ws @ [n]\<rparr> = Some n"
  using assms by (auto simp: file_name_def Let_def)

text \<open>
  C18: with fewer than \<open>2 ^ 32\<close> files in the directory, the search for a conflict name ends, and the path
  it returns names no existing file, lies in the directory of the file in conflict, and its name
  is the whole file name followed by \<open>.conflict-\<close>, the time stamp, a counter, and the extension
  once more.
\<close>

theorem conflict_copy_path_fresh:
  assumes "stamp_ok L" and "segs_clean base" and "file_name base = Some n"
    and "finite (names_in ex (conflict_dir base))" and "card (names_in ex (conflict_dir base)) < 2 ^ 32"
  shows "\<exists>p mid. conflict_copy_path L base t ex = Some p \<and> \<not> ex p \<and> counter_text mid \<and>
    path_parent p = path_parent base \<and>
    file_name p = Some (n @ ''.conflict-'' @ lib_conflict_stamp L t @ mid @
      (case extension base of Some e \<Rightarrow> ''.'' @ e | None \<Rightarrow> []))"
proof -
  have par: "path_parent base = Some \<lparr>p_abs = p_abs base, p_segs = butlast (p_segs base)\<rparr>"
    using assms(3) by (simp add: path_parent_def file_name_def split: if_splits)
  define x where "x = (case extension base of Some e \<Rightarrow> ''.'' @ e | None \<Rightarrow> [])"
  have nx: "name_stem n @ x = n"
    using name_stem_ext_text [of n] by (simp add: x_def extension_def assms(3))
  have name: "conflict_name (name_stem n) (case extension base of Some e \<Rightarrow> ''.'' @ e | None \<Rightarrow> []) s mid =
      n @ ''.conflict-'' @ s @ mid @ (case extension base of Some e \<Rightarrow> ''.'' @ e | None \<Rightarrow> [])" for s mid
    unfolding conflict_name_def x_def [symmetric] using nx by (metis append.assoc)
  obtain p mid where p: "conflict_copy_path L base t ex = Some p" "\<not> ex p" "counter_text mid"
    and q: "p = \<lparr>p_abs = p_abs base, p_segs = butlast (p_segs base) @
      [conflict_name (name_stem n) (case extension base of Some e \<Rightarrow> ''.'' @ e | None \<Rightarrow> [])
         (lib_conflict_stamp L t) mid]\<rparr>"
    using conflict_copy_path_some [OF assms(1,2,4,5), of t]
    by (auto simp: Let_def par conflict_dir_def file_stem_def assms(3))
  have "file_name p = Some (n @ ''.conflict-'' @ lib_conflict_stamp L t @ mid @
      (case extension base of Some e \<Rightarrow> ''.'' @ e | None \<Rightarrow> []))"
    unfolding q name by (rule file_name_long) simp
  moreover have "path_parent p = path_parent base"
    unfolding par by (simp add: q path_parent_def)
  ultimately show ?thesis using p by blast
qed

definition demo_base :: path where
  "demo_base = \<lparr>p_abs = True, p_segs = [''r'', ''doc.txt'']\<rparr>"

lemma conflict_copy_path_fresh_witness:
  "\<exists>p mid. conflict_copy_path demo_libs demo_base 0 (\<lambda>p. p = demo_base) = Some p \<and>
     file_name p = Some (''doc.txt.conflict-'' @ lib_conflict_stamp demo_libs 0 @ mid @ ''.txt'')"
proof -
  have e: "extension demo_base = Some ''txt''" and n: "file_name demo_base = Some ''doc.txt''"
    by code_simp+
  have "stamp_ok demo_libs" using demo_libs_ok by (simp add: libs_ok_def)
  moreover have "segs_clean demo_base" by code_simp
  moreover have "names_in (\<lambda>p. p = demo_base) (conflict_dir demo_base) = {''doc.txt''}"
    by (auto simp: names_in_def demo_base_def conflict_dir_def path_parent_def)
  ultimately show ?thesis
    using conflict_copy_path_fresh [OF _ _ n, of demo_libs "\<lambda>p. p = demo_base" 0]
    by (simp add: e del: append_Cons) auto
qed

end
