(* ===== verification/Gds_Database.thy ===== *)
theory Gds_Database
  imports Gds_Model "HOL-Library.Signed_Division"
begin

text \<open>
  The database (\<open>crates/gds-core/src/db/\<close>, schema in \<open>crates/gds-core/migrations/\<close>): five tables,
  and the repositories' statements over them. A table is the list of its rows in row order. The
  schema's constraints are part of a statement's meaning: a primary key or \<open>UNIQUE\<close> clash and a
  dangling foreign key (checked when the statement ends; sqlx turns foreign keys on) make it
  fail and leave no trace. What a statement does not do here is fail for outside reasons (disk
  full, locked file).
\<close>

section \<open>Tables\<close>

record account_row =
  ar_id :: string
  ar_email :: string
  ar_display_name :: "string option"
  ar_keyring_key :: string
  ar_created_at :: int

record sync_folder_row =
  sr_id :: string
  sr_account_id :: string
  sr_local_path :: string
  sr_drive_folder_id :: string
  sr_start_page_token :: "string option"
  sr_last_sync_at :: "int option"
  sr_paused :: int

record file_state_row =
  fr_id :: string
  fr_sync_folder_id :: string
  fr_relative_path :: string
  fr_drive_file_id :: "string option"
  fr_drive_md5 :: "string option"
  fr_drive_modified :: "int option"
  fr_local_md5 :: "string option"
  fr_local_modified :: "int option"
  fr_sync_state :: string
  fr_last_synced_at :: "int option"

record sync_error_row =
  er_id :: string
  er_file_state_id :: "string option"
  er_error_message :: string
  er_occurred_at :: int
  er_retry_count :: int

record db =
  db_accounts :: "account_row list"
  db_sync_folders :: "sync_folder_row list"
  db_file_states :: "file_state_row list"
  db_sync_errors :: "sync_error_row list"
  db_oauth :: "(string \<times> string) option"

definition db_empty :: db where
  "db_empty = \<lparr>db_accounts = [], db_sync_folders = [], db_file_states = [], db_sync_errors = [],
     db_oauth = None\<rparr>"

type_synonym 'a db_proc = "(db, db_error, 'a) proc"

text \<open>The foreign keys of the schema.\<close>

definition fk_ok :: "db \<Rightarrow> bool" where
  "fk_ok db \<longleftrightarrow>
     (\<forall>r \<in> set (db_sync_folders db). sr_account_id r \<in> ar_id ` set (db_accounts db)) \<and>
     (\<forall>r \<in> set (db_file_states db). fr_sync_folder_id r \<in> sr_id ` set (db_sync_folders db)) \<and>
     (\<forall>r \<in> set (db_sync_errors db). \<forall>i. er_file_state_id r = Some i \<longrightarrow>
        i \<in> fr_id ` set (db_file_states db))"

definition fk_okb :: "db \<Rightarrow> bool" where
  "fk_okb db =
     (list_all (\<lambda>r. List.member (map ar_id (db_accounts db)) (sr_account_id r)) (db_sync_folders db) \<and>
      list_all (\<lambda>r. List.member (map sr_id (db_sync_folders db)) (fr_sync_folder_id r))
        (db_file_states db) \<and>
      list_all (\<lambda>r. case er_file_state_id r of None \<Rightarrow> True
          | Some i \<Rightarrow> List.member (map fr_id (db_file_states db)) i) (db_sync_errors db))"

lemma fk_okb_iff [simp]: "fk_okb db = fk_ok db"
  by (auto simp: fk_okb_def fk_ok_def list_all_iff split: option.splits)

text \<open>A statement that writes: its effect, kept when the foreign keys hold afterwards.\<close>

definition stmt :: "(db \<Rightarrow> db) \<Rightarrow> unit db_proc" where
  "stmt f db = (if fk_okb (f db) then (Inr (), f db) else (Inl ForeignKeyViolation, db))"

text \<open>\<open>pool.begin()\<close> to \<open>tx.commit()\<close>: a failure inside rolls back.\<close>

definition transaction :: "'a db_proc \<Rightarrow> 'a db_proc" where
  "transaction m db = (case m db of (Inl e, db') \<Rightarrow> (Inl e, db) | (Inr x, db') \<Rightarrow> (Inr x, db'))"

fun for_each :: "('a \<Rightarrow> ('s, 'e, unit) proc) \<Rightarrow> 'a list \<Rightarrow> ('s, 'e, unit) proc" where
  "for_each f [] = retp ()"
| "for_each f (x # xs) = seqp (f x) (\<lambda>_. for_each f xs)"

text \<open>The well-formed databases: the keys of the schema.\<close>

definition fs_key :: "file_state_row \<Rightarrow> string \<times> string" where
  "fs_key r = (fr_sync_folder_id r, fr_relative_path r)"

definition db_wf :: "db \<Rightarrow> bool" where
  "db_wf db \<longleftrightarrow>
     distinct (map ar_id (db_accounts db)) \<and>
     distinct (map sr_id (db_sync_folders db)) \<and>
     distinct (map fr_id (db_file_states db)) \<and>
     distinct (map fs_key (db_file_states db)) \<and>
     distinct (map er_id (db_sync_errors db)) \<and>
     fk_ok db"

lemma pres_stmt: "(\<And>db. db_wf db \<Longrightarrow> fk_ok (f db) \<Longrightarrow> db_wf (f db)) \<Longrightarrow> pres db_wf (stmt f)"
  by (simp add: pres_def stmt_def)

lemma pres_transaction [proc_pres]: "pres I m \<Longrightarrow> pres I (transaction m)"
  by (fastforce simp: pres_def transaction_def split: prod.splits sum.splits)

lemma pres_for_each [proc_pres]: "(\<And>x. pres I (f x)) \<Longrightarrow> pres I (for_each f xs)"
  by (induction xs) (simp_all add: pres_retp pres_seqp)

section \<open>Accounts\<close>

definition from_secs :: "libs \<Rightarrow> int \<Rightarrow> datetime option" where
  "from_secs L s = lib_from_timestamp L s 0"

definition account_insert :: "libs \<Rightarrow> account \<Rightarrow> unit db_proc" where
  "account_insert L a db =
     (if List.member (map ar_id (db_accounts db)) (acc_id a)
      then (Inl (UniqueViolation ''accounts.id''), db)
      else stmt (\<lambda>db. db\<lparr>db_accounts := db_accounts db @
        [\<lparr>ar_id = acc_id a, ar_email = acc_email a, ar_display_name = acc_display_name a,
          ar_keyring_key = acc_keyring_key a, ar_created_at = lib_timestamp L (acc_created_at a)\<rparr>]\<rparr>) db)"

text \<open>\<open>now\<close> is what \<open>Utc::now\<close> returns when a stored time is out of range.\<close>

definition account_of_row :: "libs \<Rightarrow> datetime \<Rightarrow> account_row \<Rightarrow> account" where
  "account_of_row L now r =
     \<lparr>acc_id = ar_id r, acc_email = ar_email r, acc_display_name = ar_display_name r,
      acc_keyring_key = ar_keyring_key r,
      acc_created_at = (case from_secs L (ar_created_at r) of Some t \<Rightarrow> t | None \<Rightarrow> now)\<rparr>"

definition account_get_by_id :: "libs \<Rightarrow> datetime \<Rightarrow> string \<Rightarrow> account option db_proc" where
  "account_get_by_id L now i =
     getp (\<lambda>db. map_option (account_of_row L now) (find (\<lambda>r. ar_id r = i) (db_accounts db)))"

definition account_list_all :: "libs \<Rightarrow> datetime \<Rightarrow> account list db_proc" where
  "account_list_all L now =
     getp (\<lambda>db. map (account_of_row L now) (sort_key ar_created_at (db_accounts db)))"

definition account_delete :: "string \<Rightarrow> unit db_proc" where
  "account_delete i =
     stmt (\<lambda>db. db\<lparr>db_accounts := filter (\<lambda>r. ar_id r \<noteq> i) (db_accounts db)\<rparr>)"

definition delete_errors_of_folder :: "string \<Rightarrow> unit db_proc" where
  "delete_errors_of_folder f =
     stmt (\<lambda>db. db\<lparr>db_sync_errors := filter (\<lambda>e. \<not> (case er_file_state_id e of None \<Rightarrow> False
       | Some i \<Rightarrow> List.member
           (map fr_id (filter (\<lambda>r. fr_sync_folder_id r = f) (db_file_states db))) i))
       (db_sync_errors db)\<rparr>)"

definition delete_states_of_folder :: "string \<Rightarrow> unit db_proc" where
  "delete_states_of_folder f =
     stmt (\<lambda>db. db\<lparr>db_file_states := filter (\<lambda>r. fr_sync_folder_id r \<noteq> f) (db_file_states db)\<rparr>)"

definition account_delete_cascade :: "string \<Rightarrow> unit db_proc" where
  "account_delete_cascade i =
     transaction
       (seqp (getp (\<lambda>db. map sr_id (filter (\<lambda>r. sr_account_id r = i) (db_sync_folders db))))
         (\<lambda>folder_ids.
           seqp (for_each (\<lambda>f. seqp (delete_errors_of_folder f) (\<lambda>_. delete_states_of_folder f))
                  folder_ids)
             (\<lambda>_. seqp
               (stmt (\<lambda>db. db\<lparr>db_sync_folders :=
                  filter (\<lambda>r. sr_account_id r \<noteq> i) (db_sync_folders db)\<rparr>))
               (\<lambda>_. account_delete i))))"

section \<open>Sync folders\<close>

definition folder_insert :: "libs \<Rightarrow> sync_folder \<Rightarrow> unit db_proc" where
  "folder_insert L f db =
     (if List.member (map sr_id (db_sync_folders db)) (sf_id f)
      then (Inl (UniqueViolation ''sync_folders.id''), db)
      else stmt (\<lambda>db. db\<lparr>db_sync_folders := db_sync_folders db @
        [\<lparr>sr_id = sf_id f, sr_account_id = sf_account_id f, sr_local_path = sf_local_path f,
          sr_drive_folder_id = sf_drive_folder_id f, sr_start_page_token = sf_start_page_token f,
          sr_last_sync_at = map_option (lib_timestamp L) (sf_last_sync_at f),
          sr_paused = (if sf_paused f then 1 else 0)\<rparr>]\<rparr>) db)"

definition folder_of_row :: "libs \<Rightarrow> sync_folder_row \<Rightarrow> sync_folder" where
  "folder_of_row L r =
     \<lparr>sf_id = sr_id r, sf_account_id = sr_account_id r, sf_local_path = sr_local_path r,
      sf_drive_folder_id = sr_drive_folder_id r, sf_start_page_token = sr_start_page_token r,
      sf_last_sync_at = Option.bind (sr_last_sync_at r) (from_secs L),
      sf_paused = (sr_paused r \<noteq> 0)\<rparr>"

definition folder_get_by_id :: "libs \<Rightarrow> string \<Rightarrow> sync_folder option db_proc" where
  "folder_get_by_id L i =
     getp (\<lambda>db. map_option (folder_of_row L) (find (\<lambda>r. sr_id r = i) (db_sync_folders db)))"

definition folder_list_by_account :: "libs \<Rightarrow> string \<Rightarrow> sync_folder list db_proc" where
  "folder_list_by_account L a =
     getp (\<lambda>db. map (folder_of_row L)
       (sort_key sr_id (filter (\<lambda>r. sr_account_id r = a) (db_sync_folders db))))"

definition folder_delete :: "string \<Rightarrow> unit db_proc" where
  "folder_delete i =
     stmt (\<lambda>db. db\<lparr>db_sync_folders := filter (\<lambda>r. sr_id r \<noteq> i) (db_sync_folders db)\<rparr>)"

definition folder_update :: "string \<Rightarrow> (sync_folder_row \<Rightarrow> sync_folder_row) \<Rightarrow> unit db_proc" where
  "folder_update i f =
     stmt (\<lambda>db. db\<lparr>db_sync_folders :=
       map (\<lambda>r. if sr_id r = i then f r else r) (db_sync_folders db)\<rparr>)"

definition folder_set_paused :: "string \<Rightarrow> bool \<Rightarrow> unit db_proc" where
  "folder_set_paused i p = folder_update i (\<lambda>r. r\<lparr>sr_paused := (if p then 1 else 0)\<rparr>)"

definition folder_update_page_token :: "string \<Rightarrow> string option \<Rightarrow> unit db_proc" where
  "folder_update_page_token i t = folder_update i (\<lambda>r. r\<lparr>sr_start_page_token := t\<rparr>)"

section \<open>File states\<close>

text \<open>
  Times are stored as whole milliseconds, \<open>last_synced_at\<close> as whole seconds. Reading back uses
  Rust's truncating division and remainder and an \<open>as u32\<close> cast.
\<close>

definition timestamp_millis_to_datetime :: "libs \<Rightarrow> int \<Rightarrow> datetime option" where
  "timestamp_millis_to_datetime L ms =
     (let secs = ms sdiv 1000;
          nsecs = nat (((ms smod 1000) * 1000000) mod 2 ^ 32)
      in lib_from_timestamp L secs nsecs)"

definition row_of_file_state :: "libs \<Rightarrow> file_state \<Rightarrow> file_state_row" where
  "row_of_file_state L s =
     \<lparr>fr_id = fs_id s, fr_sync_folder_id = fs_sync_folder_id s,
      fr_relative_path = fs_relative_path s, fr_drive_file_id = fs_drive_file_id s,
      fr_drive_md5 = fs_drive_md5 s,
      fr_drive_modified = map_option (lib_timestamp_millis L) (fs_drive_modified s),
      fr_local_md5 = fs_local_md5 s,
      fr_local_modified = map_option (lib_timestamp_millis L) (fs_local_modified s),
      fr_sync_state = lib_state_to_json L (fs_sync_state s),
      fr_last_synced_at = map_option (lib_timestamp L) (fs_last_synced_at s)\<rparr>"

definition row_to_file_state :: "libs \<Rightarrow> file_state_row \<Rightarrow> db_error + file_state" where
  "row_to_file_state L r =
     (case lib_state_from_json L (fr_sync_state r) of
        None \<Rightarrow> Inl (RowDecode (fr_sync_state r))
      | Some st \<Rightarrow> Inr
          \<lparr>fs_id = fr_id r, fs_sync_folder_id = fr_sync_folder_id r,
           fs_relative_path = fr_relative_path r, fs_drive_file_id = fr_drive_file_id r,
           fs_drive_md5 = fr_drive_md5 r,
           fs_drive_modified = Option.bind (fr_drive_modified r) (timestamp_millis_to_datetime L),
           fs_local_md5 = fr_local_md5 r,
           fs_local_modified = Option.bind (fr_local_modified r) (timestamp_millis_to_datetime L),
           fs_sync_state = st,
           fs_last_synced_at = Option.bind (fr_last_synced_at r) (from_secs L)\<rparr>)"

text \<open>
  \<open>INSERT ... ON CONFLICT(sync_folder_id, relative_path) DO UPDATE\<close>: the row of the same folder
  and path is overwritten in place, its id included; otherwise the row is new. In both cases the
  id must not be the id of a row of another folder or path (the primary key).
\<close>

definition put_row :: "file_state_row \<Rightarrow> file_state_row list \<Rightarrow> file_state_row list" where
  "put_row r rows =
     (if List.member (map fs_key rows) (fs_key r)
      then map (\<lambda>r'. if fs_key r' = fs_key r then r else r') rows
      else rows @ [r])"

definition id_clash :: "file_state_row \<Rightarrow> file_state_row list \<Rightarrow> bool" where
  "id_clash r rows =
     List.member (map fr_id (filter (\<lambda>r'. fs_key r' \<noteq> fs_key r) rows)) (fr_id r)"

definition upsert_row :: "file_state_row \<Rightarrow> unit db_proc" where
  "upsert_row r db =
     (if id_clash r (db_file_states db) then (Inl (UniqueViolation ''file_states.id''), db)
      else stmt (\<lambda>db. db\<lparr>db_file_states := put_row r (db_file_states db)\<rparr>) db)"

definition fs_upsert :: "libs \<Rightarrow> file_state \<Rightarrow> unit db_proc" where
  "fs_upsert L s = upsert_row (row_of_file_state L s)"

definition fs_get_by_path :: "libs \<Rightarrow> string \<Rightarrow> string \<Rightarrow> file_state option db_proc" where
  "fs_get_by_path L f p db =
     (case find (\<lambda>r. fr_sync_folder_id r = f \<and> fr_relative_path r = p) (db_file_states db) of
        None \<Rightarrow> (Inr None, db)
      | Some r \<Rightarrow> (map_sum id Some (row_to_file_state L r), db))"

definition fs_get_by_drive_id :: "libs \<Rightarrow> string \<Rightarrow> string \<Rightarrow> file_state option db_proc" where
  "fs_get_by_drive_id L f i db =
     (case find (\<lambda>r. fr_sync_folder_id r = f \<and> fr_drive_file_id r = Some i) (db_file_states db) of
        None \<Rightarrow> (Inr None, db)
      | Some r \<Rightarrow> (map_sum id Some (row_to_file_state L r), db))"

text \<open>\<open>collect::<Result<Vec<_>, _>>()\<close>: the first row that does not decode fails the query.\<close>

fun collect_rows :: "('a \<Rightarrow> 'e + 'b) \<Rightarrow> 'a list \<Rightarrow> 'e + 'b list" where
  "collect_rows f [] = Inr []"
| "collect_rows f (x # xs) =
     (case f x of Inl e \<Rightarrow> Inl e | Inr y \<Rightarrow> map_sum id ((#) y) (collect_rows f xs))"

definition fs_list_by_folder :: "libs \<Rightarrow> string \<Rightarrow> file_state list db_proc" where
  "fs_list_by_folder L f db =
     (collect_rows (row_to_file_state L)
        (sort_key fr_relative_path (filter (\<lambda>r. fr_sync_folder_id r = f) (db_file_states db))), db)"

fun kind_to_str :: "sync_state_kind \<Rightarrow> string" where
  "kind_to_str Synced = ''synced''"
| "kind_to_str Pending = ''pending''"
| "kind_to_str InConflict = ''conflict''"
| "kind_to_str InError = ''error''"
| "kind_to_str Uploading = ''uploading''"
| "kind_to_str Downloading = ''downloading''"

text \<open>SQLite's \<open>LIKE\<close> with a pattern \<open>%x%\<close> ignores the case of ASCII letters.\<close>

definition ascii_lower :: "string \<Rightarrow> string" where
  "ascii_lower s = map (\<lambda>c. let n = of_char c :: nat in
     if 65 \<le> n \<and> n \<le> 90 then char_of (n + 32) else c) s"

definition sql_like_contains :: "string \<Rightarrow> string \<Rightarrow> bool" where
  "sql_like_contains s x \<longleftrightarrow> contains_str (ascii_lower s) (ascii_lower x)"

definition kind_pattern :: "sync_state_kind \<Rightarrow> string" where
  "kind_pattern k = CHR 0x22 # ''kind'' @ CHR 0x22 # CHR '':'' # CHR 0x22 # kind_to_str k @ [CHR 0x22]"

definition fs_list_by_state :: "libs \<Rightarrow> string \<Rightarrow> sync_state_kind \<Rightarrow> file_state list db_proc" where
  "fs_list_by_state L f k db =
     (collect_rows (row_to_file_state L)
        (sort_key fr_relative_path (filter (\<lambda>r. fr_sync_folder_id r = f \<and>
           sql_like_contains (fr_sync_state r) (kind_pattern k)) (db_file_states db))), db)"

definition fs_delete :: "string \<Rightarrow> unit db_proc" where
  "fs_delete i =
     stmt (\<lambda>db. db\<lparr>db_file_states := filter (\<lambda>r. fr_id r \<noteq> i) (db_file_states db)\<rparr>)"

definition fs_bulk_upsert :: "libs \<Rightarrow> file_state list \<Rightarrow> unit db_proc" where
  "fs_bulk_upsert L states = transaction (for_each (fs_upsert L) states)"

section \<open>Sync errors and the OAuth application\<close>

record sync_error_record =
  ser_id :: string
  ser_file_state_id :: "string option"
  ser_error_message :: string
  ser_occurred_at :: datetime
  ser_retry_count :: int

definition error_insert ::
    "libs \<Rightarrow> string \<Rightarrow> string option \<Rightarrow> string \<Rightarrow> datetime \<Rightarrow> int \<Rightarrow> unit db_proc" where
  "error_insert L i file_state_id error_message occurred_at retry_count db =
     (if List.member (map er_id (db_sync_errors db)) i
      then (Inl (UniqueViolation ''sync_errors.id''), db)
      else stmt (\<lambda>db. db\<lparr>db_sync_errors := db_sync_errors db @
        [\<lparr>er_id = i, er_file_state_id = file_state_id, er_error_message = error_message,
          er_occurred_at = lib_timestamp L occurred_at, er_retry_count = retry_count\<rparr>]\<rparr>) db)"

definition error_of_row :: "libs \<Rightarrow> datetime \<Rightarrow> sync_error_row \<Rightarrow> db_error + sync_error_record" where
  "error_of_row L now r =
     (if - (2 ^ 31) \<le> er_retry_count r \<and> er_retry_count r < 2 ^ 31 then Inr
        \<lparr>ser_id = er_id r, ser_file_state_id = er_file_state_id r,
         ser_error_message = er_error_message r,
         ser_occurred_at = (case from_secs L (er_occurred_at r) of Some t \<Rightarrow> t | None \<Rightarrow> now),
         ser_retry_count = er_retry_count r\<rparr>
      else Inl (RowDecode ''retry_count''))"

text \<open>\<open>ORDER BY occurred_at DESC LIMIT n\<close>; a negative limit is no limit.\<close>

definition recent :: "int \<Rightarrow> sync_error_row list \<Rightarrow> sync_error_row list" where
  "recent limit rows =
     (let sorted_rows = sort_key (\<lambda>r. - er_occurred_at r) rows
      in if limit < 0 then sorted_rows else take (nat limit) sorted_rows)"

definition error_get_recent ::
    "libs \<Rightarrow> datetime \<Rightarrow> string option \<Rightarrow> int \<Rightarrow> sync_error_record list db_proc" where
  "error_get_recent L now file_state_id limit db =
     (collect_rows (error_of_row L now)
        (recent limit (case file_state_id of
           Some fid \<Rightarrow> filter (\<lambda>r. er_file_state_id r = Some fid) (db_sync_errors db)
         | None \<Rightarrow> db_sync_errors db)), db)"

definition error_clear_for_file :: "string \<Rightarrow> unit db_proc" where
  "error_clear_for_file fid =
     stmt (\<lambda>db. db\<lparr>db_sync_errors :=
       filter (\<lambda>r. er_file_state_id r \<noteq> Some fid) (db_sync_errors db)\<rparr>)"

definition error_increment_retry :: "string \<Rightarrow> unit db_proc" where
  "error_increment_retry i =
     stmt (\<lambda>db. db\<lparr>db_sync_errors :=
       map (\<lambda>r. if er_id r = i then r\<lparr>er_retry_count := er_retry_count r + 1\<rparr> else r)
         (db_sync_errors db)\<rparr>)"

definition oauth_get :: "(string \<times> string) option db_proc" where
  "oauth_get = getp db_oauth"

definition oauth_upsert :: "string \<Rightarrow> string \<Rightarrow> unit db_proc" where
  "oauth_upsert client_id client_secret =
     stmt (\<lambda>db. db\<lparr>db_oauth := Some (client_id, client_secret)\<rparr>)"

section \<open>Every statement keeps the keys of the schema\<close>

lemma distinct_map_filter_id: "distinct (map f xs) \<Longrightarrow> distinct (map f (filter P xs))"
  by (rule distinct_map_filter)

lemma map_if_key:
  "map f (map (\<lambda>r. if P r then g r else r) xs) = map f xs" if "\<And>r. P r \<Longrightarrow> f (g r) = f r"
  using that by (induction xs) auto

lemma pres_account_insert [proc_pres]: "pres db_wf (account_insert L a)"
  by (auto simp: account_insert_def pres_def stmt_def db_wf_def)

lemma pres_account_delete [proc_pres]: "pres db_wf (account_delete i)"
  unfolding account_delete_def by (rule pres_stmt) (auto simp: db_wf_def distinct_map_filter)

lemma pres_delete_errors [proc_pres]: "pres db_wf (delete_errors_of_folder f)"
  unfolding delete_errors_of_folder_def
  by (rule pres_stmt) (auto simp: db_wf_def distinct_map_filter)

lemma pres_delete_states [proc_pres]: "pres db_wf (delete_states_of_folder f)"
  unfolding delete_states_of_folder_def
  by (rule pres_stmt) (auto simp: db_wf_def distinct_map_filter)

lemma pres_delete_folders: "pres db_wf (stmt (\<lambda>db. db\<lparr>db_sync_folders := filter P (db_sync_folders db)\<rparr>))"
  by (rule pres_stmt) (auto simp: db_wf_def distinct_map_filter)

lemma pres_delete_cascade [proc_pres]: "pres db_wf (account_delete_cascade i)"
  unfolding account_delete_cascade_def by (intro proc_pres pres_delete_folders)

lemma pres_folder_insert [proc_pres]: "pres db_wf (folder_insert L f)"
  by (auto simp: folder_insert_def pres_def stmt_def db_wf_def)

lemma pres_folder_delete [proc_pres]: "pres db_wf (folder_delete i)"
  unfolding folder_delete_def by (rule pres_delete_folders)

lemma pres_folder_update:
  assumes "\<And>r. sr_id (f r) = sr_id r"
  shows "pres db_wf (folder_update i f)"
  unfolding folder_update_def
  by (rule pres_stmt) (simp add: db_wf_def map_if_key assms del: map_map)

lemma pres_folder_set_paused [proc_pres]: "pres db_wf (folder_set_paused i p)"
  unfolding folder_set_paused_def by (rule pres_folder_update) simp

lemma pres_folder_update_page_token [proc_pres]: "pres db_wf (folder_update_page_token i t)"
  unfolding folder_update_page_token_def by (rule pres_folder_update) simp

lemma replace_absent: "k r \<notin> k ` set rows \<Longrightarrow> map (\<lambda>r'. if k r' = k r then r else r') rows = rows"
  by (induction rows) auto

lemma distinct_replace_key:
  assumes "distinct (map g rows)" and "distinct (map k rows)"
    and "g r \<notin> g ` {r' \<in> set rows. k r' \<noteq> k r}"
  shows "distinct (map g (map (\<lambda>r'. if k r' = k r then r else r') rows))"
  using assms
proof (induction rows)
  case (Cons x rows)
  show ?case
  proof (cases "k x = k r")
    case True
    with Cons.prems(2) have "k r \<notin> k ` set rows" by simp
    then have m: "map (\<lambda>r'. if k r' = k r then r else r') rows = rows" by (rule replace_absent)
    have "g r \<notin> g ` set rows"
      using Cons.prems(3) \<open>k r \<notin> k ` set rows\<close> by (auto simp: image_iff) metis
    with True Cons.prems(1) show ?thesis by (simp add: m del: map_map)
  next
    case False
    have "g x \<noteq> g r" and r: "g r \<notin> g ` {r' \<in> set rows. k r' \<noteq> k r}"
      using Cons.prems(3) False by (auto simp: image_iff)
    moreover have "g x \<notin> g ` set rows" using Cons.prems(1) by simp
    ultimately have "g x \<notin> set (map g (map (\<lambda>r'. if k r' = k r then r else r') rows))"
      by (auto split: if_splits)
    moreover have "distinct (map g (map (\<lambda>r'. if k r' = k r then r else r') rows))"
      using Cons.IH Cons.prems r by simp
    ultimately show ?thesis using False by (simp del: map_map)
  qed
qed simp

lemma put_row_ids:
  assumes "distinct (map fr_id rows)" and "distinct (map fs_key rows)" and "\<not> id_clash r rows"
  shows "distinct (map fr_id (put_row r rows)) \<and> distinct (map fs_key (put_row r rows))"
proof (cases "fs_key r \<in> fs_key ` set rows")
  case True
  have "distinct (map fr_id (map (\<lambda>r'. if fs_key r' = fs_key r then r else r') rows))"
    using assms by (intro distinct_replace_key) (auto simp: id_clash_def)
  moreover have "map fs_key (map (\<lambda>r'. if fs_key r' = fs_key r then r else r') rows) = map fs_key rows"
    by (rule map_if_key) simp
  ultimately show ?thesis using True assms(2) by (simp add: put_row_def del: map_map)
next
  case False
  moreover have "fr_id r \<notin> fr_id ` set rows"
    using assms(3) False by (simp add: id_clash_def image_iff) metis
  ultimately show ?thesis using assms by (auto simp: put_row_def)
qed

lemma pres_upsert_row [proc_pres]: "pres db_wf (upsert_row r)"
  by (rule presI) (auto simp: upsert_row_def stmt_def db_wf_def put_row_ids)

lemma pres_fs_upsert [proc_pres]: "pres db_wf (fs_upsert L s)"
  unfolding fs_upsert_def by (rule pres_upsert_row)

lemma pres_fs_delete [proc_pres]: "pres db_wf (fs_delete i)"
  unfolding fs_delete_def by (rule pres_stmt) (auto simp: db_wf_def distinct_map_filter)

lemma pres_fs_bulk_upsert [proc_pres]: "pres db_wf (fs_bulk_upsert L ss)"
  unfolding fs_bulk_upsert_def by (intro proc_pres)

lemma pres_error_insert [proc_pres]: "pres db_wf (error_insert L i f m t n)"
  by (auto simp: error_insert_def pres_def stmt_def db_wf_def)

lemma pres_error_clear [proc_pres]: "pres db_wf (error_clear_for_file i)"
  unfolding error_clear_for_file_def by (rule pres_stmt) (auto simp: db_wf_def distinct_map_filter)

lemma pres_error_increment [proc_pres]: "pres db_wf (error_increment_retry i)"
  unfolding error_increment_retry_def
  by (rule pres_stmt) (simp add: db_wf_def map_if_key del: map_map)

lemma pres_oauth_upsert [proc_pres]: "pres db_wf (oauth_upsert c s)"
  unfolding oauth_upsert_def by (rule pres_stmt) (simp add: db_wf_def)

lemma db_wf_empty: "db_wf db_empty"
  by (simp add: db_wf_def db_empty_def fk_ok_def)

lemma reads_pure [simp]:
  "snd (fs_get_by_path L f p db) = db" "snd (fs_get_by_drive_id L f i db) = db"
  "snd (fs_list_by_folder L f db) = db" "snd (fs_list_by_state L f k db) = db"
  "snd (error_get_recent L now fid n db) = db"
  by (simp_all add: fs_get_by_path_def fs_get_by_drive_id_def fs_list_by_folder_def
      fs_list_by_state_def error_get_recent_def split: option.splits)

lemma pres_pure_read: "(\<And>s. snd (m s) = s) \<Longrightarrow> pres I m"
  by (simp add: pres_def)

lemma pres_reads [proc_pres]:
  "pres I (fs_get_by_path L f p)" "pres I (fs_get_by_drive_id L f i)"
  "pres I (fs_list_by_folder L f)" "pres I (fs_list_by_state L f k)"
  "pres I (error_get_recent L now fid n)"
  by (rule pres_pure_read, simp)+

lemma pres_get_reads [proc_pres]:
  "pres I (account_get_by_id L now i)" "pres I (account_list_all L now)"
  "pres I (folder_get_by_id L i)" "pres I (folder_list_by_account L a)" "pres I oauth_get"
  unfolding account_get_by_id_def account_list_all_def folder_get_by_id_def
    folder_list_by_account_def oauth_get_def by (rule pres_getp)+

section \<open>What is stored can be loaded\<close>

lemma find_append_single:
  "find P (xs @ [x]) = (case find P xs of Some y \<Rightarrow> Some y | None \<Rightarrow> if P x then Some x else None)"
  by (induction xs) auto

text \<open>
  The interface of a keyed store: what was stored under a key is found there, normalised by the
  storage format; other keys keep what they had; a failed write changes nothing.
\<close>

locale keyed_store =
  fixes store :: "'v \<Rightarrow> ('s, 'e, unit) proc"
    and load :: "'k \<Rightarrow> ('s, 'e, 'v option) proc"
    and key :: "'v \<Rightarrow> 'k"
    and wf :: "'s \<Rightarrow> bool"
    and storable :: "'v \<Rightarrow> bool"
    and stored :: "'v \<Rightarrow> 'v"
  assumes store_wf: "wf s \<Longrightarrow> wf (snd (store v s))"
    and store_load: "wf s \<Longrightarrow> storable v \<Longrightarrow> store v s = (Inr (), s') \<Longrightarrow>
      fst (load (key v) s') = Inr (Some (stored v))"
    and store_frame: "wf s \<Longrightarrow> store v s = (Inr (), s') \<Longrightarrow> k \<noteq> key v \<Longrightarrow>
      fst (load k s') = fst (load k s)"
    and store_fail: "store v s = (Inl e, s') \<Longrightarrow> s' = s"
begin

lemma store_wf': "wf s \<Longrightarrow> store v s = (r, s') \<Longrightarrow> wf s'"
  using store_wf [of s v] by simp

text \<open>After a run of writes each key holds the last value written under it.\<close>

lemma store_all:
  assumes "wf s" and "\<forall>v \<in> set vs. storable v" and "for_each store vs s = (Inr (), s')"
  shows "wf s' \<and> fst (load k s') =
    (case find (\<lambda>v. key v = k) (rev vs) of Some v \<Rightarrow> Inr (Some (stored v)) | None \<Rightarrow> fst (load k s))"
  using assms
proof (induction vs arbitrary: s)
  case Nil
  then show ?case by (simp add: retp_def)
next
  case (Cons v vs)
  then obtain t where t: "store v s = (Inr (), t)" and rest: "for_each store vs t = (Inr (), s')"
    by (auto elim!: seqp_InrE)
  have t_wf: "wf t" using t Cons.prems(1) by (rule store_wf' [rotated])
  have IH: "wf s' \<and> fst (load k s') = (case find (\<lambda>v. key v = k) (rev vs) of
      Some v \<Rightarrow> Inr (Some (stored v)) | None \<Rightarrow> fst (load k t))"
    using Cons.IH [OF t_wf _ rest] Cons.prems(2) by simp
  show ?case
  proof (cases "find (\<lambda>v. key v = k) (rev vs)")
    case None
    then have "find (\<lambda>v. key v = k) (rev (v # vs)) = (if key v = k then Some v else None)"
      by (simp add: find_append_single)
    with None IH t Cons.prems show ?thesis by (auto simp: store_load store_frame)
  next
    case (Some w)
    then have "find (\<lambda>v. key v = k) (rev (v # vs)) = Some w" by (simp add: find_append_single)
    with Some IH show ?thesis by simp
  qed
qed

end

text \<open>What a stored state looks like when it is loaded: times cut to the stored precision.\<close>

definition floor_ms :: "datetime \<Rightarrow> datetime" where
  "floor_ms t = t div 1000000 * 1000000"

definition floor_secs :: "datetime \<Rightarrow> datetime" where
  "floor_secs t = t div 1000000000 * 1000000000"

definition fs_stored :: "file_state \<Rightarrow> file_state" where
  "fs_stored s = s\<lparr>
     fs_drive_modified := map_option floor_ms (fs_drive_modified s),
     fs_local_modified := map_option floor_ms (fs_local_modified s),
     fs_last_synced_at := map_option floor_secs (fs_last_synced_at s)\<rparr>"

definition time_ok :: "datetime \<Rightarrow> bool" where
  "time_ok t \<longleftrightarrow> 0 \<le> t \<and> t div 1000000000 \<le> max_secs"

definition fs_times_ok :: "file_state \<Rightarrow> bool" where
  "fs_times_ok s \<longleftrightarrow> pred_option time_ok (fs_drive_modified s) \<and>
     pred_option time_ok (fs_local_modified s) \<and> pred_option time_ok (fs_last_synced_at s)"

definition fs_path_key :: "file_state \<Rightarrow> string \<times> string" where
  "fs_path_key s = (fs_sync_folder_id s, fs_relative_path s)"

lemma millis_round_trip:
  assumes "chrono_ok L" and "time_ok t"
  shows "timestamp_millis_to_datetime L (lib_timestamp_millis L t) = Some (floor_ms t)"
proof -
  define ms where "ms = t div 1000000"
  have ms0: "0 \<le> ms" using assms(2) by (simp add: ms_def time_ok_def pos_imp_zdiv_nonneg_iff)
  have d: "ms div 1000 = t div 1000000000" by (simp add: ms_def zdiv_zmult2_eq [symmetric])
  have sd: "ms sdiv 1000 = ms div 1000" and sm: "ms smod 1000 = ms mod 1000"
    using ms0 by (auto simp: signed_divide_int_def signed_modulo_int_def sgn_if)
  have nn: "nat ((ms mod 1000 * 1000000) mod 2 ^ 32) = nat (ms mod 1000 * 1000000)"
  proof -
    have "ms mod 1000 < 1000" by simp
    then have "ms mod 1000 * 1000000 < 2 ^ 32" by simp
    then show ?thesis by (simp add: mod_pos_pos_trivial)
  qed
  have "lib_from_timestamp L (ms div 1000) (nat (ms mod 1000 * 1000000)) =
      Some (ms div 1000 * 1000000000 + int (nat (ms mod 1000 * 1000000)))"
  proof -
    have "ms mod 1000 < 1000" by simp
    then have n: "nat (ms mod 1000 * 1000000) < 1000000000" by simp
    have "0 \<le> ms div 1000" using ms0 by simp
    moreover have "ms div 1000 \<le> max_secs" using assms(2) by (simp add: d time_ok_def)
    ultimately show ?thesis using n assms(1) by (simp add: chrono_ok_def)
  qed
  moreover have "ms div 1000 * 1000000000 + int (nat (ms mod 1000 * 1000000)) = floor_ms t"
  proof -
    have "0 \<le> ms mod 1000 * 1000000" by simp
    then have "int (nat (ms mod 1000 * 1000000)) = ms mod 1000 * 1000000" by simp
    moreover have "ms div 1000 * 1000000000 + ms mod 1000 * 1000000 = ms * 1000000"
      using div_mult_mod_eq [of ms 1000] by linarith
    ultimately show ?thesis by (simp only: floor_ms_def ms_def [symmetric])
  qed
  ultimately show ?thesis
    using assms(1) by (simp add: timestamp_millis_to_datetime_def Let_def chrono_ok_def
        ms_def [symmetric] sd sm nn)
qed

lemma secs_round_trip:
  assumes "chrono_ok L" and "time_ok t"
  shows "from_secs L (lib_timestamp L t) = Some (floor_secs t)"
proof -
  have "0 \<le> t div 1000000000"
    using assms(2) by (simp add: time_ok_def pos_imp_zdiv_nonneg_iff)
  with assms show ?thesis by (simp add: from_secs_def chrono_ok_def floor_secs_def time_ok_def)
qed

lemma row_round_trip:
  assumes "libs_ok L" and "fs_times_ok s"
  shows "row_to_file_state L (row_of_file_state L s) = Inr (fs_stored s)"
proof -
  have "Option.bind (map_option (lib_timestamp_millis L) x) (timestamp_millis_to_datetime L) =
      map_option floor_ms x" if "pred_option time_ok x" for x
    using that assms(1) by (cases x) (auto simp: millis_round_trip libs_ok_def)
  moreover have "Option.bind (map_option (lib_timestamp L) x) (from_secs L) = map_option floor_secs x"
    if "pred_option time_ok x" for x
    using that assms(1) by (cases x) (auto simp: secs_round_trip libs_ok_def)
  ultimately show ?thesis
    using assms by (simp add: row_to_file_state_def row_of_file_state_def fs_times_ok_def
        libs_ok_def serde_ok_def fs_stored_def)
qed

lemma row_key [simp]: "fs_key (row_of_file_state L s) = fs_path_key s"
  by (simp add: fs_key_def row_of_file_state_def fs_path_key_def)

lemma find_replaced:
  "k r \<in> k ` set rows \<Longrightarrow>
   find (\<lambda>r'. k r' = k r) (map (\<lambda>r'. if k r' = k r then r else r') rows) = Some r"
  by (induction rows) auto

lemma find_not_replaced:
  "x \<noteq> k r \<Longrightarrow>
   find (\<lambda>r'. k r' = x) (map (\<lambda>r'. if k r' = k r then r else r') rows) = find (\<lambda>r'. k r' = x) rows"
  by (induction rows) auto

lemma find_put_row: "find (\<lambda>r'. fs_key r' = fs_key r) (put_row r rows) = Some r"
proof (cases "fs_key r \<in> fs_key ` set rows")
  case True
  then show ?thesis
    using find_replaced [of fs_key r rows] by (simp add: put_row_def)
next
  case False
  then have "find (\<lambda>r'. fs_key r' = fs_key r) rows = None"
    by (metis (mono_tags, lifting) find_None_iff imageI)
  with False show ?thesis by (simp add: put_row_def find_append_single)
qed

lemma find_put_row_other:
  "x \<noteq> fs_key r \<Longrightarrow> find (\<lambda>r'. fs_key r' = x) (put_row r rows) = find (\<lambda>r'. fs_key r' = x) rows"
  by (auto simp: put_row_def find_not_replaced find_append_single split: option.splits)

lemma upsert_row_find:
  assumes "upsert_row r db = (Inr (), db')"
  shows "find (\<lambda>r'. fs_key r' = fs_key r) (db_file_states db') = Some r"
    and "x \<noteq> fs_key r \<Longrightarrow> find (\<lambda>r'. fs_key r' = x) (db_file_states db') =
      find (\<lambda>r'. fs_key r' = x) (db_file_states db)"
  using assms by (auto simp: upsert_row_def stmt_def find_put_row find_put_row_other split: if_splits)

lemma get_by_path_find:
  "fst (fs_get_by_path L f p db) =
     (case find (\<lambda>r. fs_key r = (f, p)) (db_file_states db) of
        None \<Rightarrow> Inr None | Some r \<Rightarrow> map_sum id Some (row_to_file_state L r))"
  by (simp add: fs_get_by_path_def fs_key_def split: option.splits)

lemma upsert_row_fail: "upsert_row r db = (Inl e, db') \<Longrightarrow> db' = db"
  by (auto simp: upsert_row_def stmt_def split: if_splits)

interpretation fs: keyed_store "fs_upsert L" "\<lambda>(f, p). fs_get_by_path L f p" fs_path_key db_wf
  "\<lambda>s. libs_ok L \<and> fs_times_ok s" fs_stored for L
proof unfold_locales
  show "db_wf db \<Longrightarrow> db_wf (snd (fs_upsert L s db))" for db s
    using pres_fs_upsert [of L s] by (simp add: pres_def)
next
  fix db s db'
  assume "libs_ok L \<and> fs_times_ok s" and "fs_upsert L s db = (Inr (), db')"
  then show "fst ((case fs_path_key s of (f, p) \<Rightarrow> fs_get_by_path L f p) db') = Inr (Some (fs_stored s))"
    using upsert_row_find(1) [of "row_of_file_state L s" db db']
    by (cases "fs_path_key s") (simp add: fs_upsert_def get_by_path_find row_round_trip)
next
  fix db s db' k
  assume "fs_upsert L s db = (Inr (), db')" and "k \<noteq> fs_path_key s"
  then show "fst ((case k of (f, p) \<Rightarrow> fs_get_by_path L f p) db') =
      fst ((case k of (f, p) \<Rightarrow> fs_get_by_path L f p) db)"
    using upsert_row_find(2) [of "row_of_file_state L s" db db' k]
    by (cases k) (simp add: fs_upsert_def get_by_path_find)
next
  fix db s e db'
  assume "fs_upsert L s db = (Inl e, db')"
  then show "db' = db" unfolding fs_upsert_def by (rule upsert_row_fail)
qed

section \<open>Deleting an account\<close>

text \<open>The database without the file states of the folders \<open>F\<close> and the errors that refer to them.\<close>

definition in_folders :: "string set \<Rightarrow> db \<Rightarrow> string \<Rightarrow> bool" where
  "in_folders F db i \<longleftrightarrow> (\<exists>r \<in> set (db_file_states db). fr_id r = i \<and> fr_sync_folder_id r \<in> F)"

definition purge :: "string set \<Rightarrow> db \<Rightarrow> db" where
  "purge F db = db\<lparr>
     db_sync_errors := filter (\<lambda>e. case er_file_state_id e of None \<Rightarrow> True
       | Some i \<Rightarrow> \<not> in_folders F db i) (db_sync_errors db),
     db_file_states := filter (\<lambda>r. fr_sync_folder_id r \<notin> F) (db_file_states db)\<rparr>"

lemma purge_simps [simp]:
  "db_accounts (purge F db) = db_accounts db" "db_sync_folders (purge F db) = db_sync_folders db"
  "db_oauth (purge F db) = db_oauth db"
  "db_file_states (purge F db) = filter (\<lambda>r. fr_sync_folder_id r \<notin> F) (db_file_states db)"
  by (simp_all add: purge_def)

lemma purge_empty: "purge {} db = db"
proof -
  have "filter (\<lambda>e. case er_file_state_id e of None \<Rightarrow> True | Some i \<Rightarrow> \<not> in_folders {} db i)
      (db_sync_errors db) = db_sync_errors db"
    by (auto simp: filter_id_conv in_folders_def split: option.splits)
  then show ?thesis by (simp add: purge_def)
qed

lemma fk_ok_purge: "fk_ok db \<Longrightarrow> fk_ok (purge F db)"
  by (auto simp: fk_ok_def purge_def in_folders_def split: option.splits) blast

lemma in_folders_purge:
  assumes "distinct (map fr_id (db_file_states db))"
  shows "in_folders F (purge G db) i \<longleftrightarrow> in_folders F db i \<and> \<not> in_folders G db i"
  using assms by (auto simp: in_folders_def distinct_map dest: inj_onD)

lemma purge_purge:
  assumes "distinct (map fr_id (db_file_states db))"
  shows "purge F (purge {f} db) = purge (insert f F) db"
proof -
  have "in_folders F (purge {f} db) i \<longleftrightarrow> in_folders F db i \<and> \<not> in_folders {f} db i" for i
    using assms by (rule in_folders_purge)
  moreover have "in_folders (insert f F) db i \<longleftrightarrow> in_folders F db i \<or> in_folders {f} db i" for i
    by (auto simp: in_folders_def)
  ultimately have "filter (\<lambda>e. case er_file_state_id e of None \<Rightarrow> True
        | Some i \<Rightarrow> \<not> in_folders F (purge {f} db) i) (db_sync_errors (purge {f} db)) =
      filter (\<lambda>e. case er_file_state_id e of None \<Rightarrow> True
        | Some i \<Rightarrow> \<not> in_folders (insert f F) db i) (db_sync_errors db)"
    by (auto simp: purge_def intro!: filter_cong split: option.splits)
  then show ?thesis by (simp add: purge_def [of F] purge_def [of "insert f F"])
qed

lemma purge_folder_step:
  assumes "fk_ok db"
  shows "seqp (delete_errors_of_folder f) (\<lambda>_. delete_states_of_folder f) db = (Inr (), purge {f} db)"
proof -
  let ?e = "filter (\<lambda>e. case er_file_state_id e of None \<Rightarrow> True | Some i \<Rightarrow> \<not> in_folders {f} db i)
    (db_sync_errors db)"
  have e: "filter (\<lambda>e. \<not> (case er_file_state_id e of None \<Rightarrow> False
       | Some i \<Rightarrow> List.member
           (map fr_id (filter (\<lambda>r. fr_sync_folder_id r = f) (db_file_states db))) i))
       (db_sync_errors db) = ?e"
    by (rule filter_cong [OF refl]) (auto simp: in_folders_def split: option.splits)
  have "fk_ok (db\<lparr>db_sync_errors := ?e\<rparr>)"
    using assms by (auto simp: fk_ok_def)
  then have "delete_errors_of_folder f db = (Inr (), db\<lparr>db_sync_errors := ?e\<rparr>)"
    by (simp add: delete_errors_of_folder_def stmt_def e)
  moreover have "purge {f} db = db\<lparr>db_sync_errors := ?e,
      db_file_states := filter (\<lambda>r. fr_sync_folder_id r \<noteq> f) (db_file_states db)\<rparr>"
    by (simp add: purge_def)
  ultimately show ?thesis
    using fk_ok_purge [OF assms, of "{f}"] by (simp add: seqp_def delete_states_of_folder_def stmt_def)
qed

lemma purge_folders:
  assumes "fk_ok db" and "distinct (map fr_id (db_file_states db))"
  shows "for_each (\<lambda>f. seqp (delete_errors_of_folder f) (\<lambda>_. delete_states_of_folder f)) fs db =
    (Inr (), purge (set fs) db)"
  using assms
proof (induction fs arbitrary: db)
  case Nil
  then show ?case by (simp add: retp_def purge_empty)
next
  case (Cons f fs)
  have "distinct (map fr_id (db_file_states (purge {f} db)))"
    using Cons.prems(2) by (simp add: distinct_map_filter)
  then have "for_each (\<lambda>f. seqp (delete_errors_of_folder f) (\<lambda>_. delete_states_of_folder f)) fs
      (purge {f} db) = (Inr (), purge (set fs) (purge {f} db))"
    using Cons.prems by (intro Cons.IH fk_ok_purge)
  then show ?case
    using purge_folder_step [OF Cons.prems(1), of f] purge_purge [OF Cons.prems(2)]
    by (simp add: seqp_def [of "seqp _ _"])
qed

definition account_folders :: "db \<Rightarrow> string \<Rightarrow> string set" where
  "account_folders db i = sr_id ` {r \<in> set (db_sync_folders db). sr_account_id r = i}"

lemma delete_cascade_result:
  assumes "db_wf db"
  shows "account_delete_cascade i db =
    (Inr (), (purge (account_folders db i) db)
       \<lparr>db_sync_folders := filter (\<lambda>r. sr_account_id r \<noteq> i) (db_sync_folders db),
        db_accounts := filter (\<lambda>r. ar_id r \<noteq> i) (db_accounts db)\<rparr>)"
proof -
  let ?F = "account_folders db i"
  let ?ids = "map sr_id (filter (\<lambda>r. sr_account_id r = i) (db_sync_folders db))"
  have F: "set ?ids = ?F" by (auto simp: account_folders_def)
  have fk: "fk_ok db" and ids: "distinct (map fr_id (db_file_states db))"
    and sids: "distinct (map sr_id (db_sync_folders db))"
    using assms by (auto simp: db_wf_def)
  have loop: "for_each (\<lambda>f. seqp (delete_errors_of_folder f) (\<lambda>_. delete_states_of_folder f)) ?ids db =
      (Inr (), purge ?F db)"
    using purge_folders [OF fk ids, of ?ids] F by simp
  let ?db1 = "(purge ?F db)\<lparr>db_sync_folders := filter (\<lambda>r. sr_account_id r \<noteq> i) (db_sync_folders db)\<rparr>"
  have fkp: "fk_ok (purge ?F db)" using fk by (rule fk_ok_purge)
  have fk1: "fk_ok ?db1"
    using fkp unfolding fk_ok_def by (auto simp: account_folders_def image_iff) blast
  have fk2: "fk_ok (?db1\<lparr>db_accounts := filter (\<lambda>r. ar_id r \<noteq> i) (db_accounts db)\<rparr>)"
    using fk1 by (auto simp: fk_ok_def)
  show ?thesis
    using loop fk1 fk2
    by (simp add: account_delete_cascade_def transaction_def seqp_def getp_def stmt_def
        account_delete_def)
qed

section \<open>Properties\<close>

text \<open>
  C21: after a bulk upsert that succeeded, looking up a path returns the last state of the batch
  with that folder and path, its times cut to whole milliseconds (whole seconds for
  \<open>last_synced_at\<close>), and a path the batch does not mention is as it was. The times of the batch are between
  1970 and the year 9999 (a time before 1970 with a fractional second is not read back).
\<close>

theorem bulk_upsert_then_get:
  assumes "libs_ok L" and "db_wf db" and "\<forall>s \<in> set states. fs_times_ok s"
    and "fs_bulk_upsert L states db = (Inr (), db')"
  shows "fst (fs_get_by_path L f p db') =
    (case find (\<lambda>s. fs_path_key s = (f, p)) (rev states) of
       Some s \<Rightarrow> Inr (Some (fs_stored s)) | None \<Rightarrow> fst (fs_get_by_path L f p db))"
proof -
  have "for_each (fs_upsert L) states db = (Inr (), db')"
    using assms(4) by (auto simp: fs_bulk_upsert_def transaction_def split: prod.splits sum.splits)
  then show ?thesis
    using fs.store_all [where L = L and k = "(f, p)" and vs = states] assms
    by (simp split: option.splits)
qed

definition demo_state :: file_state where
  "demo_state = (new_pending ''s1'' ''f1'' ''a.txt'')
     \<lparr>fs_drive_file_id := Some ''d1'', fs_local_md5 := Some ''m'',
      fs_local_modified := Some 1700000000123456789\<rparr>"

definition demo_db :: db where
  "demo_db = \<lparr>db_accounts = [\<lparr>ar_id = ''a1'', ar_email = [], ar_display_name = None,
       ar_keyring_key = [], ar_created_at = 0\<rparr>],
     db_sync_folders = [\<lparr>sr_id = ''f1'', sr_account_id = ''a1'', sr_local_path = ''/r'',
       sr_drive_folder_id = ''root'', sr_start_page_token = None, sr_last_sync_at = None,
       sr_paused = 0\<rparr>],
     db_file_states = [], db_sync_errors = [], db_oauth = None\<rparr>"

lemma demo_db_wf: "db_wf demo_db"
  by (simp add: db_wf_def demo_db_def fk_ok_def)

lemma demo_upsert:
  "fs_upsert L demo_state demo_db =
     (Inr (), demo_db\<lparr>db_file_states := [row_of_file_state L demo_state]\<rparr>)"
  by (simp add: fs_upsert_def upsert_row_def id_clash_def stmt_def put_row_def demo_db_def fk_ok_def
      row_of_file_state_def demo_state_def new_pending_def)

lemma bulk_upsert_then_get_witness:
  "fst (fs_get_by_path demo_libs ''f1'' ''a.txt''
     (demo_db\<lparr>db_file_states := [row_of_file_state demo_libs demo_state]\<rparr>)) =
   Inr (Some (demo_state\<lparr>fs_local_modified := Some 1700000000123000000\<rparr>))"
proof -
  have "fs_bulk_upsert demo_libs [demo_state] demo_db =
      (Inr (), demo_db\<lparr>db_file_states := [row_of_file_state demo_libs demo_state]\<rparr>)"
    by (simp add: fs_bulk_upsert_def transaction_def seqp_def demo_upsert retp_def)
  from bulk_upsert_then_get [OF demo_libs_ok demo_db_wf _ this, of "''f1''" "''a.txt''"]
  show ?thesis
    by (simp add: fs_times_ok_def time_ok_def max_secs_def demo_state_def new_pending_def
        fs_path_key_def fs_stored_def floor_ms_def)
qed

text \<open>
  On a database that respects its schema, \<open>delete_cascade\<close> succeeds and removes exactly the
  account, its folders, the file states of these folders and the errors logged for those file
  states; every other row stays, and no statement of the transaction hits a foreign key.
\<close>

theorem delete_cascade_exact:
  assumes "db_wf db" and "account_delete_cascade i db = (r, db')"
  shows "r = Inr () \<and>
    db_accounts db' = filter (\<lambda>a. ar_id a \<noteq> i) (db_accounts db) \<and>
    db_sync_folders db' = filter (\<lambda>f. sr_account_id f \<noteq> i) (db_sync_folders db) \<and>
    db_file_states db' = filter (\<lambda>s. fr_sync_folder_id s \<notin> account_folders db i) (db_file_states db) \<and>
    db_sync_errors db' = filter (\<lambda>e. case er_file_state_id e of None \<Rightarrow> True
       | Some j \<Rightarrow> \<not> in_folders (account_folders db i) db j) (db_sync_errors db) \<and>
    db_oauth db' = db_oauth db"
  using delete_cascade_result [OF assms(1), of i] assms(2) by (simp add: purge_def)

lemma delete_cascade_exact_witness:
  "db_sync_folders (snd (account_delete_cascade ''a1'' demo_db)) = []"
  using delete_cascade_exact [OF demo_db_wf surjective_pairing, of "''a1''"]
  by (simp add: demo_db_def)

text \<open>
  Removing a sync folder that has at least one file state fails on the foreign key and
  changes nothing; without file states it removes the folder. So a folder that was ever synced
  cannot be removed through \<open>SyncFolderRepository::delete\<close>.
\<close>

theorem folder_delete_needs_no_states:
  assumes "db_wf db" and "i \<in> sr_id ` set (db_sync_folders db)"
  shows "folder_delete i db =
    (if \<exists>s \<in> set (db_file_states db). fr_sync_folder_id s = i
     then (Inl ForeignKeyViolation, db)
     else (Inr (), db\<lparr>db_sync_folders := filter (\<lambda>r. sr_id r \<noteq> i) (db_sync_folders db)\<rparr>))"
proof -
  have "fk_ok (db\<lparr>db_sync_folders := filter (\<lambda>r. sr_id r \<noteq> i) (db_sync_folders db)\<rparr>) \<longleftrightarrow>
      \<not> (\<exists>s \<in> set (db_file_states db). fr_sync_folder_id s = i)"
    using assms(1) unfolding db_wf_def fk_ok_def by (auto simp: image_iff) metis
  then show ?thesis by (simp add: folder_delete_def stmt_def)
qed

lemma folder_delete_needs_no_states_witness:
  "folder_delete ''f1'' (demo_db\<lparr>db_file_states := [row_of_file_state demo_libs demo_state]\<rparr>) =
     (Inl ForeignKeyViolation, demo_db\<lparr>db_file_states := [row_of_file_state demo_libs demo_state]\<rparr>)"
proof -
  have "db_wf (demo_db\<lparr>db_file_states := [row_of_file_state demo_libs demo_state]\<rparr>)"
    using presD [OF pres_fs_upsert demo_db_wf demo_upsert] .
  then show ?thesis
    by (subst folder_delete_needs_no_states)
      (simp_all add: demo_db_def row_of_file_state_def demo_state_def new_pending_def)
qed

end
