(* ===== verification/Gds_Local_Fs.thy ===== *)
theory Gds_Local_Fs
  imports Gds_Paths
begin

text \<open>
  The local file system (\<open>crates/gds-core/src/sync/fs.rs\<close>). First a disk: a tree of files,
  directories and symbolic links with the \<open>std::fs\<close> calls the source makes, path resolution and
  symbolic links included. Then the \<open>LocalFs\<close> trait as a record of operations on a disk type,
  and \<open>TokioLocalFs\<close> as its instance on the concrete disk. The locale \<open>file_store\<close> is what the
  executor needs of an implementation; \<open>TokioLocalFs\<close> satisfies it on disks without symbolic
  links below the root.
\<close>

section \<open>A disk\<close>

text \<open>
  Nodes are stored under their absolute path; the root directory is implicit. \<open>d_now\<close> is the
  system clock, which dates written files and serves as \<open>Utc::now\<close>.
\<close>

datatype node = File string int | Dir int | Link path int

record disk =
  d_nodes :: "(string list \<times> node) list"
  d_now :: int

type_synonym 'a disk_io = "(disk, io_error, 'a) proc"

definition lookup_node :: "disk \<Rightarrow> string list \<Rightarrow> node option" where
  "lookup_node d k = (if k = [] then Some (Dir 0) else map_of (d_nodes d) k)"

definition put_node :: "string list \<Rightarrow> node \<Rightarrow> disk \<Rightarrow> disk" where
  "put_node k n d = d\<lparr>d_nodes := AList.update k n (d_nodes d)\<rparr>"

definition del_node :: "string list \<Rightarrow> disk \<Rightarrow> disk" where
  "del_node k d = d\<lparr>d_nodes := AList.delete k (d_nodes d)\<rparr>"

definition enoent :: io_error where
  "enoent = \<lparr>io_kind = NotFound, io_text = ''No such file or directory (os error 2)''\<rparr>"

definition eexist :: io_error where
  "eexist = \<lparr>io_kind = OtherKind, io_text = ''File exists (os error 17)''\<rparr>"

definition enotdir :: io_error where
  "enotdir = \<lparr>io_kind = OtherKind, io_text = ''Not a directory (os error 20)''\<rparr>"

definition eisdir :: io_error where
  "eisdir = \<lparr>io_kind = OtherKind, io_text = ''Is a directory (os error 21)''\<rparr>"

definition enotempty :: io_error where
  "enotempty = \<lparr>io_kind = OtherKind, io_text = ''Directory not empty (os error 39)''\<rparr>"

definition eloop :: io_error where
  "eloop = \<lparr>io_kind = OtherKind, io_text = ''Too many levels of symbolic links (os error 40)''\<rparr>"

text \<open>
  Path resolution: components are looked up one by one from the root; a link is replaced by its
  target, at most forty times; the last component is followed only when \<open>follow\<close> is set and may
  be missing. Relative paths start at the root (the working directory).
\<close>

fun resolve ::
    "nat \<Rightarrow> disk \<Rightarrow> bool \<Rightarrow> string list \<Rightarrow> string list \<Rightarrow> io_error + string list" where
  "resolve fuel d follow at [] = Inr at"
| "resolve fuel d follow at (c # cs) =
     (if c = ''.'' then resolve fuel d follow at cs
      else if c = ''..'' then resolve fuel d follow (butlast at) cs
      else (case lookup_node d (at @ [c]) of
              None \<Rightarrow> if cs = [] then Inr (at @ [c]) else Inl enoent
            | Some (File _ _) \<Rightarrow> if cs = [] then Inr (at @ [c]) else Inl enotdir
            | Some (Dir _) \<Rightarrow> resolve fuel d follow (at @ [c]) cs
            | Some (Link t _) \<Rightarrow>
                if cs = [] \<and> \<not> follow then Inr (at @ [c])
                else (case fuel of
                        0 \<Rightarrow> Inl eloop
                      | Suc n \<Rightarrow> resolve n d follow (if p_abs t then [] else at) (p_segs t @ cs))))"

text \<open>Rust refuses a path with a NUL byte before it asks the system.\<close>

definition enul :: io_error where
  "enul = \<lparr>io_kind = OtherKind, io_text = ''file name contained an unexpected NUL byte''\<rparr>"

definition has_nul :: "string list \<Rightarrow> bool" where
  "has_nul ks \<longleftrightarrow> list_ex (\<lambda>w. CHR 0x00 \<in> set w) ks"

definition locate :: "disk \<Rightarrow> bool \<Rightarrow> path \<Rightarrow> io_error + string list" where
  "locate d follow p =
     (if has_nul (p_segs p) then Inl enul else resolve 40 d follow [] (p_segs p))"

definition find_node :: "disk \<Rightarrow> bool \<Rightarrow> path \<Rightarrow> io_error + (string list \<times> node)" where
  "find_node d follow p =
     (case locate d follow p of
        Inl e \<Rightarrow> Inl e
      | Inr k \<Rightarrow> (case lookup_node d k of None \<Rightarrow> Inl enoent | Some n \<Rightarrow> Inr (k, n)))"

section \<open>std::fs\<close>

definition std_exists :: "disk \<Rightarrow> path \<Rightarrow> bool" where
  "std_exists d p = (case find_node d True p of Inl _ \<Rightarrow> False | Inr _ \<Rightarrow> True)"

definition std_try_exists :: "disk \<Rightarrow> path \<Rightarrow> io_error + bool" where
  "std_try_exists d p = (case find_node d True p of
     Inl e \<Rightarrow> if io_kind e = NotFound then Inr False else Inl e | Inr _ \<Rightarrow> Inr True)"

definition std_canonicalize :: "disk \<Rightarrow> path \<Rightarrow> io_error + path" where
  "std_canonicalize d p = (case find_node d True p of
     Inl e \<Rightarrow> Inl e | Inr (k, _) \<Rightarrow> Inr \<lparr>p_abs = True, p_segs = k\<rparr>)"

definition std_symlink_metadata :: "disk \<Rightarrow> path \<Rightarrow> io_error + node" where
  "std_symlink_metadata d p = map_sum id snd (find_node d False p)"

definition std_is_dir :: "disk \<Rightarrow> path \<Rightarrow> bool" where
  "std_is_dir d p = (case find_node d True p of Inr (_, Dir _) \<Rightarrow> True | _ \<Rightarrow> False)"

text \<open>The names in a directory, in the order of the disk.\<close>

definition std_read_dir :: "disk \<Rightarrow> path \<Rightarrow> io_error + string list" where
  "std_read_dir d p = (case find_node d True p of
     Inl e \<Rightarrow> Inl e
   | Inr (k, Dir _) \<Rightarrow>
       Inr (map last (filter (\<lambda>k'. k' \<noteq> [] \<and> butlast k' = k) (map fst (d_nodes d))))
   | Inr _ \<Rightarrow> Inl enotdir)"

definition std_read_link :: "disk \<Rightarrow> path \<Rightarrow> io_error + path" where
  "std_read_link d p = (case find_node d False p of
     Inl e \<Rightarrow> Inl e | Inr (_, Link t _) \<Rightarrow> Inr t
   | Inr _ \<Rightarrow> Inl \<lparr>io_kind = OtherKind, io_text = ''Invalid argument (os error 22)''\<rparr>)"

definition std_read :: "path \<Rightarrow> string disk_io" where
  "std_read p d = (case find_node d True p of
     Inl e \<Rightarrow> (Inl e, d) | Inr (_, File c _) \<Rightarrow> (Inr c, d) | Inr _ \<Rightarrow> (Inl eisdir, d))"

definition std_write :: "path \<Rightarrow> string \<Rightarrow> unit disk_io" where
  "std_write p c d = (case locate d True p of
     Inl e \<Rightarrow> (Inl e, d)
   | Inr k \<Rightarrow> (case lookup_node d k of
       Some (Dir _) \<Rightarrow> (Inl eisdir, d)
     | _ \<Rightarrow> (Inr (), put_node k (File c (d_now d)) d)))"

definition std_mkdir :: "path \<Rightarrow> unit disk_io" where
  "std_mkdir p d = (case locate d False p of
     Inl e \<Rightarrow> (Inl e, d)
   | Inr k \<Rightarrow> (case lookup_node d k of
       Some _ \<Rightarrow> (Inl eexist, d)
     | None \<Rightarrow> (Inr (), put_node k (Dir (d_now d)) d)))"

text \<open>\<open>DirBuilder::create_dir_all\<close>.\<close>

function std_create_dir_all :: "path \<Rightarrow> unit disk_io" where
  "std_create_dir_all p d =
     (if p_segs p = [] \<and> \<not> p_abs p then (Inr (), d)
      else (case std_mkdir p d of
        (Inr _, d1) \<Rightarrow> (Inr (), d1)
      | (Inl e, d1) \<Rightarrow>
          if io_kind e = NotFound then
            (if p_segs p = [] then (Inl e, d1)
             else (case std_create_dir_all (p\<lparr>p_segs := butlast (p_segs p)\<rparr>) d1 of
               (Inl e', d2) \<Rightarrow> (Inl e', d2)
             | (Inr _, d2) \<Rightarrow> (case std_mkdir p d2 of
                 (Inr _, d3) \<Rightarrow> (Inr (), d3)
               | (Inl e'', d3) \<Rightarrow> if std_is_dir d3 p then (Inr (), d3) else (Inl e'', d3))))
          else if std_is_dir d1 p then (Inr (), d1) else (Inl e, d1)))"
  by pat_completeness auto

termination
  by (relation "measure (\<lambda>(p, d). length (p_segs p))") auto

text \<open>\<open>rename\<close> of a file or a link (the source never renames a directory).\<close>

definition std_rename :: "path \<Rightarrow> path \<Rightarrow> unit disk_io" where
  "std_rename a b d = (case find_node d False a of
     Inl e \<Rightarrow> (Inl e, d)
   | Inr (_, Dir _) \<Rightarrow> (Inl eisdir, d)
   | Inr (ka, n) \<Rightarrow> (case locate d False b of
       Inl e \<Rightarrow> (Inl e, d)
     | Inr kb \<Rightarrow> (case lookup_node d kb of
         Some (Dir _) \<Rightarrow> (Inl eisdir, d)
       | _ \<Rightarrow> (Inr (), if ka = kb then d else put_node kb n (del_node ka d)))))"

definition std_remove_file :: "path \<Rightarrow> unit disk_io" where
  "std_remove_file p d = (case find_node d False p of
     Inl e \<Rightarrow> (Inl e, d)
   | Inr (_, Dir _) \<Rightarrow> (Inl eisdir, d)
   | Inr (k, _) \<Rightarrow> (Inr (), del_node k d))"

definition std_remove_dir :: "path \<Rightarrow> unit disk_io" where
  "std_remove_dir p d = (case find_node d False p of
     Inl e \<Rightarrow> (Inl e, d)
   | Inr (k, Dir _) \<Rightarrow>
       if k = [] \<or> list_ex (\<lambda>k'. k' \<noteq> [] \<and> butlast k' = k) (map fst (d_nodes d))
       then (Inl enotempty, d) else (Inr (), del_node k d)
   | Inr _ \<Rightarrow> (Inl enotdir, d))"

section \<open>The trait\<close>

record local_file_meta =
  lm_md5 :: string
  lm_modified :: datetime
  lm_is_dir :: bool
  lm_size :: nat

record dir_entry =
  de_name :: string
  de_is_dir :: bool

text \<open>
  The operations of the trait, and the three that the engine calls on the disk directly
  (\<open>Path::exists\<close> and \<open>canonicalize\<close> in \<open>safe_local_path\<close> and \<open>conflict_copy_path\<close>).
\<close>

record 'd local_fs =
  lf_list_dir :: "path \<Rightarrow> string \<Rightarrow> ('d, sync_error, dir_entry list) proc"
  lf_file_metadata :: "path \<Rightarrow> string \<Rightarrow> ('d, sync_error, local_file_meta option) proc"
  lf_read_file :: "path \<Rightarrow> string \<Rightarrow> ('d, sync_error, string) proc"
  lf_write_atomic :: "path \<Rightarrow> string \<Rightarrow> string \<Rightarrow> ('d, sync_error, unit) proc"
  lf_create_dir_all :: "path \<Rightarrow> string \<Rightarrow> ('d, sync_error, unit) proc"
  lf_remove_file :: "path \<Rightarrow> string \<Rightarrow> ('d, sync_error, unit) proc"
  lf_remove_dir :: "path \<Rightarrow> string \<Rightarrow> ('d, sync_error, unit) proc"
  lf_exists :: "path \<Rightarrow> string \<Rightarrow> ('d, sync_error, bool) proc"
  lf_is_external_symlink :: "path \<Rightarrow> path \<Rightarrow> ('d, sync_error, bool) proc"
  lf_std_exists :: "'d \<Rightarrow> path \<Rightarrow> bool"
  lf_std_canonicalize :: "'d \<Rightarrow> path \<Rightarrow> io_error + path"

section \<open>TokioLocalFs\<close>

text \<open>\<open>map_err(|e| SyncError::IoError { path, source: e })\<close>.\<close>

definition at_path :: "path \<Rightarrow> (disk, io_error, 'a) proc \<Rightarrow> (disk, sync_error, 'a) proc" where
  "at_path p m = map_errp (IoError (path_show p)) m"

definition askp :: "('s \<Rightarrow> 'e + 'a) \<Rightarrow> ('s, 'e, 'a) proc" where
  "askp f s = (f s, s)"

lemma askp_apply [proc_simps]: "askp f s = (f s, s)"
  by (simp add: askp_def)

lemma pres_askp [proc_pres]: "pres I (askp f)"
  by (simp add: pres_def askp_def)

text \<open>One entry of the directory listing: \<open>None\<close> when it is skipped.\<close>

definition list_entry :: "path \<Rightarrow> path \<Rightarrow> string \<Rightarrow> (disk, sync_error, dir_entry option) proc" where
  "list_entry sync_root_canon dir name =
     (if name = ''.gds_tmp'' then retp None
      else
        let full = \<lparr>p_abs = p_abs dir, p_segs = p_segs dir @ [name]\<rparr> in
        seqp (at_path full (askp (\<lambda>d. std_symlink_metadata d full))) (\<lambda>meta.
          case meta of
            Link _ _ \<Rightarrow> seqp (at_path full (askp (\<lambda>d. std_read_link d full))) (\<lambda>target.
              if \<not> path_starts_with target sync_root_canon then retp None
              else retp (Some \<lparr>de_name = name, de_is_dir = False\<rparr>))
          | Dir _ \<Rightarrow> retp (Some \<lparr>de_name = name, de_is_dir = True\<rparr>)
          | File _ _ \<Rightarrow> retp (Some \<lparr>de_name = name, de_is_dir = False\<rparr>)))"

fun list_entries ::
    "path \<Rightarrow> path \<Rightarrow> string list \<Rightarrow> (disk, sync_error, dir_entry list) proc" where
  "list_entries rc dir [] = retp []"
| "list_entries rc dir (name # names) =
     seqp (list_entry rc dir name) (\<lambda>e.
       seqp (list_entries rc dir names) (\<lambda>es.
         retp (case e of None \<Rightarrow> es | Some x \<Rightarrow> x # es)))"

definition tokio_list_dir :: "path \<Rightarrow> string \<Rightarrow> (disk, sync_error, dir_entry list) proc" where
  "tokio_list_dir sync_root relative_path =
     (let path = (if relative_path = [] then sync_root else path_join sync_root relative_path) in
      seqp (at_path path (askp (\<lambda>d. std_read_dir d path))) (\<lambda>names.
        seqp (at_path sync_root (askp (\<lambda>d. std_canonicalize d sync_root))) (\<lambda>rc.
          list_entries rc path names)))"

definition epoch_error :: io_error where
  "epoch_error = \<lparr>io_kind = OtherKind, io_text = ''second time provided was later than self''\<rparr>"

text \<open>\<open>modified().duration_since(UNIX_EPOCH)\<close>, then \<open>from_timestamp\<close> or \<open>Utc::now\<close>.\<close>

definition mtime_utc :: "libs \<Rightarrow> path \<Rightarrow> int \<Rightarrow> (disk, sync_error, datetime) proc" where
  "mtime_utc L path t =
     (if t < 0 then failp (IoError (path_show path) epoch_error)
      else getp (\<lambda>d. case lib_from_timestamp L (t div 1000000000) (nat (t mod 1000000000)) of
        Some u \<Rightarrow> u | None \<Rightarrow> d_now d))"

definition node_mtime :: "node \<Rightarrow> int" where
  "node_mtime n = (case n of File _ t \<Rightarrow> t | Dir t \<Rightarrow> t | Link _ t \<Rightarrow> t)"

definition node_len :: "node \<Rightarrow> nat" where
  "node_len n = (case n of File c _ \<Rightarrow> length c | Dir _ \<Rightarrow> 0 | Link t _ \<Rightarrow> length (path_show t))"

text \<open>The file part of \<open>file_metadata\<close>: modification time, content, digest.\<close>

definition hash_file ::
    "libs \<Rightarrow> path \<Rightarrow> node \<Rightarrow> (disk, sync_error, local_file_meta option) proc" where
  "hash_file L path meta =
     seqp (mtime_utc L path (node_mtime meta)) (\<lambda>modified.
       seqp (at_path path (std_read path)) (\<lambda>content.
         retp (Some \<lparr>lm_md5 = lib_md5 L content, lm_modified = modified, lm_is_dir = False,
           lm_size = node_len meta\<rparr>)))"

definition tokio_file_metadata ::
    "libs \<Rightarrow> path \<Rightarrow> string \<Rightarrow> (disk, sync_error, local_file_meta option) proc" where
  "tokio_file_metadata L sync_root relative_path d =
     (let path = path_join sync_root relative_path in
      case std_symlink_metadata d path of
        Inl e \<Rightarrow> if io_kind e = NotFound then (Inr None, d) else (Inl (IoError (path_show path) e), d)
      | Inr (Dir t) \<Rightarrow> seqp (mtime_utc L path t) (\<lambda>modified.
          retp (Some \<lparr>lm_md5 = [], lm_modified = modified, lm_is_dir = True, lm_size = 0\<rparr>)) d
      | Inr (Link u t) \<Rightarrow>
          seqp (at_path sync_root (askp (\<lambda>d. std_canonicalize d sync_root))) (\<lambda>rc.
            seqp (at_path path (askp (\<lambda>d. std_read_link d path))) (\<lambda>target.
              if \<not> path_starts_with target rc then retp None
              else hash_file L path (Link u t))) d
      | Inr (File c t) \<Rightarrow> hash_file L path (File c t) d)"

definition tokio_read_file :: "path \<Rightarrow> string \<Rightarrow> (disk, sync_error, string) proc" where
  "tokio_read_file sync_root relative_path =
     (let path = path_join sync_root relative_path in at_path path (std_read path))"

definition tokio_write_atomic ::
    "path \<Rightarrow> string \<Rightarrow> string \<Rightarrow> (disk, sync_error, unit) proc" where
  "tokio_write_atomic sync_root relative_path content =
     (let path = path_join sync_root relative_path;
          tmp = with_extension path ''gds_tmp'' in
      seqp (case path_parent path of
              Some p \<Rightarrow> at_path p (std_create_dir_all p) | None \<Rightarrow> retp ()) (\<lambda>_.
        seqp (at_path tmp (std_write tmp content)) (\<lambda>_.
          at_path path (std_rename tmp path))))"

definition tokio_create_dir_all :: "path \<Rightarrow> string \<Rightarrow> (disk, sync_error, unit) proc" where
  "tokio_create_dir_all sync_root relative_path =
     (let path = path_join sync_root relative_path in at_path path (std_create_dir_all path))"

definition tokio_remove_file :: "path \<Rightarrow> string \<Rightarrow> (disk, sync_error, unit) proc" where
  "tokio_remove_file sync_root relative_path =
     (let path = path_join sync_root relative_path in at_path path (std_remove_file path))"

definition tokio_remove_dir :: "path \<Rightarrow> string \<Rightarrow> (disk, sync_error, unit) proc" where
  "tokio_remove_dir sync_root relative_path =
     (let path = path_join sync_root relative_path in at_path path (std_remove_dir path))"

definition tokio_exists :: "path \<Rightarrow> string \<Rightarrow> (disk, sync_error, bool) proc" where
  "tokio_exists sync_root relative_path =
     (let path = path_join sync_root relative_path
      in at_path path (askp (\<lambda>d. std_try_exists d path)))"

definition tokio_is_external_symlink :: "path \<Rightarrow> path \<Rightarrow> (disk, sync_error, bool) proc" where
  "tokio_is_external_symlink sync_root full_path =
     seqp (at_path full_path (askp (\<lambda>d. std_symlink_metadata d full_path))) (\<lambda>meta.
       case meta of
         Link _ _ \<Rightarrow>
           seqp (at_path sync_root (askp (\<lambda>d. std_canonicalize d sync_root))) (\<lambda>rc.
             seqp (at_path full_path (askp (\<lambda>d. std_read_link d full_path))) (\<lambda>target.
               retp (\<not> path_starts_with target rc)))
       | _ \<Rightarrow> retp False)"

definition tokio_local_fs :: "libs \<Rightarrow> disk local_fs" where
  "tokio_local_fs L =
     \<lparr>lf_list_dir = tokio_list_dir, lf_file_metadata = tokio_file_metadata L,
      lf_read_file = tokio_read_file, lf_write_atomic = tokio_write_atomic,
      lf_create_dir_all = tokio_create_dir_all, lf_remove_file = tokio_remove_file,
      lf_remove_dir = tokio_remove_dir, lf_exists = tokio_exists,
      lf_is_external_symlink = tokio_is_external_symlink,
      lf_std_exists = std_exists, lf_std_canonicalize = std_canonicalize\<rparr>"

section \<open>Disks without symbolic links\<close>

text \<open>
  A plain disk is a tree (every node lies in a directory, under a proper name) without symbolic
  links. On such a disk a path without dots is where its components say.
\<close>

definition is_dir_node :: "node option \<Rightarrow> bool" where
  "is_dir_node n \<longleftrightarrow> (\<exists>t. n = Some (Dir t))"

definition is_link_node :: "node option \<Rightarrow> bool" where
  "is_link_node n \<longleftrightarrow> (\<exists>u t. n = Some (Link u t))"

definition clean :: "string list \<Rightarrow> bool" where
  "clean ks \<longleftrightarrow> (\<forall>w \<in> set ks. seg_ok w \<and> w \<noteq> ''..'' \<and> CHR 0x00 \<notin> set w)"

definition plain :: "disk \<Rightarrow> bool" where
  "plain d \<longleftrightarrow> distinct (map fst (d_nodes d)) \<and>
     (\<forall>k. lookup_node d k \<noteq> None \<longrightarrow>
        clean k \<and> \<not> is_link_node (lookup_node d k) \<and>
        (k \<noteq> [] \<longrightarrow> is_dir_node (lookup_node d (butlast k))))"

lemma lookup_put_node:
  "k \<noteq> [] \<Longrightarrow> lookup_node (put_node k n d) j = (if j = k then Some n else lookup_node d j)"
  by (simp add: lookup_node_def put_node_def map_of_update)

lemma lookup_del_node:
  "k \<noteq> [] \<Longrightarrow> lookup_node (del_node k d) j = (if j = k then None else lookup_node d j)"
  by (simp add: lookup_node_def del_node_def map_of_delete)

lemma lookup_root [simp]: "lookup_node d [] = Some (Dir 0)"
  by (simp add: lookup_node_def)

lemma dir_node_simps [simp]:
  "is_dir_node (Some (Dir t))" "\<not> is_dir_node None" "\<not> is_dir_node (Some (File c t))"
  "\<not> is_dir_node (Some (Link u t))"
  "\<not> is_link_node None" "\<not> is_link_node (Some (Dir t))" "\<not> is_link_node (Some (File c t))"
  "is_link_node (Some (Link u t))"
  by (simp_all add: is_dir_node_def is_link_node_def)

lemma clean_append [simp]: "clean (a @ b) \<longleftrightarrow> clean a \<and> clean b"
  by (auto simp: clean_def)

lemma clean_Nil [simp]: "clean []"
  by (simp add: clean_def)

lemma clean_butlast: "clean k \<Longrightarrow> clean (butlast k)"
  by (auto simp: clean_def dest: in_set_butlastD)

lemma plainD:
  assumes "plain d" and "lookup_node d k = Some n"
  shows "clean k" and "\<not> is_link_node (Some n)"
    and "k \<noteq> [] \<Longrightarrow> is_dir_node (lookup_node d (butlast k))"
  using assms by (auto simp: plain_def)

lemma plain_no_child:
  assumes "plain d" and "\<not> is_dir_node (lookup_node d k)" and "w \<noteq> []"
  shows "lookup_node d (k @ w) = None"
  using assms(3)
proof (induction w rule: rev_induct)
  case (snoc x w)
  have "\<not> is_dir_node (lookup_node d (k @ w))"
    using snoc assms(2) by (cases "w = []") (auto simp: is_dir_node_def)
  then show ?case
    using plainD(3) [OF assms(1), of "k @ w @ [x]"]
    by (cases "lookup_node d (k @ w @ [x])") (auto simp: butlast_append)
qed simp

text \<open>Resolution reaches \<open>at @ cs\<close> exactly when the directories on the way are there.\<close>

definition dirs_ok :: "disk \<Rightarrow> string list \<Rightarrow> string list \<Rightarrow> bool" where
  "dirs_ok d at cs \<longleftrightarrow> (\<forall>i. 0 < i \<longrightarrow> i < length cs \<longrightarrow> is_dir_node (lookup_node d (at @ take i cs)))"

lemma dirs_ok_single [simp]: "dirs_ok d at []" "dirs_ok d at [c]"
  by (auto simp: dirs_ok_def)

lemma dirs_ok_Cons: "cs \<noteq> [] \<Longrightarrow>
   dirs_ok d at (c # cs) \<longleftrightarrow> is_dir_node (lookup_node d (at @ [c])) \<and> dirs_ok d (at @ [c]) cs"
proof -
  assume cs: "cs \<noteq> []"
  have "dirs_ok d at (c # cs) \<longleftrightarrow>
      (\<forall>j. j < length cs \<longrightarrow> is_dir_node (lookup_node d (at @ c # take j cs)))"
    unfolding dirs_ok_def by (auto simp: gr0_conv_Suc)
  also have "\<dots> \<longleftrightarrow> is_dir_node (lookup_node d (at @ [c])) \<and> dirs_ok d (at @ [c]) cs"
  proof -
    have "(\<forall>j. j < length cs \<longrightarrow> P j) \<longleftrightarrow> P 0 \<and> (\<forall>i. 0 < i \<longrightarrow> i < length cs \<longrightarrow> P i)" for P
      using cs by (metis gr0I length_greater_0_conv)
    from this [of "\<lambda>j. is_dir_node (lookup_node d (at @ c # take j cs))"]
    show ?thesis unfolding dirs_ok_def by simp
  qed
  finally show ?thesis .
qed

lemma resolve_plain:
  assumes "plain d" and "clean cs"
  shows "resolve fuel d follow at cs = Inr k \<longleftrightarrow> k = at @ cs \<and> dirs_ok d at cs"
  using assms(2)
proof (induction cs arbitrary: at)
  case Nil
  then show ?case by auto
next
  case (Cons c cs)
  then have c: "c \<noteq> ''.''" "c \<noteq> ''..''" and cs: "clean cs" by (auto simp: clean_def seg_ok_def)
  show ?case
  proof (cases "lookup_node d (at @ [c])")
    case None
    with c show ?thesis by (cases "cs = []") (auto simp: dirs_ok_Cons)
  next
    case (Some n)
    show ?thesis
    proof (cases n)
      case (File x t)
      with Some c show ?thesis by (cases "cs = []") (auto simp: dirs_ok_Cons)
    next
      case (Dir t)
      with Some c Cons.IH [OF cs, of "at @ [c]"] show ?thesis
        by (cases "cs = []") (auto simp: dirs_ok_Cons)
    next
      case (Link u t)
      with Some plainD(2) [OF assms(1)] show ?thesis by fastforce
    qed
  qed
qed

lemma dirs_of_node:
  assumes "plain d" and "lookup_node d (at @ cs) \<noteq> None"
  shows "dirs_ok d at cs"
  unfolding dirs_ok_def
proof (intro allI impI)
  fix i assume i: "0 < i" "i < length cs"
  show "is_dir_node (lookup_node d (at @ take i cs))"
  proof (rule ccontr)
    assume "\<not> is_dir_node (lookup_node d (at @ take i cs))"
    then have "lookup_node d ((at @ take i cs) @ drop i cs) = None"
      using i by (intro plain_no_child [OF assms(1)]) auto
    with assms(2) show False by simp
  qed
qed

lemma dirs_parent:
  assumes "dirs_ok d [] k" and "k \<noteq> []"
  shows "is_dir_node (lookup_node d (butlast k))"
proof (cases "butlast k = []")
  case True
  then show ?thesis by simp
next
  case False
  then have "0 < length (butlast k)" by blast
  then have "0 < length k - 1" and "length k - 1 < length k" by simp_all
  with assms(1) show ?thesis unfolding dirs_ok_def by (metis append_Nil butlast_conv_take)
qed

lemma locate_plain:
  "plain d \<Longrightarrow> clean (p_segs p) \<Longrightarrow> locate d follow p = Inr k \<longleftrightarrow> k = p_segs p \<and> dirs_ok d [] (p_segs p)"
  by (auto simp: locate_def resolve_plain has_nul_def list_ex_iff clean_def)

lemma find_node_plain:
  assumes "plain d" and "clean (p_segs p)"
  shows "find_node d follow p = Inr (k, n) \<longleftrightarrow> k = p_segs p \<and> lookup_node d (p_segs p) = Some n"
proof (cases "locate d follow p")
  case (Inl e)
  have "\<not> dirs_ok d [] (p_segs p)"
    using Inl locate_plain [OF assms, of follow "p_segs p"] by auto
  then have "lookup_node d (p_segs p) = None"
    using dirs_of_node [OF assms(1), of "[]" "p_segs p"]
    by (cases "lookup_node d (p_segs p)") auto
  with Inl show ?thesis by (simp add: find_node_def)
next
  case (Inr j)
  then show ?thesis
    using locate_plain [OF assms, of follow j] by (auto simp: find_node_def split: option.splits)
qed

lemma plain_put:
  assumes "plain d" and "clean k" and "k \<noteq> []" and "is_dir_node (lookup_node d (butlast k))"
    and "\<not> is_dir_node (lookup_node d k)" and "\<not> is_link_node (Some n)"
  shows "plain (put_node k n d)"
proof -
  have neq: "butlast k \<noteq> k" using assms(3) by (metis append_butlast_last_id append_self_conv list.distinct(1))
  have child: "lookup_node d j = None" if "j \<noteq> []" "butlast j = k" for j
    using plain_no_child [OF assms(1,5), of "[last j]"] that by (metis append_butlast_last_id list.distinct(1))
  have "distinct (map fst (d_nodes (put_node k n d)))"
    using assms(1) by (simp add: plain_def put_node_def)
  moreover have "clean j \<and> \<not> is_link_node (lookup_node (put_node k n d) j) \<and>
      (j \<noteq> [] \<longrightarrow> is_dir_node (lookup_node (put_node k n d) (butlast j)))"
    if "lookup_node (put_node k n d) j \<noteq> None" for j
    using that assms child [of j] neq plainD [OF assms(1), of j]
    by (auto simp: lookup_put_node [OF assms(3)] split: if_splits)
  ultimately show ?thesis by (simp add: plain_def)
qed

lemma plain_del:
  assumes "plain d" and "k \<noteq> []" and "\<not> is_dir_node (lookup_node d k)"
  shows "plain (del_node k d)"
proof -
  have child: "lookup_node d j = None" if "j \<noteq> []" "butlast j = k" for j
    using plain_no_child [OF assms(1,3), of "[last j]"] that by (metis append_butlast_last_id list.distinct(1))
  have "distinct (map fst (d_nodes (del_node k d)))"
    using assms(1) by (simp add: plain_def del_node_def)
  moreover have "clean j \<and> \<not> is_link_node (lookup_node (del_node k d) j) \<and>
      (j \<noteq> [] \<longrightarrow> is_dir_node (lookup_node (del_node k d) (butlast j)))"
    if "lookup_node (del_node k d) j \<noteq> None" for j
    using that assms child [of j] plainD [OF assms(1), of j]
    by (auto simp: lookup_del_node [OF assms(2)] split: if_splits)
  ultimately show ?thesis by (simp add: plain_def)
qed

text \<open>What the files of a disk contain.\<close>

definition contents :: "disk \<Rightarrow> string list \<Rightarrow> string option" where
  "contents d k = (case lookup_node d k of Some (File c _) \<Rightarrow> Some c | _ \<Rightarrow> None)"

lemma contents_put:
  "k \<noteq> [] \<Longrightarrow> contents (put_node k n d) = (contents d)(k := (case n of File c _ \<Rightarrow> Some c | _ \<Rightarrow> None))"
  by (rule ext) (auto simp: contents_def lookup_put_node split: node.splits)

lemma contents_del: "k \<noteq> [] \<Longrightarrow> contents (del_node k d) = (contents d)(k := None)"
  by (rule ext) (auto simp: contents_def lookup_del_node)

lemma contents_not_dir: "contents d k = Some c \<Longrightarrow> \<not> is_dir_node (lookup_node d k) \<and> k \<noteq> []"
  by (auto simp: contents_def is_dir_node_def split: option.splits node.splits)

lemma std_mkdir_plain:
  assumes "plain d" and "clean (p_segs p)" and "std_mkdir p d = (r, d')"
  shows "plain d' \<and> contents d' = contents d"
proof (cases "locate d False p")
  case (Inl e)
  with assms show ?thesis by (simp add: std_mkdir_def)
next
  case (Inr k)
  then have k: "k = p_segs p" "dirs_ok d [] k" using locate_plain [OF assms(1,2)] by auto
  show ?thesis
  proof (cases "lookup_node d k")
    case (Some n)
    with Inr assms show ?thesis by (simp add: std_mkdir_def)
  next
    case None
    then have kne: "k \<noteq> []" by (auto simp: lookup_node_def)
    have d': "d' = put_node k (Dir (d_now d)) d" using None Inr assms(3) by (simp add: std_mkdir_def)
    have "contents d k = None" using None by (simp add: contents_def)
    then show ?thesis
      using plain_put [OF assms(1) _ kne dirs_parent [OF k(2) kne]] None k assms(2) kne
      by (simp add: d' contents_put fun_upd_idem)
  qed
qed

lemma std_create_dir_all_plain:
  assumes "plain d" and "clean (p_segs p)" and "std_create_dir_all p d = (r, d')"
  shows "plain d' \<and> contents d' = contents d"
  using assms
proof (induction p d arbitrary: r d' rule: std_create_dir_all.induct)
  case (1 p d)
  let ?q = "p\<lparr>p_segs := butlast (p_segs p)\<rparr>"
  show ?case
  proof (cases "p_segs p = [] \<and> \<not> p_abs p")
    case True
    with "1.prems" show ?thesis by (subst (asm) std_create_dir_all.simps) simp
  next
    case False
    obtain r1 d1 where m: "std_mkdir p d = (r1, d1)" by (cases "std_mkdir p d")
    have d1: "plain d1 \<and> contents d1 = contents d"
      using std_mkdir_plain [OF "1.prems"(1,2) m] .
    show ?thesis
    proof (cases "\<exists>e. r1 = Inl e \<and> io_kind e = NotFound \<and> p_segs p \<noteq> []")
      case False
      then have "d' = d1"
        using "1.prems"(3) m \<open>\<not> (p_segs p = [] \<and> \<not> p_abs p)\<close>
        by (subst (asm) std_create_dir_all.simps) (auto split: sum.splits if_splits)
      with d1 show ?thesis by simp
    next
      case True
      then obtain e where e: "r1 = Inl e" "io_kind e = NotFound" "p_segs p \<noteq> []" by blast
      obtain r2 d2 where c: "std_create_dir_all ?q d1 = (r2, d2)" by (cases "std_create_dir_all ?q d1")
      have d2: "plain d2 \<and> contents d2 = contents d"
        using "1.IH" [OF False m [symmetric] e(1,2,3), of r2 d2] d1 c "1.prems"(2)
        by (simp add: clean_butlast)
      obtain r3 d3 where m3: "std_mkdir p d2 = (r3, d3)" by (cases "std_mkdir p d2")
      have d3: "plain d3 \<and> contents d3 = contents d"
        using std_mkdir_plain [OF _ "1.prems"(2) m3] d2 by simp
      have "d' = d2 \<or> d' = d3"
        using "1.prems"(3) m e c m3 False
        by (subst (asm) std_create_dir_all.simps) (auto split: sum.splits if_splits)
      with d2 d3 show ?thesis by auto
    qed
  qed
qed

section \<open>What the engine needs of a file store\<close>

text \<open>
  Files by key, read and written whole. A write goes through a temporary key; when it succeeds the
  file holds the new content, and of the other files only the one under the temporary key may be
  lost. When it fails, no file but the temporary one has changed. \<open>ok\<close> are the relative paths the
  laws cover.
\<close>

locale file_store =
  fixes read :: "string \<Rightarrow> ('d, 'e, string) proc"
    and write_file :: "string \<Rightarrow> string \<Rightarrow> ('d, 'e, unit) proc"
    and remove_file :: "string \<Rightarrow> ('d, 'e, unit) proc"
    and view :: "'d \<Rightarrow> string list \<Rightarrow> string option"
    and wf :: "'d \<Rightarrow> bool"
    and key :: "string \<Rightarrow> string list"
    and tmp :: "string list \<Rightarrow> string list"
    and ok :: "string \<Rightarrow> bool"
  assumes read_pure: "snd (read r d) = d"
    and read_view: "wf d \<Longrightarrow> ok r \<Longrightarrow> fst (read r d) = Inr c \<longleftrightarrow> view d (key r) = Some c"
    and write_wf: "wf d \<Longrightarrow> ok r \<Longrightarrow> wf (snd (write_file r c d))"
    and write_view: "wf d \<Longrightarrow> ok r \<Longrightarrow> write_file r c d = (Inr (), d') \<Longrightarrow>
      view d' = (view d)(tmp (key r) := None, key r := Some c)"
    and write_fail: "wf d \<Longrightarrow> ok r \<Longrightarrow> write_file r c d = (Inl e, d') \<Longrightarrow> k \<noteq> tmp (key r) \<Longrightarrow>
      view d' k = view d k"
    and remove_wf: "wf d \<Longrightarrow> ok r \<Longrightarrow> wf (snd (remove_file r d))"
    and remove_view: "wf d \<Longrightarrow> ok r \<Longrightarrow> remove_file r d = (Inr (), d') \<Longrightarrow>
      view d' = (view d)(key r := None)"
    and remove_fail: "remove_file r d = (Inl e, d') \<Longrightarrow> d' = d"
begin

lemma write_wf': "wf d \<Longrightarrow> ok r \<Longrightarrow> write_file r c d = (x, d') \<Longrightarrow> wf d'"
  using write_wf [of d r c] by simp

lemma remove_wf': "wf d \<Longrightarrow> ok r \<Longrightarrow> remove_file r d = (x, d') \<Longrightarrow> wf d'"
  using remove_wf [of d r] by simp

lemma read_view': "wf d \<Longrightarrow> ok r \<Longrightarrow> read r d = (Inr c, d') \<Longrightarrow> view d (key r) = Some c \<and> d' = d"
  using read_view [of d r c] read_pure [of r d] by simp

lemma write_read:
  assumes "wf d" and "ok r" and "write_file r c d = (Inr (), d')"
  shows "read r d' = (Inr c, d')"
  using read_view [OF write_wf' [OF assms] assms(2), of c] write_view [OF assms] read_pure [of r d']
  by (metis fun_upd_same prod.collapse)

text \<open>A file that is neither the written one nor its temporary keeps its content, come what may.\<close>

lemma write_frame:
  assumes "wf d" and "ok r" and "write_file r c d = (x, d')" and "k \<noteq> key r" and "k \<noteq> tmp (key r)"
  shows "view d' k = view d k"
proof (cases x)
  case (Inl e)
  with assms show ?thesis using write_fail by blast
next
  case (Inr u)
  with assms show ?thesis using write_view [OF assms(1,2), of c d'] by simp
qed

text \<open>
  Saving a copy of a file and then overwriting the file: once the copy is written it survives the
  second write, also when that write fails; and when it succeeds, both contents are there.
\<close>

lemma copy_then_overwrite:
  assumes "wf d" and "ok r" and "ok r'" and "key r' \<noteq> key r" and "key r' \<noteq> tmp (key r)"
    and "read r d = (Inr old, d)" and "write_file r' old d = (Inr (), d1)"
    and "write_file r new d1 = (x, d2)"
  shows "read r' d2 = (Inr old, d2) \<and> (x = Inr () \<longrightarrow> read r d2 = (Inr new, d2))"
proof -
  have wf1: "wf d1" using write_wf' assms(1,3,7) by blast
  have wf2: "wf d2" using write_wf' wf1 assms(2,8) by blast
  have "view d1 (key r') = Some old" using write_view [OF assms(1,3,7)] by simp
  then have "view d2 (key r') = Some old"
    using write_frame [OF wf1 assms(2,8,4,5)] by simp
  then have "read r' d2 = (Inr old, d2)"
    using read_view [OF wf2 assms(3)] read_pure by (metis prod.collapse)
  moreover have "read r d2 = (Inr new, d2)" if "x = Inr ()"
    using write_read [OF wf1 assms(2)] assms(8) that by blast
  ultimately show ?thesis by blast
qed

end

section \<open>TokioLocalFs is a file store on plain disks\<close>

definition rel_ok :: "string \<Rightarrow> bool" where
  "rel_ok r \<longleftrightarrow> r \<noteq> [] \<and> path_segs_of r \<noteq> [] \<and> \<not> starts_with r ''/'' \<and> clean (path_segs_of r)"

definition file_key :: "path \<Rightarrow> string \<Rightarrow> string list" where
  "file_key root r = p_segs root @ path_segs_of r"

definition tmp_key :: "string list \<Rightarrow> string list" where
  "tmp_key k = butlast k @ [name_stem (last k) @ ''.gds_tmp'']"

definition root_ok :: "path \<Rightarrow> bool" where
  "root_ok root \<longleftrightarrow> p_abs root \<and> clean (p_segs root)"

lemma join_rel:
  "root_ok root \<Longrightarrow> rel_ok r \<Longrightarrow>
   path_join root r = \<lparr>p_abs = True, p_segs = file_key root r\<rparr>"
  by (simp add: path_join_def rel_ok_def root_ok_def file_key_def)

lemma file_key_clean: "root_ok root \<Longrightarrow> rel_ok r \<Longrightarrow> clean (file_key root r)"
  by (simp add: root_ok_def rel_ok_def file_key_def)

lemma file_key_ne: "rel_ok r \<Longrightarrow> file_key root r \<noteq> []"
  by (simp add: rel_ok_def file_key_def)

lemma last_ok: "clean k \<Longrightarrow> k \<noteq> [] \<Longrightarrow> seg_ok (last k) \<and> last k \<noteq> ''..'' \<and> CHR 0x00 \<notin> set (last k)"
  by (simp add: clean_def)

lemma tmp_of_path:
  assumes "clean k" and "k \<noteq> []"
  shows "with_extension \<lparr>p_abs = True, p_segs = k\<rparr> ''gds_tmp'' = \<lparr>p_abs = True, p_segs = tmp_key k\<rparr>"
  using last_ok [OF assms] assms
  by (simp add: with_extension_def file_stem_def file_name_def Let_def tmp_key_def seg_ok_def)

lemma clean_tmp_key:
  assumes "clean k" and "k \<noteq> []"
  shows "clean (tmp_key k)"
proof -
  have "set (name_stem (last k)) \<subseteq> set (last k)" by (rule name_stem_subset)
  then have "CHR ''/'' \<notin> set (name_stem (last k))" "CHR 0x00 \<notin> set (name_stem (last k))"
    using last_ok [OF assms] by (auto simp: seg_ok_def)
  moreover have "name_stem (last k) @ ''.gds_tmp'' \<noteq> ''.''" "name_stem (last k) @ ''.gds_tmp'' \<noteq> ''..''"
    by (auto simp: append_eq_Cons_conv)
  ultimately show ?thesis
    using clean_butlast [OF assms(1)] by (simp add: tmp_key_def) (simp add: clean_def seg_ok_def)
qed

lemma tmp_key_ne: "tmp_key k \<noteq> []" and butlast_tmp_key [simp]: "butlast (tmp_key k) = butlast k"
  by (simp_all add: tmp_key_def)

lemma std_read_plain:
  assumes "plain d" and "clean (p_segs p)"
  shows "fst (std_read p d) = Inr c \<longleftrightarrow> contents d (p_segs p) = Some c"
proof (cases "find_node d True p")
  case (Inl e)
  then have "lookup_node d (p_segs p) = None"
    using find_node_plain [OF assms, of True] by (cases "lookup_node d (p_segs p)") auto
  with Inl show ?thesis by (simp add: std_read_def contents_def)
next
  case (Inr kn)
  obtain k n where kn: "kn = (k, n)" by (cases kn)
  with Inr have "lookup_node d (p_segs p) = Some n" using find_node_plain [OF assms] by blast
  with Inr kn show ?thesis by (auto simp: std_read_def contents_def split: node.splits)
qed

lemma std_write_plain:
  assumes "plain d" and "clean (p_segs p)" and "p_segs p \<noteq> []"
  shows "plain (snd (std_write p c d)) \<and>
    (case std_write p c d of
       (Inl e, d') \<Rightarrow> d' = d
     | (Inr _, d') \<Rightarrow> lookup_node d' (p_segs p) = Some (File c (d_now d)) \<and>
         contents d' = (contents d)(p_segs p := Some c))"
proof (cases "locate d True p")
  case (Inl e)
  with assms show ?thesis by (simp add: std_write_def)
next
  case (Inr k)
  then have k: "k = p_segs p" "dirs_ok d [] k" using locate_plain [OF assms(1,2)] by auto
  show ?thesis
  proof (cases "is_dir_node (lookup_node d k)")
    case True
    with Inr assms show ?thesis by (auto simp: std_write_def is_dir_node_def)
  next
    case False
    then have w: "std_write p c d = (Inr (), put_node k (File c (d_now d)) d)"
      using Inr by (auto simp: std_write_def is_dir_node_def split: option.splits node.splits)
    have "plain (put_node k (File c (d_now d)) d)"
      using plain_put [OF assms(1) _ _ dirs_parent [OF k(2)] False] k assms by simp
    with w k assms(3) show ?thesis by (simp add: lookup_put_node contents_put)
  qed
qed

lemma std_rename_plain:
  assumes "plain d" and "clean (p_segs a)" and "clean (p_segs b)" and "p_segs b \<noteq> []"
    and "lookup_node d (p_segs a) = Some (File c t)" and "butlast (p_segs a) = butlast (p_segs b)"
  shows "plain (snd (std_rename a b d)) \<and>
    (case std_rename a b d of
       (Inl e, d') \<Rightarrow> d' = d
     | (Inr _, d') \<Rightarrow> contents d' = (contents d)(p_segs a := None, p_segs b := Some c))"
proof -
  have a: "find_node d False a = Inr (p_segs a, File c t)"
    using find_node_plain [OF assms(1,2)] assms(5) by blast
  have ane: "p_segs a \<noteq> []" using assms(5) by (auto simp: lookup_node_def)
  show ?thesis
  proof (cases "locate d False b")
    case (Inl e)
    with a assms(1) show ?thesis by (simp add: std_rename_def)
  next
    case (Inr k)
    then have k: "k = p_segs b" "dirs_ok d [] k" using locate_plain [OF assms(1,3)] by auto
    show ?thesis
    proof (cases "is_dir_node (lookup_node d k)")
      case True
      with Inr a assms(1) show ?thesis by (auto simp: std_rename_def is_dir_node_def)
    next
      case False
      then have r: "std_rename a b d =
          (Inr (), if p_segs a = k then d else put_node k (File c t) (del_node (p_segs a) d))"
        using Inr a by (auto simp: std_rename_def is_dir_node_def split: option.splits node.splits)
      show ?thesis
      proof (cases "p_segs a = k")
        case True
        with r k assms(1,5) show ?thesis by (auto simp: contents_def fun_eq_iff)
      next
        case neq: False
        have pd: "plain (del_node (p_segs a) d)"
          using plain_del [OF assms(1) ane] assms(5) by simp
        have par: "is_dir_node (lookup_node d (butlast k))"
          using dirs_parent k assms(4) by simp
        have "butlast k \<noteq> p_segs a"
          using par assms(5) by auto
        then have "plain (put_node k (File c t) (del_node (p_segs a) d))"
          using plain_put [OF pd, of k "File c t"] k assms(3,4) par False ane
          by (simp add: lookup_del_node)
        with r neq k assms(4) ane show ?thesis by (simp add: contents_put contents_del)
      qed
    qed
  qed
qed

lemma at_path_simp: "at_path p m d = (case m d of (Inl e, d') \<Rightarrow> (Inl (IoError (path_show p) e), d') | (Inr x, d') \<Rightarrow> (Inr x, d'))"
  by (simp add: at_path_def map_errp_def)

lemma tokio_write_plain:
  assumes "root_ok root" and "rel_ok r" and "plain d" and "tokio_write_atomic root r c d = (x, d')"
  defines "k \<equiv> file_key root r"
  shows "plain d' \<and>
    (case x of
       Inl e \<Rightarrow> \<forall>j. j \<noteq> tmp_key k \<longrightarrow> contents d' j = contents d j
     | Inr _ \<Rightarrow> contents d' = (contents d)(tmp_key k := None, k := Some c))"
proof -
  have kc: "clean k" and kne: "k \<noteq> []"
    using file_key_clean file_key_ne assms(1,2) by (auto simp: k_def)
  let ?p = "\<lparr>p_abs = True, p_segs = k\<rparr>" and ?t = "\<lparr>p_abs = True, p_segs = tmp_key k\<rparr>"
  let ?q = "\<lparr>p_abs = True, p_segs = butlast k\<rparr>"
  have run: "tokio_write_atomic root r c d =
      seqp (at_path ?q (std_create_dir_all ?q)) (\<lambda>_.
        seqp (at_path ?t (std_write ?t c)) (\<lambda>_. at_path ?p (std_rename ?t ?p))) d"
    using kne by (simp add: tokio_write_atomic_def Let_def join_rel [OF assms(1,2)] k_def [symmetric]
        tmp_of_path [OF kc kne] path_parent_def)
  obtain x1 d1 where c1: "std_create_dir_all ?q d = (x1, d1)" by (cases "std_create_dir_all ?q d")
  have d1: "plain d1" "contents d1 = contents d"
    using std_create_dir_all_plain [OF assms(3) _ c1] kc by (simp_all add: clean_butlast)
  obtain x2 d2 where c2: "std_write ?t c d1 = (x2, d2)" by (cases "std_write ?t c d1")
  have t: "clean (tmp_key k)" "tmp_key k \<noteq> []"
    using clean_tmp_key [OF kc kne] tmp_key_ne by auto
  have d2: "plain d2" "case x2 of Inl e \<Rightarrow> d2 = d1
      | Inr _ \<Rightarrow> lookup_node d2 (tmp_key k) = Some (File c (d_now d1)) \<and>
          contents d2 = (contents d1)(tmp_key k := Some c)"
    using std_write_plain [OF d1(1), of ?t c] t c2 by (auto split: sum.splits)
  obtain x3 d3 where c3: "std_rename ?t ?p d2 = (x3, d3)" by (cases "std_rename ?t ?p d2")
  have d3: "plain d3 \<and> (case x3 of Inl e \<Rightarrow> d3 = d2
      | Inr _ \<Rightarrow> contents d3 = (contents d2)(tmp_key k := None, k := Some c))" if "x2 = Inr ()"
    using std_rename_plain [OF d2(1), of ?t ?p c "d_now d1"] d2(2) that t kc kne c3
    by (auto split: sum.splits)
  show ?thesis
    using assms(4) c1 c2 c3 d1 d2 d3
    unfolding run by (auto simp: seqp_def at_path_simp split: sum.splits)
qed

lemma tokio_remove_plain:
  assumes "root_ok root" and "rel_ok r" and "plain d" and "tokio_remove_file root r d = (x, d')"
  shows "plain d' \<and> (case x of Inl e \<Rightarrow> d' = d
     | Inr _ \<Rightarrow> contents d' = (contents d)(file_key root r := None))"
proof -
  let ?k = "file_key root r"
  have kc: "clean ?k" and kne: "?k \<noteq> []"
    using file_key_clean file_key_ne assms(1,2) by auto
  have run: "tokio_remove_file root r = at_path \<lparr>p_abs = True, p_segs = ?k\<rparr>
      (std_remove_file \<lparr>p_abs = True, p_segs = ?k\<rparr>)"
    by (simp add: tokio_remove_file_def Let_def join_rel [OF assms(1,2)])
  show ?thesis
  proof (cases "find_node d False \<lparr>p_abs = True, p_segs = ?k\<rparr>")
    case (Inl e)
    with assms(3,4) run show ?thesis by (auto simp: at_path_simp std_remove_file_def)
  next
    case (Inr kn)
    then obtain n where kn: "kn = (?k, n)" and n: "lookup_node d ?k = Some n"
      using find_node_plain [OF assms(3), of "\<lparr>p_abs = True, p_segs = ?k\<rparr>"] kc
      by (cases kn) auto
    show ?thesis
      using assms(3,4) run Inr kn n plain_del [OF assms(3) kne] contents_del [OF kne]
      by (auto simp: at_path_simp std_remove_file_def split: node.splits)
  qed
qed

interpretation tokio: file_store
  "tokio_read_file root" "tokio_write_atomic root" "tokio_remove_file root"
  contents "\<lambda>d. root_ok root \<and> plain d" "file_key root" tmp_key rel_ok for root
proof unfold_locales
  show pure: "snd (tokio_read_file root r d) = d" for r d
    by (auto simp: tokio_read_file_def at_path_simp std_read_def Let_def split: sum.splits node.splits)
  fix d r c
  assume d: "root_ok root \<and> plain d" and r: "rel_ok r"
  let ?p = "\<lparr>p_abs = True, p_segs = file_key root r\<rparr>"
  have "fst (std_read ?p d) = Inr c \<longleftrightarrow> contents d (file_key root r) = Some c"
    using std_read_plain [of d ?p c] d r by (simp add: file_key_clean)
  moreover have "fst (tokio_read_file root r d) = Inr c \<longleftrightarrow> fst (std_read ?p d) = Inr c"
    using d r by (auto simp: tokio_read_file_def Let_def join_rel at_path_simp split: prod.splits sum.splits)
  ultimately show "fst (tokio_read_file root r d) = Inr c \<longleftrightarrow> contents d (file_key root r) = Some c"
    by simp
next
  fix d r c
  assume "root_ok root \<and> plain d" and "rel_ok r"
  then show "root_ok root \<and> plain (snd (tokio_write_atomic root r c d))"
    using tokio_write_plain [of root r d c] by (metis prod.collapse)
next
  fix d r c d'
  assume "root_ok root \<and> plain d" and "rel_ok r" and "tokio_write_atomic root r c d = (Inr (), d')"
  then show "contents d' = (contents d)(tmp_key (file_key root r) := None, file_key root r := Some c)"
    using tokio_write_plain [of root r d c "Inr ()" d'] by simp
next
  fix d r c e d' k
  assume "root_ok root \<and> plain d" and "rel_ok r" and "tokio_write_atomic root r c d = (Inl e, d')"
    and "k \<noteq> tmp_key (file_key root r)"
  then show "contents d' k = contents d k"
    using tokio_write_plain [of root r d c "Inl e" d'] by simp
next
  fix d r
  assume "root_ok root \<and> plain d" and "rel_ok r"
  then show "root_ok root \<and> plain (snd (tokio_remove_file root r d))"
    using tokio_remove_plain [of root r d] by (metis prod.collapse)
next
  fix d r d'
  assume "root_ok root \<and> plain d" and "rel_ok r" and "tokio_remove_file root r d = (Inr (), d')"
  then show "contents d' = (contents d)(file_key root r := None)"
    using tokio_remove_plain [of root r d "Inr ()" d'] by simp
next
  fix r d e d'
  assume "tokio_remove_file root r d = (Inl e, d')"
  then show "d' = d"
    by (auto simp: tokio_remove_file_def at_path_simp std_remove_file_def Let_def
        split: sum.splits node.splits)
qed

section \<open>Directory listings\<close>

lemma at_path_askp: "at_path p (askp f) d = (case f d of Inl e \<Rightarrow> (Inl (IoError (path_show p) e), d) | Inr x \<Rightarrow> (Inr x, d))"
  by (simp add: at_path_simp askp_def split: sum.splits)

lemma list_entry_spec:
  assumes "list_entry rc dir name d = (Inr e, d')"
  defines "full \<equiv> \<lparr>p_abs = p_abs dir, p_segs = p_segs dir @ [name]\<rparr>"
  shows "d' = d \<and> (\<forall>x. e = Some x \<longrightarrow> de_name x = name \<and> name \<noteq> ''.gds_tmp'' \<and>
    (\<exists>n. std_symlink_metadata d full = Inr n \<and> (de_is_dir x \<longleftrightarrow> is_dir_node (Some n)) \<and>
       (\<forall>u t. n = Link u t \<longrightarrow> (\<exists>v. std_read_link d full = Inr v \<and> path_starts_with v rc))))"
  using assms(1)
  by (auto simp: list_entry_def Let_def seqp_def at_path_askp retp_def full_def [symmetric]
      split: if_splits sum.splits node.splits)

lemma list_entries_spec:
  assumes "list_entries rc dir names d = (Inr es, d')"
  shows "d' = d \<and> (\<forall>x \<in> set es. \<exists>n. de_name x \<in> set names \<and> de_name x \<noteq> ''.gds_tmp'' \<and>
      std_symlink_metadata d \<lparr>p_abs = p_abs dir, p_segs = p_segs dir @ [de_name x]\<rparr> = Inr n \<and>
      (de_is_dir x \<longleftrightarrow> is_dir_node (Some n)) \<and>
      (\<forall>u t. n = Link u t \<longrightarrow>
        (\<exists>v. std_read_link d \<lparr>p_abs = p_abs dir, p_segs = p_segs dir @ [de_name x]\<rparr> = Inr v \<and>
             path_starts_with v rc))) \<and>
    (distinct names \<longrightarrow> distinct (map de_name es))"
  using assms
proof (induction names arbitrary: es d')
  case Nil
  then show ?case by (simp add: retp_def)
next
  case (Cons name names)
  then obtain e d1 where e: "list_entry rc dir name d = (Inr e, d1)"
    and rest: "seqp (list_entries rc dir names) (\<lambda>es. retp (case e of None \<Rightarrow> es | Some x \<Rightarrow> x # es)) d1 =
      (Inr es, d')"
    by (auto elim: seqp_InrE)
  note ent = list_entry_spec [OF e]
  then have "d1 = d" by blast
  with rest obtain es' where es': "list_entries rc dir names d = (Inr es', d')"
    and es: "es = (case e of None \<Rightarrow> es' | Some x \<Rightarrow> x # es')"
    by (auto simp: retp_def elim!: seqp_InrE)
  note IH = Cons.IH [OF es']
  have "set (map de_name es') \<subseteq> set names" using IH by auto
  with IH ent es show ?case by (cases e) auto
qed

text \<open>The directory that a relative path names; the empty path names the root.\<close>

definition dir_key :: "path \<Rightarrow> string \<Rightarrow> string list" where
  "dir_key root r = (if r = [] then p_segs root else file_key root r)"

definition dir_rel_ok :: "string \<Rightarrow> bool" where
  "dir_rel_ok r \<longleftrightarrow> r = [] \<or> rel_ok r"

lemma dir_key_clean: "root_ok root \<Longrightarrow> dir_rel_ok r \<Longrightarrow> clean (dir_key root r)"
  by (cases "r = []") (auto simp: dir_key_def dir_rel_ok_def file_key_clean root_ok_def)

lemma dir_path: "root_ok root \<Longrightarrow> dir_rel_ok r \<Longrightarrow>
   (if r = [] then root else path_join root r) = \<lparr>p_abs = True, p_segs = dir_key root r\<rparr>"
  by (cases root) (auto simp: dir_key_def dir_rel_ok_def join_rel, auto simp: root_ok_def)

text \<open>The children of a directory, as names.\<close>

definition child_names :: "disk \<Rightarrow> string list \<Rightarrow> string list" where
  "child_names d k = map last (filter (\<lambda>j. j \<noteq> [] \<and> butlast j = k) (map fst (d_nodes d)))"

lemma child_names_iff: "w \<in> set (child_names d k) \<longleftrightarrow> lookup_node d (k @ [w]) \<noteq> None"
proof
  assume "w \<in> set (child_names d k)"
  then obtain j where "j \<in> fst ` set (d_nodes d)" "j \<noteq> []" "butlast j = k" "last j = w"
    unfolding child_names_def by (simp add: image_iff Bex_def) blast
  then have "k @ [w] \<in> fst ` set (d_nodes d)" by (metis append_butlast_last_id)
  then show "lookup_node d (k @ [w]) \<noteq> None" by (simp add: lookup_node_def map_of_eq_None_iff)
next
  assume "lookup_node d (k @ [w]) \<noteq> None"
  then have "k @ [w] \<in> fst ` set (d_nodes d)" by (simp add: lookup_node_def map_of_eq_None_iff)
  then have "k @ [w] \<in> set (filter (\<lambda>j. j \<noteq> [] \<and> butlast j = k) (map fst (d_nodes d)))" by simp
  then have "last (k @ [w]) \<in> set (child_names d k)"
    unfolding child_names_def set_map by (rule imageI)
  then show "w \<in> set (child_names d k)" by simp
qed

lemma distinct_child_names:
  assumes "distinct (map fst (d_nodes d))"
  shows "distinct (child_names d k)"
proof -
  have "inj_on last {j. j \<noteq> [] \<and> butlast j = k}"
    by (rule inj_onI) (metis (mono_tags, lifting) append_butlast_last_id mem_Collect_eq)
  then have "inj_on last (set (filter (\<lambda>j. j \<noteq> [] \<and> butlast j = k) (map fst (d_nodes d))))"
    by (rule inj_on_subset) auto
  with assms show ?thesis by (simp add: child_names_def distinct_map)
qed

lemma tokio_list_dir_plain:
  assumes "root_ok root" and "dir_rel_ok r" and "plain d"
    and "tokio_list_dir root r d = (Inr es, d')"
  shows "d' = d \<and> distinct (map de_name es) \<and>
    (\<forall>e \<in> set es. seg_ok (de_name e) \<and> de_name e \<noteq> ''..'' \<and> de_name e \<noteq> ''.gds_tmp'' \<and>
       lookup_node d (dir_key root r @ [de_name e]) \<noteq> None \<and>
       (de_is_dir e \<longleftrightarrow> is_dir_node (lookup_node d (dir_key root r @ [de_name e]))))"
proof -
  let ?k = "dir_key root r" and ?p = "\<lparr>p_abs = True, p_segs = dir_key root r\<rparr>"
  from assms(4) obtain names rc where names: "std_read_dir d ?p = Inr names"
    and es: "list_entries rc ?p names d = (Inr es, d')"
    by (auto simp: tokio_list_dir_def Let_def dir_path [OF assms(1,2)] seqp_def at_path_askp
        split: sum.splits)
  have kc: "clean ?k" by (rule dir_key_clean [OF assms(1,2)])
  obtain n where fn: "find_node d True ?p = Inr (?k, n)"
    using names find_node_plain [OF assms(3), of ?p True] kc
    by (auto simp: std_read_dir_def split: sum.splits node.splits)
  then have nm: "names = child_names d ?k"
    using names by (auto simp: std_read_dir_def child_names_def split: node.splits)
  have dn: "distinct names"
    using assms(3) distinct_child_names nm by (auto simp: plain_def)
  note spec = list_entries_spec [OF es]
  have "seg_ok (de_name e) \<and> de_name e \<noteq> ''..'' \<and> de_name e \<noteq> ''.gds_tmp'' \<and>
       lookup_node d (?k @ [de_name e]) \<noteq> None \<and>
       (de_is_dir e \<longleftrightarrow> is_dir_node (lookup_node d (?k @ [de_name e])))" if e: "e \<in> set es" for e
  proof -
    obtain n where n: "de_name e \<in> set names" "de_name e \<noteq> ''.gds_tmp''"
      "std_symlink_metadata d \<lparr>p_abs = True, p_segs = ?k @ [de_name e]\<rparr> = Inr n"
      "de_is_dir e \<longleftrightarrow> is_dir_node (Some n)"
      using spec e by fastforce
    then have l: "lookup_node d (?k @ [de_name e]) \<noteq> None" by (simp add: nm child_names_iff)
    then obtain n' where n': "lookup_node d (?k @ [de_name e]) = Some n'" by blast
    then have c: "clean (?k @ [de_name e])" using plainD(1) [OF assms(3)] by blast
    have "find_node d False \<lparr>p_abs = True, p_segs = ?k @ [de_name e]\<rparr> = Inr (?k @ [de_name e], n')"
      using find_node_plain [OF assms(3), of "\<lparr>p_abs = True, p_segs = ?k @ [de_name e]\<rparr>"] c n' by simp
    then have "n' = n" using n(3) by (simp add: std_symlink_metadata_def)
    with n n' c show ?thesis by (auto simp: clean_def)
  qed
  with spec dn show ?thesis by blast
qed

section \<open>Properties\<close>

text \<open>
  Listing a directory changes nothing, never yields \<open>.gds_tmp\<close>, marks as directories exactly
  the real directories (a link to a directory is not one, so a scan cannot follow it), and yields
  a symbolic link only when its target, as written, starts with the canonical sync root.
\<close>

theorem list_dir_symlink_policy:
  assumes "tokio_list_dir root r d = (Inr es, d')" and "e \<in> set es"
  shows "d' = d \<and> de_name e \<noteq> ''.gds_tmp'' \<and>
    (\<exists>dir rc n. dir = (if r = [] then root else path_join root r) \<and>
       std_canonicalize d root = Inr rc \<and>
       std_symlink_metadata d \<lparr>p_abs = p_abs dir, p_segs = p_segs dir @ [de_name e]\<rparr> = Inr n \<and>
       (de_is_dir e \<longleftrightarrow> is_dir_node (Some n)) \<and>
       (is_link_node (Some n) \<longrightarrow>
          (\<exists>t. std_read_link d \<lparr>p_abs = p_abs dir, p_segs = p_segs dir @ [de_name e]\<rparr> = Inr t \<and>
               path_starts_with t rc)))"
proof -
  define dir where "dir = (if r = [] then root else path_join root r)"
  from assms(1) obtain names rc where rc: "std_canonicalize d root = Inr rc"
    and es: "list_entries rc dir names d = (Inr es, d')"
    by (auto simp: tokio_list_dir_def Let_def dir_def [symmetric] seqp_def at_path_askp
        split: sum.splits)
  note s = list_entries_spec [OF es]
  from s assms(2) obtain n where n: "de_name e \<noteq> ''.gds_tmp''"
    "std_symlink_metadata d \<lparr>p_abs = p_abs dir, p_segs = p_segs dir @ [de_name e]\<rparr> = Inr n"
    "de_is_dir e \<longleftrightarrow> is_dir_node (Some n)"
    "\<forall>u t. n = Link u t \<longrightarrow> (\<exists>v. std_read_link d \<lparr>p_abs = p_abs dir, p_segs = p_segs dir @ [de_name e]\<rparr> = Inr v \<and>
             path_starts_with v rc)" by blast
  show ?thesis
    using s n rc by (auto simp: dir_def [symmetric] is_link_node_def)
qed

definition demo_disk :: disk where
  "demo_disk = \<lparr>d_nodes =
     [([''r''], Dir 0), ([''r'', ''a.txt''], File ''old'' 5000000000),
      ([''r'', ''a.gds_tmp''], File ''mine'' 6000000000),
      ([''r'', ''out''], Link (\<lparr>p_abs = True, p_segs = [''etc'']\<rparr>) 0)], d_now = 7000000000\<rparr>"

lemma list_dir_symlink_policy_witness:
  "\<exists>es d'. tokio_list_dir demo_root [] demo_disk = (Inr es, d') \<and> length es = 2 \<and> d' = demo_disk"
proof -
  have l: "tokio_list_dir demo_root [] demo_disk =
      (Inr [\<lparr>de_name = ''a.txt'', de_is_dir = False\<rparr>, \<lparr>de_name = ''a.gds_tmp'', de_is_dir = False\<rparr>],
       demo_disk)" by code_simp
  from list_dir_symlink_policy [OF l, of "\<lparr>de_name = ''a.txt'', de_is_dir = False\<rparr>"] l
  show ?thesis by simp
qed

text \<open>
  C19: \<open>write_atomic\<close> on a disk without links: when it succeeds, reading the file gives the new
  content, and every other file is as before except the one named like it with the extension
  \<open>gds_tmp\<close>, which is gone; when it fails, every file but that one is as before, the target
  included.
\<close>

theorem write_atomic_spec:
  assumes "root_ok root" and "plain d" and "rel_ok r"
    and "tokio_write_atomic root r c d = (x, d')"
  shows "plain d' \<and>
    (case x of
       Inl _ \<Rightarrow> \<forall>k. k \<noteq> tmp_key (file_key root r) \<longrightarrow> contents d' k = contents d k
     | Inr _ \<Rightarrow> tokio_read_file root r d' = (Inr c, d') \<and>
         contents d' = (contents d)(tmp_key (file_key root r) := None, file_key root r := Some c))"
proof -
  have "root_ok root \<and> plain d" using assms by simp
  then show ?thesis
    using tokio.write_wf' [OF _ assms(3,4)] tokio.write_read [of root d r c d']
      tokio.write_view [of root d r c d'] tokio.write_fail [of root d r c _ d'] assms(3,4)
    by (auto split: sum.splits)
qed

definition demo_plain_disk :: disk where
  "demo_plain_disk = \<lparr>d_nodes =
     [([''r''], Dir 0), ([''r'', ''a.txt''], File ''old'' 5000000000),
      ([''r'', ''a.gds_tmp''], File ''mine'' 6000000000)], d_now = 7000000000\<rparr>"

lemma demo_plain: "plain demo_plain_disk" and demo_root_ok: "root_ok demo_root"
  by (auto simp: plain_def demo_plain_disk_def lookup_node_def clean_def seg_ok_def root_ok_def
      demo_root_def split: if_splits)

lemma write_atomic_spec_witness:
  "contents (snd (tokio_write_atomic demo_root ''a.txt'' ''new'' demo_plain_disk)) [''r'', ''a.gds_tmp''] = None"
proof -
  have ok: "rel_ok ''a.txt''" and k: "tmp_key [''r'', ''a.txt''] = [''r'', ''a.gds_tmp'']"
    "file_key demo_root ''a.txt'' = [''r'', ''a.txt'']"
    and w: "fst (tokio_write_atomic demo_root ''a.txt'' ''new'' demo_plain_disk) = Inr ()"
    by code_simp+
  obtain d' where d': "tokio_write_atomic demo_root ''a.txt'' ''new'' demo_plain_disk = (Inr (), d')"
    using w by (metis prod.collapse)
  from write_atomic_spec [OF demo_root_ok demo_plain ok d'] show ?thesis by (simp add: d' k)
qed

end
