(* ===== verification/Gds_World.thy ===== *)
theory Gds_World
  imports Gds_Local_Fs Gds_Database
begin

text \<open>
  What surrounds the engine. \<open>'w\<close> is the world outside the program: network, clock, random
  numbers, keyring, other tasks. The record \<open>env\<close> holds what the code asks of it, each call
  returning the world it leaves; nothing is assumed about these functions, so concurrent activity
  (another task setting the pause flag, say) is any change of \<open>'w\<close> between two calls. The record
  \<open>world\<close> adds the state the program owns: the local disk, the database, the token cache and the
  channel of conflict notices.
\<close>

section \<open>HTTP\<close>

datatype http_method = GET | POST | PUT | PATCH | DELETE

record create_file_metadata =
  cm_name :: "string option"
  cm_mime_type :: "string option"
  cm_parents :: "string list option"

record update_file_metadata =
  um_name :: "string option"
  um_parents :: "string list option"
  um_trashed :: "bool option"

text \<open>
  Request bodies: the JSON of a metadata struct is kept as the struct, a multipart form as its
  parts (name, MIME type, content).
\<close>

datatype http_body =
    NoBody
  | BytesBody string
  | CreateMeta create_file_metadata
  | UpdateMeta update_file_metadata
  | CopyMeta "string option" "string list option"
  | FormBody "(string \<times> string) list"
  | Multipart "(string \<times> string \<times> http_body) list"

record http_request =
  rq_method :: http_method
  rq_url :: string
  rq_query :: "(string \<times> string) list"
  rq_headers :: "(string \<times> string) list"
  rq_timeout_secs :: nat
  rq_body :: http_body

text \<open>A response: status, headers (names in lower case), and the body or the error of reading it.\<close>

record http_response =
  rs_status :: nat
  rs_headers :: "(string \<times> string) list"
  rs_body :: "string + string"

record file_list_response =
  fl_next_page_token :: "string option"
  fl_files :: "drive_file list"

record about_user =
  au_display_name :: "string option"
  au_email_address :: "string option"

record storage_quota =
  sq_limit :: "string option"
  sq_usage :: "string option"
  sq_usage_in_drive :: "string option"

record about_response =
  ab_user :: "about_user option"
  ab_storage_quota :: "storage_quota option"

record drive_info =
  di_id :: string
  di_name :: "string option"

record drive_list_response =
  dl_next_page_token :: "string option"
  dl_drives :: "drive_info list"

text \<open>
  The libraries of the client: serde\_json's decoding of the response types, and the errors of
  parsing a URL and a MIME type, and the text of a status code with its reason phrase.
\<close>

record codecs =
  cd_drive_file :: "string \<Rightarrow> string + drive_file"
  cd_change_set :: "string \<Rightarrow> string + change_set"
  cd_file_list :: "string \<Rightarrow> string + file_list_response"
  cd_start_token :: "string \<Rightarrow> string + string"
  cd_about :: "string \<Rightarrow> string + about_response"
  cd_url_error :: "string \<Rightarrow> string option"
  cd_mime_error :: "string \<Rightarrow> string option"
  cd_userinfo :: "string \<Rightarrow> string + (string option \<times> string option)"
  cd_status_text :: "nat \<Rightarrow> string"

section \<open>The environment\<close>

text \<open>The trait \<open>TokenStore\<close> (\<open>crates/gds-core/src/auth/token_store.rs\<close>).\<close>

record 'w token_store =
  ts_store_refresh_token :: "string \<Rightarrow> string \<Rightarrow> ('w, sync_error, unit) proc"
  ts_get_refresh_token :: "string \<Rightarrow> ('w, sync_error, string option) proc"
  ts_delete_refresh_token :: "string \<Rightarrow> ('w, sync_error, unit) proc"

text \<open>
  \<^item> \<open>env_now\<close>: \<open>Utc::now()\<close> and \<open>SystemTime::now()\<close>; \<open>env_uuid\<close>: \<open>Uuid::new_v4()\<close>;
  \<^item> \<open>env_pause\<close>: a load of the pause flag; \<open>env_sleep\<close>: \<open>tokio::time::sleep\<close>, in nanoseconds;
  \<^item> \<open>env_http\<close>: \<open>reqwest\<close> sending a request;
  \<^item> \<open>env_tokens\<close>: the token store;
  \<^item> \<open>env_refresh\<close>: the oauth2 crate's exchange of a refresh token (access token, lifetime).
\<close>

record 'w env =
  env_now :: "'w \<Rightarrow> datetime \<times> 'w"
  env_uuid :: "'w \<Rightarrow> string \<times> 'w"
  env_pause :: "'w \<Rightarrow> bool \<times> 'w"
  env_sleep :: "nat \<Rightarrow> 'w \<Rightarrow> 'w"
  env_http :: "http_request \<Rightarrow> ('w, string, http_response) proc"
  env_tokens :: "'w token_store"
  env_refresh :: "string \<Rightarrow> ('w, string, string \<times> nat option) proc"

record ('w, 'd) world =
  w_env :: 'w
  w_disk :: 'd
  w_db :: db
  w_cache :: "(string \<times> (string \<times> int)) list"
  w_notices :: "(string \<times> string) list"

text \<open>A call on one part of the world.\<close>

definition on_env :: "('w, 'e, 'a) proc \<Rightarrow> (('w, 'd) world, 'e, 'a) proc" where
  "on_env m s = (case m (w_env s) of (r, w) \<Rightarrow> (r, s\<lparr>w_env := w\<rparr>))"

definition on_disk :: "('d, 'e, 'a) proc \<Rightarrow> (('w, 'd) world, 'e, 'a) proc" where
  "on_disk m s = (case m (w_disk s) of (r, d) \<Rightarrow> (r, s\<lparr>w_disk := d\<rparr>))"

text \<open>Database calls of the engine report their error as \<open>SyncError::DatabaseError\<close>.\<close>

definition on_db :: "'a db_proc \<Rightarrow> (('w, 'd) world, sync_error, 'a) proc" where
  "on_db m s = (case m (w_db s) of
     (Inl e, db) \<Rightarrow> (Inl (DatabaseError e), s\<lparr>w_db := db\<rparr>) | (Inr x, db) \<Rightarrow> (Inr x, s\<lparr>w_db := db\<rparr>))"

definition okp :: "('s \<Rightarrow> 'a \<times> 's) \<Rightarrow> ('s, 'e, 'a) proc" where
  "okp f s = (case f s of (x, s') \<Rightarrow> (Inr x, s'))"

lemma okp_apply [proc_simps]: "okp f s = (Inr (fst (f s)), snd (f s))"
  by (simp add: okp_def split: prod.splits)

lemma on_env_apply [proc_simps]: "on_env m s = (fst (m (w_env s)), s\<lparr>w_env := snd (m (w_env s))\<rparr>)"
  by (simp add: on_env_def split: prod.splits)

lemma on_disk_apply [proc_simps]: "on_disk m s = (fst (m (w_disk s)), s\<lparr>w_disk := snd (m (w_disk s))\<rparr>)"
  by (simp add: on_disk_def split: prod.splits)

lemma on_db_apply [proc_simps]:
  "on_db m s = (map_sum DatabaseError id (fst (m (w_db s))), s\<lparr>w_db := snd (m (w_db s))\<rparr>)"
  by (simp add: on_db_def split: prod.splits sum.splits)

text \<open>Invariants of one part are kept by calls on the others.\<close>

lemma pres_on_env [proc_pres]: "pres (\<lambda>s. I (w_db s)) (on_env m)"
  by (simp add: pres_def on_env_apply)

lemma pres_on_disk [proc_pres]: "pres (\<lambda>s. I (w_db s)) (on_disk m)"
  by (simp add: pres_def on_disk_apply)

lemma pres_on_db: "pres I m \<Longrightarrow> pres (\<lambda>s. I (w_db s)) (on_db m)"
  by (simp add: pres_def on_db_apply)

lemma pres_db_on_env: "pres (\<lambda>s. w_db s = db) (on_env m)"
  by (simp add: pres_def on_env_apply)

lemma pres_db_on_disk: "pres (\<lambda>s. w_db s = db) (on_disk m)"
  by (simp add: pres_def on_disk_apply)

end
