(* ===== verification/Gds_Retry.thy ===== *)
theory Gds_Retry
  imports Gds_World
begin

text \<open>
  Errors of the Drive API and the retry loop: \<open>crates/gds-core/src/api/error.rs\<close>,
  \<open>crates/gds-core/src/api/backoff.rs\<close> and \<open>execute_with_retry\<close> of
  \<open>crates/gds-core/src/api/client.rs\<close>. Durations are in nanoseconds.
\<close>

section \<open>HTTP errors\<close>

definition header :: "string \<Rightarrow> http_response \<Rightarrow> string option" where
  "header name res = map_of (rs_headers res) name"

definition retry_after_seconds :: "http_response \<Rightarrow> nat option" where
  "retry_after_seconds res =
     (case header ''retry-after'' res of
        None \<Rightarrow> None
      | Some v \<Rightarrow> (case parse_uint 64 v of Some secs \<Rightarrow> Some secs | None \<Rightarrow> Some 60))"

definition status_to_sync_error :: "nat \<Rightarrow> http_response \<Rightarrow> string \<Rightarrow> sync_error" where
  "status_to_sync_error status res body =
     (if status = 401 then AuthExpired
      else if status = 429 then
        QuotaExceeded (case retry_after_seconds res of Some s \<Rightarrow> s | None \<Rightarrow> 60)
      else ApiError status body)"

definition is_retryable_status :: "nat \<Rightarrow> bool" where
  "is_retryable_status status \<longleftrightarrow> status \<in> {429, 500, 502, 503, 504}"

section \<open>Backoff\<close>

record backoff_policy =
  bp_base_delay :: nat
  bp_max_delay :: nat
  bp_max_attempts :: nat

definition millis :: "nat \<Rightarrow> nat" where
  "millis n = n * 1000000"

definition secs :: "nat \<Rightarrow> nat" where
  "secs n = n * 1000000000"

definition backoff_default :: backoff_policy where
  "backoff_default = \<lparr>bp_base_delay = millis 100, bp_max_delay = secs 32, bp_max_attempts = 8\<rparr>"

text \<open>
  \<open>Duration::MAX\<close> bounds the product (the sum below would panic only beyond it), and
  \<open>u32::MAX\<close> the power. The jitter comes from the clock, 0 before the epoch.
\<close>

definition duration_max :: nat where
  "duration_max = secs (2 ^ 64 - 1) + 999999999"

definition jitter :: "datetime \<Rightarrow> nat" where
  "jitter now = millis (nat (now div 1000000) mod 101)"

definition delay_for_attempt :: "backoff_policy \<Rightarrow> nat \<Rightarrow> datetime \<Rightarrow> nat" where
  "delay_for_attempt p attempt now =
     (let base = min (bp_base_delay p * min (2 ^ attempt) (2 ^ 32 - 1)) duration_max
      in min (base + jitter now) (bp_max_delay p))"

fun is_retryable_error :: "sync_error \<Rightarrow> bool" where
  "is_retryable_error (QuotaExceeded _) = True"
| "is_retryable_error (ApiError code _) = (code \<in> {429, 500, 502, 503, 504})"
| "is_retryable_error _ = False"

section \<open>The loop\<close>

function retry_from ::
    "'w env \<Rightarrow> backoff_policy \<Rightarrow> ('w, sync_error, 'a) proc \<Rightarrow> nat \<Rightarrow> ('w, sync_error, 'a) proc" where
  "retry_from E p operation attempt w =
     (case operation w of
        (Inr v, w1) \<Rightarrow> (Inr v, w1)
      | (Inl e, w1) \<Rightarrow>
          if is_retryable_error e \<and> attempt < bp_max_attempts p then
            (let (now, w2) = env_now E w1;
                 delay = delay_for_attempt p attempt now
             in retry_from E p operation (attempt + 1) (env_sleep E delay w2))
          else (Inl e, w1))"
  by pat_completeness auto

termination
  by (relation "measure (\<lambda>(E, p, operation, attempt, w). bp_max_attempts p - attempt)") auto

declare retry_from.simps [simp del]

definition execute_with_retry ::
    "'w env \<Rightarrow> backoff_policy \<Rightarrow> ('w, sync_error, 'a) proc \<Rightarrow> ('w, sync_error, 'a) proc" where
  "execute_with_retry E p operation = retry_from E p operation 0"

lemma jitter_le: "jitter now \<le> millis 100"
proof -
  have "nat (now div 1000000) mod 101 < 101" by simp
  then have "nat (now div 1000000) mod 101 \<le> 100" by linarith
  then show ?thesis by (simp add: jitter_def millis_def)
qed

lemma status_retryable:
  "is_retryable_error (status_to_sync_error status res body) \<longleftrightarrow> is_retryable_status status"
  by (auto simp: status_to_sync_error_def is_retryable_status_def)

text \<open>One step of the loop, as a rule.\<close>

lemma retry_from_cases:
  assumes "retry_from E p operation attempt w = (r, w')"
  obtains (ends) "operation w = (r, w')" and "\<And>e. r = Inl e \<Longrightarrow> \<not> is_retryable_error e \<or> bp_max_attempts p \<le> attempt"
  | (again) e w1 now w2 where "operation w = (Inl e, w1)" and "is_retryable_error e"
      and "attempt < bp_max_attempts p" and "env_now E w1 = (now, w2)"
      and "retry_from E p operation (Suc attempt) (env_sleep E (delay_for_attempt p attempt now) w2) = (r, w')"
  using assms
  by (subst (asm) retry_from.simps)
    (auto simp: Let_def split: prod.splits sum.splits if_splits)

text \<open>From one run of the operation to the next: a retryable error, then the sleep of its attempt.\<close>

definition retried ::
    "'w env \<Rightarrow> backoff_policy \<Rightarrow> ('w, sync_error, 'a) proc \<Rightarrow> nat \<Rightarrow> 'w \<Rightarrow> 'w \<Rightarrow> bool" where
  "retried E p operation attempt w w' \<longleftrightarrow>
     (\<exists>e w1 now w2. operation w = (Inl e, w1) \<and> is_retryable_error e \<and> env_now E w1 = (now, w2) \<and>
        w' = env_sleep E (delay_for_attempt p attempt now) w2)"

lemma retry_from_runs:
  assumes "retry_from E p operation attempt w = (r, w')" and "attempt \<le> bp_max_attempts p"
  shows "\<exists>ws. ws \<noteq> [] \<and> hd ws = w \<and> length ws + attempt \<le> bp_max_attempts p + 1 \<and>
    (\<forall>i. Suc i < length ws \<longrightarrow> retried E p operation (attempt + i) (ws ! i) (ws ! Suc i)) \<and>
    operation (last ws) = (r, w') \<and>
    (\<forall>e. r = Inl e \<and> is_retryable_error e \<longrightarrow> length ws + attempt = bp_max_attempts p + 1)"
  using assms
proof (induction "bp_max_attempts p - attempt" arbitrary: attempt w rule: less_induct)
  case less
  from less.prems(1) show ?case
  proof (cases rule: retry_from_cases)
    case ends
    with less.prems(2) show ?thesis by (intro exI [of _ "[w]"]) force
  next
    case (again e w1 now w2)
    let ?w3 = "env_sleep E (delay_for_attempt p attempt now) w2"
    obtain ws where ws: "ws \<noteq> []" "hd ws = ?w3" "length ws + Suc attempt \<le> bp_max_attempts p + 1"
      "\<forall>i. Suc i < length ws \<longrightarrow> retried E p operation (Suc attempt + i) (ws ! i) (ws ! Suc i)"
      "operation (last ws) = (r, w')"
      "\<forall>e. r = Inl e \<and> is_retryable_error e \<longrightarrow> length ws + Suc attempt = bp_max_attempts p + 1"
      using less.hyps [OF _ again(5)] again(3) by (elim meta_impE exE conjE) (simp_all add: that)
    have first: "retried E p operation attempt w (ws ! 0)"
      using again ws(1,2) by (auto simp: retried_def hd_conv_nth)
    have "retried E p operation (attempt + i) ((w # ws) ! i) ((w # ws) ! Suc i)" if "Suc i < length (w # ws)" for i
      using that first ws(4) by (cases i) auto
    with ws show ?thesis by (intro exI [of _ "w # ws"]) auto
  qed
qed

section \<open>Properties\<close>

text \<open>
  C25: a request under \<open>execute_with_retry\<close> runs at least once and at most \<open>max_attempts + 1\<close> times,
  in the worlds \<open>ws\<close>. What it answers is what its last run answered: a success, an error that is not
  retryable, or a retryable one after all \<open>max_attempts + 1\<close> runs. Each run before the last ended
  with a retryable error, and between two runs there is one sleep of the delay of the attempt, counted from 0.
\<close>

theorem retry_bounded:
  assumes "execute_with_retry E p operation w = (r, w')"
  shows "\<exists>ws. ws \<noteq> [] \<and> hd ws = w \<and> length ws \<le> bp_max_attempts p + 1 \<and>
    (\<forall>i. Suc i < length ws \<longrightarrow> retried E p operation i (ws ! i) (ws ! Suc i)) \<and>
    operation (last ws) = (r, w') \<and>
    (\<forall>e. r = Inl e \<and> is_retryable_error e \<longrightarrow> length ws = bp_max_attempts p + 1)"
  using retry_from_runs [of E p operation 0 w r w'] assms by (simp add: execute_with_retry_def)

text \<open>A world that only counts requests; every request is refused with 503.\<close>

definition count_env :: "nat env" where
  "count_env = \<lparr>env_now = (\<lambda>w. (0, w)), env_uuid = (\<lambda>w. (''id'', w)), env_pause = (\<lambda>w. (False, w)),
     env_sleep = (\<lambda>_ w. w),
     env_http = (\<lambda>_ w. (Inr \<lparr>rs_status = 503, rs_headers = [], rs_body = Inr []\<rparr>, Suc w)),
     env_tokens = \<lparr>ts_store_refresh_token = (\<lambda>_ _. retp ()), ts_get_refresh_token = (\<lambda>_. retp None),
       ts_delete_refresh_token = (\<lambda>_. retp ())\<rparr>,
     env_refresh = (\<lambda>_. failp [])\<rparr>"

text \<open>The third request is answered with 404: three runs, and the 404 is returned.\<close>

lemma retry_bounded_witness:
  "execute_with_retry count_env backoff_default (\<lambda>w. (if w < 2 then Inl (ApiError 503 [])
     else Inl (ApiError 404 []) :: sync_error + unit, Suc w)) 0 = (Inl (ApiError 404 []), 3) \<and>
   (\<exists>ws. length ws \<le> 9 \<and> hd ws = 0 \<and> last ws = (2 :: nat))"
proof -
  let ?op = "\<lambda>w :: nat. (if w < 2 then Inl (ApiError 503 []) else Inl (ApiError 404 []) :: sync_error + unit, Suc w)"
  have run: "execute_with_retry count_env backoff_default ?op 0 = (Inl (ApiError 404 []), 3)"
    by (simp add: execute_with_retry_def retry_from.simps count_env_def backoff_default_def Let_def)
  from retry_bounded [OF run] obtain ws where
    "length ws \<le> bp_max_attempts backoff_default + 1" "hd ws = 0" "?op (last ws) = (Inl (ApiError 404 []), 3)"
    by blast
  then have "length ws \<le> 9 \<and> hd ws = 0 \<and> last ws = 2" by (simp add: backoff_default_def)
  with run show ?thesis by blast
qed

text \<open>
  Every delay is at most \<open>max_delay\<close>, at least the capped base delay, and at most that plus
  100 ms of jitter; with the default policy the eight delays of a request are between 100 ms and
  12.9 s, so the cap of 32 s is never reached.
\<close>

theorem delay_bounds:
  "delay_for_attempt p attempt now \<le> bp_max_delay p \<and>
   min (min (bp_base_delay p * min (2 ^ attempt) (2 ^ 32 - 1)) duration_max) (bp_max_delay p)
     \<le> delay_for_attempt p attempt now \<and>
   (attempt < 8 \<longrightarrow>
      millis (100 * 2 ^ attempt) \<le> delay_for_attempt backoff_default attempt now \<and>
      delay_for_attempt backoff_default attempt now \<le> millis (100 * 2 ^ attempt + 100) \<and>
      delay_for_attempt backoff_default attempt now < bp_max_delay backoff_default)"
proof -
  have "millis (100 * 2 ^ attempt) \<le> delay_for_attempt backoff_default attempt now \<and>
      delay_for_attempt backoff_default attempt now \<le> millis (100 * 2 ^ attempt + 100) \<and>
      delay_for_attempt backoff_default attempt now < bp_max_delay backoff_default" if "attempt < 8"
  proof -
    have pow: "(2 :: nat) ^ attempt \<le> 2 ^ 7" using that by (intro power_increasing) auto
    then have a: "min (2 ^ attempt) 4294967295 = (2 :: nat) ^ attempt" by simp
    have b: "min (100000000 * 2 ^ attempt) duration_max = 100000000 * (2 :: nat) ^ attempt"
      using pow by (simp add: duration_max_def secs_def)
    have "delay_for_attempt backoff_default attempt now =
        min (100000000 * 2 ^ attempt + jitter now) 32000000000"
      by (simp add: delay_for_attempt_def backoff_default_def millis_def secs_def a b)
    then show ?thesis
      using pow jitter_le [of now] by (simp add: millis_def secs_def backoff_default_def)
  qed
  then show ?thesis by (auto simp: delay_for_attempt_def Let_def)
qed

lemma delay_bounds_witness:
  "delay_for_attempt backoff_default 7 0 < bp_max_delay backoff_default"
  using delay_bounds [of backoff_default 7 0] by simp

end
