(* ===== verification/Gds_Client.thy ===== *)
theory Gds_Client
  imports Gds_Retry Gds_Workspace
begin

text \<open>
  The Drive API client (\<open>crates/gds-core/src/api/client.rs\<close>): what each call sends, in which order,
  and what it makes of the answers. Sending is \<open>env_http\<close>; decoding JSON and parsing URLs and MIME
  types are the parameters \<open>codecs\<close>. A writer is the bytes written to it; a reader is the cursor
  over a byte vector that every caller passes; no caller passes a progress callback.
\<close>

section \<open>The client\<close>

definition DEFAULT_BASE_URL :: string where
  "DEFAULT_BASE_URL = ''https://www.googleapis.com''"

definition FILE_FIELDS :: string where
  "FILE_FIELDS = ''id,name,mimeType,md5Checksum,size,modifiedTime,parents,trashed''"

definition CHANGES_FIELDS :: string where
  "CHANGES_FIELDS = ''nextPageToken,newStartPageToken,changes(changeType,fileId,file(id,name,mimeType,md5Checksum,size,modifiedTime,parents,trashed),removed)''"

definition SIMPLE_UPLOAD_MAX_BYTES :: nat where
  "SIMPLE_UPLOAD_MAX_BYTES = 5 * 1024 * 1024"

definition RESUMABLE_CHUNK_SIZE :: nat where
  "RESUMABLE_CHUNK_SIZE = 8 * 1024 * 1024"

record drive_client =
  dc_base_url :: string
  dc_request_timeout_secs :: nat
  dc_upload_timeout_secs :: nat
  dc_backoff :: backoff_policy

definition trim_end_matches :: "char \<Rightarrow> string \<Rightarrow> string" where
  "trim_end_matches c s = rev (dropWhile (\<lambda>x. x = c) (rev s))"

text \<open>\<open>build\<close> is the outcome of \<open>Client::builder().build()\<close>.\<close>

definition with_base_url :: "string + unit \<Rightarrow> string \<Rightarrow> config \<Rightarrow> sync_error + drive_client" where
  "with_base_url build base_url config =
     (case build of
        Inl m \<Rightarrow> Inl (ApiError 0 m)
      | Inr _ \<Rightarrow> Inr
          \<lparr>dc_base_url = trim_end_matches CHR ''/'' base_url,
           dc_request_timeout_secs = sc_request_timeout_secs (cfg_sync config),
           dc_upload_timeout_secs = sc_upload_timeout_secs (cfg_sync config),
           dc_backoff = backoff_default\<rparr>)"

definition client_new :: "string + unit \<Rightarrow> config \<Rightarrow> sync_error + drive_client" where
  "client_new build config = with_base_url build DEFAULT_BASE_URL config"

definition drive_url :: "drive_client \<Rightarrow> string \<Rightarrow> string" where
  "drive_url c path = dc_base_url c @ ''/drive/v3'' @ path"

definition upload_url :: "drive_client \<Rightarrow> string \<Rightarrow> string" where
  "upload_url c path = dc_base_url c @ ''/upload/drive/v3'' @ path"

definition api_msg :: "string \<Rightarrow> sync_error" where
  "api_msg m = ApiError 0 m"

definition http_send :: "'w env \<Rightarrow> http_request \<Rightarrow> ('w, sync_error, http_response) proc" where
  "http_send E rq = map_errp api_msg (env_http E rq)"

definition parse_url :: "codecs \<Rightarrow> string \<Rightarrow> ('w, sync_error, unit) proc" where
  "parse_url K url = (case cd_url_error K url of None \<Rightarrow> retp () | Some m \<Rightarrow> failp (api_msg m))"

definition parse_mime :: "codecs \<Rightarrow> string \<Rightarrow> ('w, sync_error, unit) proc" where
  "parse_mime K mime = (case cd_mime_error K mime of None \<Rightarrow> retp () | Some m \<Rightarrow> failp (api_msg m))"

definition bearer :: "string \<Rightarrow> string \<times> string" where
  "bearer token = (''Authorization'', ''Bearer '' @ token)"

definition is_success :: "nat \<Rightarrow> bool" where
  "is_success status \<longleftrightarrow> 200 \<le> status \<and> status < 300"

text \<open>\<open>res.text().await.unwrap_or_default()\<close> and the error it goes into.\<close>

definition error_of_response :: "http_response \<Rightarrow> sync_error" where
  "error_of_response res =
     status_to_sync_error (rs_status res) res (case rs_body res of Inl _ \<Rightarrow> [] | Inr b \<Rightarrow> b)"

definition decode_body :: "(string \<Rightarrow> string + 'a) \<Rightarrow> http_response \<Rightarrow> sync_error + 'a" where
  "decode_body dec res =
     (case rs_body res of Inl m \<Rightarrow> Inl (api_msg m) | Inr b \<Rightarrow> map_sum api_msg id (dec b))"

definition check_response :: "(string \<Rightarrow> string + 'a) \<Rightarrow> http_response \<Rightarrow> sync_error + 'a" where
  "check_response dec res =
     (if is_success (rs_status res) then decode_body dec res else Inl (error_of_response res))"

definition execute_json ::
    "'w env \<Rightarrow> drive_client \<Rightarrow> (string \<Rightarrow> string + 'a) \<Rightarrow> http_method \<Rightarrow> string \<Rightarrow>
     (string \<times> string) list \<Rightarrow> string \<Rightarrow> nat \<Rightarrow> http_body \<Rightarrow> ('w, sync_error, 'a) proc" where
  "execute_json E c dec method url query token timeout body =
     execute_with_retry E (dc_backoff c)
       (seqp (http_send E \<lparr>rq_method = method, rq_url = url, rq_query = query,
           rq_headers = [bearer token], rq_timeout_secs = timeout, rq_body = body\<rparr>)
         (\<lambda>res. liftp (check_response dec res)))"

definition execute_stream_to_writer ::
    "'w env \<Rightarrow> string \<Rightarrow> (string \<times> string) list \<Rightarrow> string \<Rightarrow> nat \<Rightarrow> ('w, sync_error, string) proc" where
  "execute_stream_to_writer E url query token timeout =
     seqp (http_send E \<lparr>rq_method = GET, rq_url = url, rq_query = query,
         rq_headers = [bearer token], rq_timeout_secs = timeout, rq_body = NoBody\<rparr>)
       (\<lambda>res. if \<not> is_success (rs_status res) then failp (error_of_response res)
              else liftp (case rs_body res of Inl m \<Rightarrow> Inl (api_msg m) | Inr b \<Rightarrow> Inr b))"

section \<open>Files\<close>

fun opt_param :: "string \<Rightarrow> string option \<Rightarrow> (string \<times> string) list" where
  "opt_param name None = []"
| "opt_param name (Some v) = [(name, v)]"

definition files_list ::
    "'w env \<Rightarrow> codecs \<Rightarrow> drive_client \<Rightarrow> string \<Rightarrow> string option \<Rightarrow> string option \<Rightarrow> nat option \<Rightarrow>
     string option \<Rightarrow> string \<Rightarrow> ('w, sync_error, file_list_response) proc" where
  "files_list E K c token q page_token page_size order_by flds =
     seqp (parse_url K (drive_url c ''/files''))
       (\<lambda>_. execute_json E c (cd_file_list K) GET (drive_url c ''/files'')
          ((''fields'', flds) # opt_param ''q'' q @ opt_param ''pageToken'' page_token @
           opt_param ''pageSize'' (map_option nat_to_str page_size) @ opt_param ''orderBy'' order_by)
          token (dc_request_timeout_secs c) NoBody)"

definition file_url :: "drive_client \<Rightarrow> string \<Rightarrow> string" where
  "file_url c file_id = drive_url c (''/files/'' @ file_id)"

definition files_get ::
    "'w env \<Rightarrow> codecs \<Rightarrow> drive_client \<Rightarrow> string \<Rightarrow> string \<Rightarrow> string \<Rightarrow> ('w, sync_error, drive_file) proc" where
  "files_get E K c token file_id flds =
     seqp (parse_url K (file_url c file_id))
       (\<lambda>_. execute_json E c (cd_drive_file K) GET (file_url c file_id) [(''fields'', flds)]
          token (dc_request_timeout_secs c) NoBody)"

definition files_get_media ::
    "'w env \<Rightarrow> codecs \<Rightarrow> drive_client \<Rightarrow> string \<Rightarrow> string \<Rightarrow> ('w, sync_error, string) proc" where
  "files_get_media E K c token file_id =
     seqp (parse_url K (file_url c file_id))
       (\<lambda>_. execute_stream_to_writer E (file_url c file_id) [(''alt'', ''media'')] token
          (dc_upload_timeout_secs c))"

definition files_export ::
    "'w env \<Rightarrow> codecs \<Rightarrow> drive_client \<Rightarrow> string \<Rightarrow> string \<Rightarrow> string \<Rightarrow> ('w, sync_error, string) proc" where
  "files_export E K c token file_id export_mime =
     seqp (parse_url K (file_url c file_id @ ''/export''))
       (\<lambda>_. execute_stream_to_writer E (file_url c file_id @ ''/export'') [(''mimeType'', export_mime)]
          token (dc_upload_timeout_secs c))"

definition files_create_simple ::
    "'w env \<Rightarrow> codecs \<Rightarrow> drive_client \<Rightarrow> string \<Rightarrow> create_file_metadata \<Rightarrow> string \<Rightarrow> string \<Rightarrow>
     ('w, sync_error, drive_file) proc" where
  "files_create_simple E K c token metadata content mime_type =
     (if length content > SIMPLE_UPLOAD_MAX_BYTES
      then failp (api_msg ''file too large for simple upload; use resumable'')
      else seqp (parse_mime K ''application/json'') (\<lambda>_.
        seqp (parse_mime K mime_type) (\<lambda>_.
        seqp (parse_url K (upload_url c ''/files'')) (\<lambda>_.
        seqp (http_send E \<lparr>rq_method = POST, rq_url = upload_url c ''/files'',
            rq_query = [(''uploadType'', ''multipart''), (''fields'', FILE_FIELDS)],
            rq_headers = [bearer token], rq_timeout_secs = dc_upload_timeout_secs c,
            rq_body = Multipart [(''metadata'', ''application/json'', CreateMeta metadata),
              (''file'', mime_type, BytesBody content)]\<rparr>)
          (\<lambda>res. liftp (check_response (cd_drive_file K) res))))))"

section \<open>Resumable uploads\<close>

definition range_text :: "nat \<Rightarrow> nat \<Rightarrow> nat \<Rightarrow> string" where
  "range_text offset n total_size =
     ''bytes '' @ nat_to_str offset @ ''-'' @ nat_to_str (offset + n - 1) @ ''/'' @ nat_to_str total_size"

definition chunk_request ::
    "drive_client \<Rightarrow> string \<Rightarrow> string \<Rightarrow> nat \<Rightarrow> nat \<Rightarrow> string \<Rightarrow> http_request" where
  "chunk_request c upload_uri token total_size offset chunk =
     \<lparr>rq_method = PUT, rq_url = upload_uri, rq_query = [],
      rq_headers = [bearer token, (''Content-Range'', range_text offset (length chunk) total_size)],
      rq_timeout_secs = dc_upload_timeout_secs c, rq_body = BytesBody chunk\<rparr>"

definition commit_request :: "drive_client \<Rightarrow> string \<Rightarrow> string \<Rightarrow> nat \<Rightarrow> http_request" where
  "commit_request c upload_uri token total_size =
     \<lparr>rq_method = PUT, rq_url = upload_uri, rq_query = [],
      rq_headers = [bearer token, (''Content-Range'', ''bytes */'' @ nat_to_str total_size)],
      rq_timeout_secs = dc_request_timeout_secs c, rq_body = BytesBody []\<rparr>"

text \<open>The loop that discards the bytes before the start offset.\<close>

function skip_bytes :: "nat \<Rightarrow> string \<Rightarrow> sync_error + string" where
  "skip_bytes skip reader =
     (if skip = 0 then Inr reader
      else
        let n = length (take (min skip RESUMABLE_CHUNK_SIZE) reader) in
        if n = 0 then Inl (api_msg ''resumable upload: reader ended before start_offset'')
        else skip_bytes (skip - n) (drop n reader))"
  by pat_completeness auto

termination
  by (relation "measure fst") auto

declare skip_bytes.simps [simp del]

text \<open>The last request, when the reader is at its end and the server has not answered 200 or 201.\<close>

definition commit_upload ::
    "'w env \<Rightarrow> codecs \<Rightarrow> drive_client \<Rightarrow> string \<Rightarrow> string \<Rightarrow> nat \<Rightarrow> ('w, sync_error, drive_file) proc" where
  "commit_upload E K c upload_uri token total_size =
     seqp (http_send E (commit_request c upload_uri token total_size))
       (\<lambda>res. if rs_status res = 200 \<or> rs_status res = 201
              then liftp (decode_body (cd_drive_file K) res)
              else failp (error_of_response res))"

text \<open>
  The chunk loop. A 308 answer is taken to mean that the whole chunk was received; the \<open>Range\<close>
  header of the answer is not read.
\<close>

function upload_from ::
    "'w env \<Rightarrow> codecs \<Rightarrow> drive_client \<Rightarrow> string \<Rightarrow> string \<Rightarrow> nat \<Rightarrow> nat \<Rightarrow> string \<Rightarrow>
     ('w, sync_error, drive_file) proc" where
  "upload_from E K c upload_uri token total_size offset reader =
     (let chunk = take RESUMABLE_CHUNK_SIZE reader in
      if chunk = [] then
        (if offset < total_size
         then failp (api_msg ''resumable upload: stream ended before total_size'')
         else commit_upload E K c upload_uri token total_size)
      else
        seqp (http_send E (chunk_request c upload_uri token total_size offset chunk)) (\<lambda>res.
          if rs_status res = 200 \<or> rs_status res = 201 then liftp (decode_body (cd_drive_file K) res)
          else if rs_status res = 308 then
            upload_from E K c upload_uri token total_size (offset + length chunk)
              (drop RESUMABLE_CHUNK_SIZE reader)
          else failp (error_of_response res)))"
  by pat_completeness auto

termination
  by (relation "measure (\<lambda>(E, K, c, u, t, total, offset, reader). length reader)")
    (auto simp: RESUMABLE_CHUNK_SIZE_def)

declare upload_from.simps [simp del]

definition upload_chunks_resumable ::
    "'w env \<Rightarrow> codecs \<Rightarrow> drive_client \<Rightarrow> string \<Rightarrow> string \<Rightarrow> nat \<Rightarrow> nat \<Rightarrow> string \<Rightarrow>
     ('w, sync_error, drive_file) proc" where
  "upload_chunks_resumable E K c upload_uri token total_size start_offset reader =
     seqp (liftp (skip_bytes start_offset reader))
       (\<lambda>rest. upload_from E K c upload_uri token total_size start_offset rest)"

text \<open>The session request of an upload: its answer carries the upload URI in \<open>Location\<close>.\<close>

definition resumable_session ::
    "'w env \<Rightarrow> codecs \<Rightarrow> drive_client \<Rightarrow> http_method \<Rightarrow> string \<Rightarrow> string \<Rightarrow> string \<Rightarrow> nat \<Rightarrow> http_body \<Rightarrow>
     string \<Rightarrow> ('w, sync_error, string) proc" where
  "resumable_session E K c method url token mime_type total_size body missing =
     seqp (parse_url K url) (\<lambda>_.
       seqp (http_send E \<lparr>rq_method = method, rq_url = url, rq_query = [(''uploadType'', ''resumable'')],
           rq_headers = [bearer token, (''X-Upload-Content-Type'', mime_type),
             (''X-Upload-Content-Length'', nat_to_str total_size)],
           rq_timeout_secs = dc_request_timeout_secs c, rq_body = body\<rparr>)
         (\<lambda>res. if \<not> is_success (rs_status res) then failp (error_of_response res)
                else (case header ''location'' res of
                        Some uri \<Rightarrow> retp uri | None \<Rightarrow> failp (api_msg missing))))"

definition files_create_resumable ::
    "'w env \<Rightarrow> codecs \<Rightarrow> drive_client \<Rightarrow> string \<Rightarrow> create_file_metadata \<Rightarrow> nat \<Rightarrow> string \<Rightarrow> string \<Rightarrow>
     ('w, sync_error, drive_file) proc" where
  "files_create_resumable E K c token metadata total_size mime_type reader =
     seqp (resumable_session E K c POST (upload_url c ''/files'') token mime_type total_size
            (CreateMeta metadata) ''resumable upload: missing Location header'')
       (\<lambda>uri. upload_chunks_resumable E K c uri token total_size 0 reader)"

definition files_update_content_resumable ::
    "'w env \<Rightarrow> codecs \<Rightarrow> drive_client \<Rightarrow> string \<Rightarrow> string \<Rightarrow> nat \<Rightarrow> string \<Rightarrow> nat \<Rightarrow> string \<Rightarrow>
     ('w, sync_error, drive_file) proc" where
  "files_update_content_resumable E K c token file_id total_size mime_type start_offset reader =
     seqp (resumable_session E K c PATCH (upload_url c (''/files/'' @ file_id)) token mime_type
            total_size NoBody ''resumable update: missing Location header'')
       (\<lambda>uri. upload_chunks_resumable E K c uri token total_size start_offset reader)"

definition files_update_metadata ::
    "'w env \<Rightarrow> codecs \<Rightarrow> drive_client \<Rightarrow> string \<Rightarrow> string \<Rightarrow> update_file_metadata \<Rightarrow> string \<Rightarrow>
     ('w, sync_error, drive_file) proc" where
  "files_update_metadata E K c token file_id metadata flds =
     seqp (parse_url K (file_url c file_id))
       (\<lambda>_. execute_json E c (cd_drive_file K) PATCH (file_url c file_id) [(''fields'', flds)] token
          (dc_request_timeout_secs c) (UpdateMeta metadata))"

definition files_update_content_simple ::
    "'w env \<Rightarrow> codecs \<Rightarrow> drive_client \<Rightarrow> string \<Rightarrow> string \<Rightarrow> string \<Rightarrow> string \<Rightarrow>
     ('w, sync_error, drive_file) proc" where
  "files_update_content_simple E K c token file_id content mime_type =
     (if length content > SIMPLE_UPLOAD_MAX_BYTES
      then failp (api_msg ''file too large for simple update; use resumable'')
      else seqp (parse_mime K mime_type) (\<lambda>_.
        seqp (parse_url K (upload_url c (''/files/'' @ file_id))) (\<lambda>_.
        seqp (http_send E \<lparr>rq_method = PATCH, rq_url = upload_url c (''/files/'' @ file_id),
            rq_query = [(''uploadType'', ''multipart''), (''fields'', FILE_FIELDS)],
            rq_headers = [bearer token], rq_timeout_secs = dc_upload_timeout_secs c,
            rq_body = Multipart [(''file'', mime_type, BytesBody content)]\<rparr>)
          (\<lambda>res. liftp (check_response (cd_drive_file K) res)))))"

definition files_delete ::
    "'w env \<Rightarrow> drive_client \<Rightarrow> string \<Rightarrow> string \<Rightarrow> ('w, sync_error, unit) proc" where
  "files_delete E c token file_id =
     seqp (http_send E \<lparr>rq_method = DELETE, rq_url = file_url c file_id, rq_query = [],
         rq_headers = [bearer token], rq_timeout_secs = dc_request_timeout_secs c, rq_body = NoBody\<rparr>)
       (\<lambda>res. if rs_status res = 204 \<or> is_success (rs_status res) then retp ()
              else failp (error_of_response res))"

definition files_copy ::
    "'w env \<Rightarrow> codecs \<Rightarrow> drive_client \<Rightarrow> string \<Rightarrow> string \<Rightarrow> string option \<Rightarrow> string list option \<Rightarrow>
     ('w, sync_error, drive_file) proc" where
  "files_copy E K c token file_id name parents =
     seqp (parse_url K (file_url c file_id @ ''/copy''))
       (\<lambda>_. execute_json E c (cd_drive_file K) POST (file_url c file_id @ ''/copy'')
          [(''fields'', FILE_FIELDS)] token (dc_request_timeout_secs c) (CopyMeta name parents))"

section \<open>Changes, about, drives\<close>

definition changes_get_start_page_token ::
    "'w env \<Rightarrow> codecs \<Rightarrow> drive_client \<Rightarrow> string \<Rightarrow> string option \<Rightarrow> ('w, sync_error, string) proc" where
  "changes_get_start_page_token E K c token drive_id =
     seqp (parse_url K (drive_url c ''/changes/startPageToken''))
       (\<lambda>_. execute_json E c (cd_start_token K) GET (drive_url c ''/changes/startPageToken'')
          ((''fields'', ''startPageToken'') # opt_param ''driveId'' drive_id) token
          (dc_request_timeout_secs c) NoBody)"

definition bool_text :: "bool \<Rightarrow> string" where
  "bool_text b = (if b then ''true'' else ''false'')"

definition changes_list ::
    "'w env \<Rightarrow> codecs \<Rightarrow> drive_client \<Rightarrow> string \<Rightarrow> string \<Rightarrow> nat option \<Rightarrow> string \<Rightarrow> bool \<Rightarrow> bool \<Rightarrow>
     ('w, sync_error, change_set) proc" where
  "changes_list E K c token page_token page_size flds include_items_from_all_drives
       supports_all_drives =
     seqp (parse_url K (drive_url c ''/changes''))
       (\<lambda>_. execute_json E c (cd_change_set K) GET (drive_url c ''/changes'')
          ([(''pageToken'', page_token), (''fields'', flds),
            (''includeItemsFromAllDrives'', bool_text include_items_from_all_drives),
            (''supportsAllDrives'', bool_text supports_all_drives)] @
           opt_param ''pageSize'' (map_option nat_to_str page_size))
          token (dc_request_timeout_secs c) NoBody)"

definition about_get ::
    "'w env \<Rightarrow> codecs \<Rightarrow> drive_client \<Rightarrow> string \<Rightarrow> string \<Rightarrow> ('w, sync_error, about_response) proc" where
  "about_get E K c token flds =
     seqp (parse_url K (drive_url c ''/about''))
       (\<lambda>_. execute_json E c (cd_about K) GET (drive_url c ''/about'') [(''fields'', flds)] token
          (dc_request_timeout_secs c) NoBody)"

definition drive_list ::
    "string \<Rightarrow> string option \<Rightarrow> nat option \<Rightarrow> ('w, sync_error, drive_list_response) proc" where
  "drive_list token page_token page_size =
     retp \<lparr>dl_next_page_token = None, dl_drives = []\<rparr>"

section \<open>What a resumable upload sends\<close>

lemma chunk_size_pos: "0 < RESUMABLE_CHUNK_SIZE"
  by (simp add: RESUMABLE_CHUNK_SIZE_def)

lemma skip_bytes_eq: "s \<le> length r \<Longrightarrow> skip_bytes s r = Inr (drop s r)"
proof (induction s r rule: skip_bytes.induct)
  case (1 s r)
  show ?case
  proof (cases "s = 0")
    case True
    then show ?thesis by (subst skip_bytes.simps) simp
  next
    case False
    let ?n = "length (take (min s RESUMABLE_CHUNK_SIZE) r)"
    have n: "?n = min s RESUMABLE_CHUNK_SIZE" "0 < ?n" "?n \<le> s"
      using False "1.prems" chunk_size_pos by auto
    then have "skip_bytes (s - ?n) (drop ?n r) = Inr (drop (s - ?n) (drop ?n r))"
      using False "1.prems" by (intro "1.IH") auto
    moreover have "drop (s - ?n) (drop ?n r) = drop s r" using n(3) by simp
    ultimately show ?thesis using False n(2) by (subst skip_bytes.simps) (simp add: Let_def)
  qed
qed

text \<open>The \<open>i\<close>-th chunk of the reader, as the request that carries it.\<close>

definition nth_chunk ::
    "drive_client \<Rightarrow> string \<Rightarrow> string \<Rightarrow> nat \<Rightarrow> nat \<Rightarrow> string \<Rightarrow> nat \<Rightarrow> http_request" where
  "nth_chunk c uri token total_size offset reader i =
     chunk_request c uri token total_size (offset + i * RESUMABLE_CHUNK_SIZE)
       (take RESUMABLE_CHUNK_SIZE (drop (i * RESUMABLE_CHUNK_SIZE) reader))"

lemma nth_chunk_Suc:
  assumes "take RESUMABLE_CHUNK_SIZE reader \<noteq> []" and "drop RESUMABLE_CHUNK_SIZE reader \<noteq> []"
  shows "nth_chunk c uri token tot offset reader (Suc i) =
    nth_chunk c uri token tot (offset + length (take RESUMABLE_CHUNK_SIZE reader))
      (drop RESUMABLE_CHUNK_SIZE reader) i"
  using assms(2) by (simp add: nth_chunk_def ac_simps min_def)

lemma map_nth_chunk_Suc:
  assumes "take RESUMABLE_CHUNK_SIZE reader \<noteq> []"
    and "\<forall>i < k. i * RESUMABLE_CHUNK_SIZE < length (drop RESUMABLE_CHUNK_SIZE reader)"
  shows "map (nth_chunk c uri token tot offset reader) [0..<Suc k] =
    chunk_request c uri token tot offset (take RESUMABLE_CHUNK_SIZE reader) #
    map (nth_chunk c uri token tot (offset + length (take RESUMABLE_CHUNK_SIZE reader))
      (drop RESUMABLE_CHUNK_SIZE reader)) [0..<k]"
proof -
  have "nth_chunk c uri token tot offset reader (Suc i) =
      nth_chunk c uri token tot (offset + length (take RESUMABLE_CHUNK_SIZE reader))
        (drop RESUMABLE_CHUNK_SIZE reader) i" if "i < k" for i
    using assms that by (intro nth_chunk_Suc) fastforce+
  moreover have "[0..<Suc k] = 0 # map Suc [0..<k]" by (simp add: upt_conv_Cons map_Suc_upt del: upt_Suc)
  ultimately show ?thesis by (simp add: nth_chunk_def [of _ _ _ _ _ _ 0] del: upt_Suc)
qed

lemma http_send_log:
  assumes "\<And>rq w. lg (snd (env_http E rq w)) = lg w @ [rq]" and "http_send E rq w = (x, w')"
  shows "lg w' = lg w @ [rq]"
  using assms(1) [of rq w] assms(2)
  by (auto simp: http_send_def map_errp_def split: prod.splits sum.splits)

text \<open>The requests of an upload: some chunks in a row and, when nothing is left to read, perhaps a commit.\<close>

inductive sent :: "drive_client \<Rightarrow> string \<Rightarrow> string \<Rightarrow> nat \<Rightarrow> nat \<Rightarrow> string \<Rightarrow> http_request list \<Rightarrow> bool"
  for c uri token tot where
  nothing: "sent c uri token tot offset reader []"
| commit: "tot \<le> offset \<Longrightarrow> sent c uri token tot offset [] [commit_request c uri token tot]"
| chunk: "reader \<noteq> [] \<Longrightarrow>
    sent c uri token tot (offset + length (take RESUMABLE_CHUNK_SIZE reader)) (drop RESUMABLE_CHUNK_SIZE reader) rqs \<Longrightarrow>
    sent c uri token tot offset reader
      (chunk_request c uri token tot offset (take RESUMABLE_CHUNK_SIZE reader) # rqs)"

lemma sent_chunks:
  assumes "sent c uri token tot offset reader rqs"
  shows "\<exists>k. (\<forall>i < k. i * RESUMABLE_CHUNK_SIZE < length reader) \<and>
    (rqs = map (nth_chunk c uri token tot offset reader) [0..<k] \<or>
     rqs = map (nth_chunk c uri token tot offset reader) [0..<k] @ [commit_request c uri token tot] \<and>
     length reader \<le> k * RESUMABLE_CHUNK_SIZE \<and> tot \<le> offset + length reader)"
  using assms
proof induction
  case (nothing offset reader)
  show ?case by (intro exI [of _ 0]) simp
next
  case (commit offset)
  then show ?case by (intro exI [of _ 0]) simp
next
  case (chunk reader offset rqs)
  let ?chunk = "take RESUMABLE_CHUNK_SIZE reader" and ?rest = "drop RESUMABLE_CHUNK_SIZE reader"
  obtain k where k: "\<forall>i < k. i * RESUMABLE_CHUNK_SIZE < length ?rest"
    and rqs: "rqs = map (nth_chunk c uri token tot (offset + length ?chunk) ?rest) [0..<k] \<or>
      rqs = map (nth_chunk c uri token tot (offset + length ?chunk) ?rest) [0..<k] @ [commit_request c uri token tot] \<and>
      length ?rest \<le> k * RESUMABLE_CHUNK_SIZE \<and> tot \<le> offset + length ?chunk + length ?rest"
    using chunk.IH by blast
  have "?chunk \<noteq> []" using chunk.hyps(1) chunk_size_pos by simp
  note m = map_nth_chunk_Suc [OF this k, of c uri token tot offset]
  have "\<forall>i < Suc k. i * RESUMABLE_CHUNK_SIZE < length reader"
    using k chunk.hyps(1) by (auto simp: less_Suc_eq_0_disj less_diff_conv)
  moreover have "length ?chunk + length ?rest = length reader" by simp
  ultimately show ?case
    using rqs m by (intro exI [of _ "Suc k"]) (auto simp del: upt_Suc)
qed

lemma upload_from_sends:
  assumes lg: "\<And>rq w. lg (snd (env_http E rq w)) = lg w @ [rq]"
    and "upload_from E K c uri token tot offset reader w = (r, w')"
  shows "\<exists>rqs. lg w' = lg w @ rqs \<and> sent c uri token tot offset reader rqs"
  using assms(2)
proof (induction "length reader" arbitrary: reader offset w rule: less_induct)
  case less
  let ?chunk = "take RESUMABLE_CHUNK_SIZE reader" and ?rest = "drop RESUMABLE_CHUNK_SIZE reader"
  let ?rq = "chunk_request c uri token tot offset ?chunk"
  note run = less.prems [unfolded upload_from.simps [of E K c uri token tot offset reader] Let_def]
  show ?case
  proof (cases "reader = []")
    case nil: True
    show ?thesis
    proof (cases "offset < tot")
      case True
      with run nil have "w' = w" by (simp add: failp_def)
      then show ?thesis by (auto intro: sent.nothing)
    next
      case False
      with run nil have "commit_upload E K c uri token tot w = (r, w')" by simp
      then have "lg w' = lg w @ [commit_request c uri token tot]"
        by (auto simp: commit_upload_def seqp_def liftp_def failp_def split: prod.splits sum.splits if_splits
            dest!: http_send_log [OF lg])
      with False nil show ?thesis by (auto intro: sent.commit)
    qed
  next
    case ne: False
    then have chunk: "?chunk \<noteq> []" using chunk_size_pos by simp
    obtain x w1 where s: "http_send E ?rq w = (x, w1)" by (cases "http_send E ?rq w")
    have l1: "lg w1 = lg w @ [?rq]" using http_send_log [OF lg s] .
    show ?thesis
    proof (cases "\<exists>res. x = Inr res \<and> rs_status res = 308")
      case False
      then have "w' = w1"
        using run chunk s by (auto simp: seqp_def liftp_def failp_def split: sum.splits if_splits)
      with l1 show ?thesis by (auto intro: sent.chunk [OF ne sent.nothing])
    next
      case True
      then have rec: "upload_from E K c uri token tot (offset + length ?chunk) ?rest w1 = (r, w')"
        using run chunk s by (auto simp: seqp_def)
      have "length ?rest < length reader" using ne chunk_size_pos by simp
      from less.hyps [OF this rec] obtain rqs where "lg w' = lg w1 @ rqs"
        and more: "sent c uri token tot (offset + length ?chunk) ?rest rqs" by blast
      with l1 sent.chunk [OF ne more] show ?thesis by auto
    qed
  qed
qed

lemma upload_from_log:
  assumes lg: "\<And>rq w. lg (snd (env_http E rq w)) = lg w @ [rq]"
    and "upload_from E K c uri token tot offset reader w = (r, w')"
  shows "\<exists>k. (\<forall>i < k. i * RESUMABLE_CHUNK_SIZE < length reader) \<and>
    (lg w' = lg w @ map (nth_chunk c uri token tot offset reader) [0..<k] \<or>
     lg w' = lg w @ map (nth_chunk c uri token tot offset reader) [0..<k] @
       [commit_request c uri token tot] \<and>
     length reader \<le> k * RESUMABLE_CHUNK_SIZE \<and> tot \<le> offset + length reader)"
proof -
  obtain rqs where "lg w' = lg w @ rqs" "sent c uri token tot offset reader rqs"
    using upload_from_sends [where lg = lg, OF assms] by blast
  with sent_chunks [OF this(2)] show ?thesis by auto
qed

text \<open>
  C16: a resumable upload sends the bytes from the start offset on, in order and without gap or
  overlap: its requests are the first \<open>k\<close> chunks of 8 MiB, each with the matching
  \<open>Content-Range\<close>; the commit request follows only when every byte was sent, and nothing follows
  it. (\<open>lg\<close> is any log that each request is appended to.)
\<close>

theorem resumable_upload_contiguous:
  fixes lg :: "'w \<Rightarrow> http_request list"
  assumes "\<And>rq w. lg (snd (env_http E rq w)) = lg w @ [rq]" and "start \<le> length content"
    and "upload_chunks_resumable E K c uri token (length content) start content w = (r, w')"
  shows "\<exists>k. (\<forall>i < k. start + i * RESUMABLE_CHUNK_SIZE < length content) \<and>
    (lg w' = lg w @ map (nth_chunk c uri token (length content) start (drop start content)) [0..<k] \<or>
     lg w' = lg w @ map (nth_chunk c uri token (length content) start (drop start content)) [0..<k] @
         [commit_request c uri token (length content)] \<and>
       length content \<le> start + k * RESUMABLE_CHUNK_SIZE)"
proof -
  have "upload_from E K c uri token (length content) start (drop start content) w = (r, w')"
    using assms(2,3) by (simp add: upload_chunks_resumable_def skip_bytes_eq seqp_def liftp_def)
  from upload_from_log [where lg = lg, OF assms(1) this] obtain k where
    "\<forall>i < k. i * RESUMABLE_CHUNK_SIZE < length (drop start content)"
    "lg w' = lg w @ map (nth_chunk c uri token (length content) start (drop start content)) [0..<k] \<or>
     lg w' = lg w @ map (nth_chunk c uri token (length content) start (drop start content)) [0..<k] @
       [commit_request c uri token (length content)] \<and>
     length (drop start content) \<le> k * RESUMABLE_CHUNK_SIZE" by blast
  then show ?thesis by (intro exI [of _ k]) (auto simp: less_diff_conv add.commute)
qed

text \<open>A world that logs the requests and answers every one with 201 and an empty body.\<close>

definition log_env :: "http_request list env" where
  "log_env = \<lparr>env_now = (\<lambda>w. (0, w)), env_uuid = (\<lambda>w. (''id'', w)), env_pause = (\<lambda>w. (False, w)),
     env_sleep = (\<lambda>_ w. w),
     env_http = (\<lambda>rq w. (Inr \<lparr>rs_status = 201, rs_headers = [], rs_body = Inr []\<rparr>, w @ [rq])),
     env_tokens = \<lparr>ts_store_refresh_token = (\<lambda>_ _. retp ()),
       ts_get_refresh_token = (\<lambda>_. retp (Some ''rt'')), ts_delete_refresh_token = (\<lambda>_. retp ())\<rparr>,
     env_refresh = (\<lambda>_. retp (''at'', Some 3600))\<rparr>"

definition demo_drive_file :: drive_file where
  "demo_drive_file = \<lparr>df_id = ''d1'', df_name = ''a.txt'', df_mime_type = ''text/plain'',
     df_md5_checksum = Some ''m'', df_size = None, df_modified_time = Some ''17'',
     df_parents = Some [''root''], df_trashed = None\<rparr>"

definition demo_codecs :: codecs where
  "demo_codecs = \<lparr>cd_drive_file = (\<lambda>_. Inr demo_drive_file),
     cd_change_set = (\<lambda>_. Inr \<lparr>cs_next_page_token = None, cs_new_start_page_token = Some ''2'', cs_changes = []\<rparr>),
     cd_file_list = (\<lambda>_. Inl []), cd_start_token = (\<lambda>_. Inr ''1''), cd_about = (\<lambda>_. Inl []),
     cd_url_error = (\<lambda>_. None), cd_mime_error = (\<lambda>_. None),
     cd_userinfo = (\<lambda>_. Inl []), cd_status_text = nat_to_str\<rparr>"

definition demo_client :: drive_client where
  "demo_client = \<lparr>dc_base_url = ''https://www.googleapis.com'', dc_request_timeout_secs = 30,
     dc_upload_timeout_secs = 300, dc_backoff = backoff_default\<rparr>"

lemma resumable_upload_contiguous_witness:
  "\<exists>k w'. snd (upload_chunks_resumable log_env demo_codecs demo_client ''u'' ''t'' 3 1 ''abc'' []) = w' \<and>
     (w' = map (nth_chunk demo_client ''u'' ''t'' 3 1 ''bc'') [0..<k] \<or>
      w' = map (nth_chunk demo_client ''u'' ''t'' 3 1 ''bc'') [0..<k] @ [commit_request demo_client ''u'' ''t'' 3])"
proof -
  obtain r w' where rw: "upload_chunks_resumable log_env demo_codecs demo_client ''u'' ''t''
      (length ''abc'') 1 ''abc'' [] = (r, w')" by (metis surj_pair)
  have "\<And>rq w. id (snd (env_http log_env rq w)) = id w @ [rq]" by (simp add: log_env_def)
  from resumable_upload_contiguous [where lg = id, OF this _ rw] rw
  show ?thesis by (auto simp: numeral_3_eq_3)
qed

end
