(* ===== verification/Gds_Auth.thy ===== *)
theory Gds_Auth
  imports Gds_Client
begin

text \<open>
  Authentication (\<open>crates/gds-core/src/auth/\<close>): token stores, the loopback redirect, the
  authorization flow, and the token provider with its cache. The oauth2, keyring and urlencoding
  crates and the sockets are parameters. The locale \<open>token_store_laws\<close> is the contract of the
  \<open>TokenStore\<close> trait; \<open>InMemoryTokenStore\<close> satisfies it.
\<close>

section \<open>Token stores\<close>

definition OAUTH_CLIENT_SECRET_KEY :: string where
  "OAUTH_CLIENT_SECRET_KEY = ''oauth:client_secret''"

text \<open>The two default methods of the trait.\<close>

definition get_oauth_client_secret :: "'w token_store \<Rightarrow> ('w, sync_error, string option) proc" where
  "get_oauth_client_secret ST = ts_get_refresh_token ST OAUTH_CLIENT_SECRET_KEY"

definition set_oauth_client_secret :: "'w token_store \<Rightarrow> string \<Rightarrow> ('w, sync_error, unit) proc" where
  "set_oauth_client_secret ST secret = ts_store_refresh_token ST OAUTH_CLIENT_SECRET_KEY secret"

text \<open>\<open>InMemoryTokenStore\<close>: a hash map (its lock is never poisoned).\<close>

type_synonym token_map = "(string \<times> string) list"

definition mem_store :: "string \<Rightarrow> string \<Rightarrow> (token_map, sync_error, unit) proc" where
  "mem_store key token = modp (AList.update key token)"

definition mem_get :: "string \<Rightarrow> (token_map, sync_error, string option) proc" where
  "mem_get key = getp (\<lambda>m. map_of m key)"

definition mem_delete :: "string \<Rightarrow> (token_map, sync_error, unit) proc" where
  "mem_delete key = modp (AList.delete key)"

definition in_memory_token_store :: "token_map token_store" where
  "in_memory_token_store =
     \<lparr>ts_store_refresh_token = mem_store, ts_get_refresh_token = mem_get,
      ts_delete_refresh_token = mem_delete\<rparr>"

text \<open>
  \<open>KeyringTokenStore\<close> over the keyring crate: opening an entry, setting, getting and deleting its
  password, each with the crate's error text.
\<close>

record 'w keyring =
  kr_entry :: "string \<Rightarrow> string \<Rightarrow> ('w, string, unit) proc"
  kr_set_password :: "string \<Rightarrow> string \<Rightarrow> ('w, string, unit) proc"
  kr_get_password :: "string \<Rightarrow> ('w, string, string) proc"
  kr_delete_credential :: "string \<Rightarrow> ('w, string, unit) proc"

definition KEYRING_SERVICE :: string where
  "KEYRING_SERVICE = ''gds''"

definition keyring_entry :: "'w keyring \<Rightarrow> string \<Rightarrow> ('w, sync_error, unit) proc" where
  "keyring_entry KR key = map_errp AuthError (kr_entry KR KEYRING_SERVICE key)"

definition keyring_store :: "'w keyring \<Rightarrow> string \<Rightarrow> string \<Rightarrow> ('w, sync_error, unit) proc" where
  "keyring_store KR key token =
     seqp (keyring_entry KR key) (\<lambda>_. map_errp AuthError (kr_set_password KR key token))"

text \<open>The messages that mean that there is no such entry.\<close>

definition no_entry_message :: "string \<Rightarrow> bool" where
  "no_entry_message msg \<longleftrightarrow> contains_str msg ''No such'' \<or> contains_str msg ''not found'' \<or>
     contains_str msg ''No matching entry'' \<or> contains_str msg ''secure storage''"

definition keyring_get :: "'w keyring \<Rightarrow> string \<Rightarrow> ('w, sync_error, string option) proc" where
  "keyring_get KR key =
     seqp (keyring_entry KR key) (\<lambda>_.
       seqp (tryp (kr_get_password KR key)) (\<lambda>r.
         case r of
           Inr password \<Rightarrow> retp (Some password)
         | Inl msg \<Rightarrow> if no_entry_message msg then retp None else failp (AuthError msg)))"

definition keyring_delete :: "'w keyring \<Rightarrow> string \<Rightarrow> ('w, sync_error, unit) proc" where
  "keyring_delete KR key =
     seqp (keyring_entry KR key) (\<lambda>_. seqp (tryp (kr_delete_credential KR key)) (\<lambda>_. retp ()))"

definition keyring_token_store :: "'w keyring \<Rightarrow> 'w token_store" where
  "keyring_token_store KR =
     \<lparr>ts_store_refresh_token = keyring_store KR, ts_get_refresh_token = keyring_get KR,
      ts_delete_refresh_token = keyring_delete KR\<rparr>"

section \<open>The loopback redirect\<close>

text \<open>
  Sockets, browser and oauth2 crate, as the flow uses them. \<open>oa_url\<close>: the parser of URLs behind
  \<open>AuthUrl::new\<close>, \<open>TokenUrl::new\<close> and \<open>RedirectUrl::new\<close>; \<open>oa_authorize_url\<close>: a new PKCE pair and the URL of a
  client for some scopes, with the CSRF state and the verifier.
\<close>

record basic_client =
  bc_client_id :: string
  bc_client_secret :: "string option"
  bc_auth_uri :: string
  bc_token_uri :: string
  bc_redirect_uri :: string

record 'w oauth_ops =
  oa_bind :: "nat \<Rightarrow> 'w \<Rightarrow> bool \<times> 'w"
  oa_url :: "string \<Rightarrow> string + string"
  oa_authorize_url :: "basic_client \<Rightarrow> string list \<Rightarrow> 'w \<Rightarrow> (string \<times> string \<times> string) \<times> 'w"
  oa_open :: "(string \<Rightarrow> 'w \<Rightarrow> bool \<times> 'w) option"
  oa_accept :: "('w, io_error option, unit) proc"
  oa_read :: "('w, io_error, string) proc"
  oa_write :: "string \<Rightarrow> ('w, io_error, unit) proc"
  oa_flush :: "('w, io_error, unit) proc"
  oa_url_decode :: "string \<Rightarrow> string option"
  oa_exchange :: "basic_client \<Rightarrow> string \<Rightarrow> string \<Rightarrow> ('w, string, string option \<times> string \<times> nat option) proc"

definition FALLBACK_PORTS :: "nat list" where
  "FALLBACK_PORTS = [8765, 8766, 8767, 8768, 8769]"

fun bind_first :: "(nat \<Rightarrow> 'w \<Rightarrow> bool \<times> 'w) \<Rightarrow> nat list \<Rightarrow> ('w, sync_error, nat) proc" where
  "bind_first bind [] w = (Inl (AuthError ''Could not bind to any loopback port''), w)"
| "bind_first bind (port # ports) w =
     (case bind port w of (ok, w1) \<Rightarrow> if ok then (Inr port, w1) else bind_first bind ports w1)"

definition bind_loopback :: "'w oauth_ops \<Rightarrow> nat \<Rightarrow> ('w, sync_error, nat) proc" where
  "bind_loopback OA preferred_port =
     bind_first (oa_bind OA) (preferred_port # filter (\<lambda>p. p \<noteq> preferred_port) FALLBACK_PORTS)"

text \<open>The pairs in order; one without \<open>=\<close> or that does not decode refuses the whole query.\<close>

fun redirect_pairs ::
    "(string \<Rightarrow> string option) \<Rightarrow> string list \<Rightarrow> string option \<Rightarrow> string option \<Rightarrow>
     (string option \<times> string option) option" where
  "redirect_pairs dec [] code state = Some (code, state)"
| "redirect_pairs dec (pair # pairs) code state =
     (case split_once CHR ''='' pair of
        None \<Rightarrow> None
      | Some (k, v) \<Rightarrow>
          (case dec v of
             None \<Rightarrow> None
           | Some v' \<Rightarrow>
               if k = ''code'' then redirect_pairs dec pairs (Some v') state
               else if k = ''state'' then redirect_pairs dec pairs code (Some v')
               else redirect_pairs dec pairs code state))"

definition parse_redirect_query ::
    "(string \<Rightarrow> string option) \<Rightarrow> string \<Rightarrow> (string \<times> string) option" where
  "parse_redirect_query dec query =
     (case redirect_pairs dec (split_on CHR ''&'' query) None None of
        Some (Some code, Some state) \<Rightarrow> Some (code, state)
      | _ \<Rightarrow> None)"

text \<open>The query of the request: \<open>lines().next()\<close>, \<open>GET\<close>, the first word, after \<open>/?\<close>.\<close>

definition is_white :: "char \<Rightarrow> bool" where
  "is_white c \<longleftrightarrow> c = CHR '' '' \<or> (9 \<le> (of_char c :: nat) \<and> (of_char c :: nat) \<le> 13)"

definition first_line :: "string \<Rightarrow> string" where
  "first_line s =
     (let l = takeWhile (\<lambda>c. c \<noteq> CHR 0x0A) s
      in if l \<noteq> [] \<and> last l = CHR 0x0D \<and> length l < length s then butlast l else l)"

definition first_word :: "string \<Rightarrow> string option" where
  "first_word s =
     (let w = takeWhile (\<lambda>c. \<not> is_white c) (dropWhile is_white s) in if w = [] then None else Some w)"

definition request_query :: "string \<Rightarrow> string" where
  "request_query request =
     (case Option.bind (Option.bind (strip_prefix_str (first_line request) ''GET '') first_word)
             (\<lambda>path. strip_prefix_str path ''/?'') of
        Some q \<Rightarrow> q | None \<Rightarrow> [])"

definition SUCCESS_HTML :: string where
  "SUCCESS_HTML = ''<!DOCTYPE html><html><head><title>Signed in</title></head><body><p>You are signed in. You can close this tab.</p></body></html>''"

definition ERROR_HTML :: string where
  "ERROR_HTML = ''<!DOCTYPE html><html><head><title>Error</title></head><body><p>Authorization failed. You can close this tab.</p></body></html>''"

definition crlf :: string where
  "crlf = [CHR 0x0D, CHR 0x0A]"

definition redirect_response :: "string \<Rightarrow> string" where
  "redirect_response code =
     (let (status, body) = (if code = [] then (''400 Bad Request'', ERROR_HTML) else (''200 OK'', SUCCESS_HTML))
      in ''HTTP/1.1 '' @ status @ crlf @ ''Content-Type: text/html; charset=utf-8'' @ crlf @
         ''Content-Length: '' @ nat_to_str (length body) @ crlf @ ''Connection: close'' @ crlf @ crlf @ body)"

definition wait_for_redirect :: "'w oauth_ops \<Rightarrow> ('w, sync_error, string \<times> string) proc" where
  "wait_for_redirect OA =
     seqp (map_errp (\<lambda>e. case e of None \<Rightarrow> AuthError ''Timeout waiting for redirect''
                               | Some io \<Rightarrow> NetworkError io) (oa_accept OA)) (\<lambda>_.
     seqp (map_errp NetworkError (oa_read OA)) (\<lambda>request.
     case parse_redirect_query (oa_url_decode OA) (request_query request) of
       None \<Rightarrow> failp (AuthError ''Redirect missing code or state'')
     | Some (code, state) \<Rightarrow>
         seqp (map_errp NetworkError (oa_write OA (redirect_response code))) (\<lambda>_.
         seqp (map_errp NetworkError (oa_flush OA)) (\<lambda>_. retp (code, state)))))"

section \<open>The authorization flow\<close>

text \<open>\<open>exchange_code\<close>: a response without a refresh token is an error, a lifetime defaults to 3600 s.\<close>

definition AUTH_URL :: string where
  "AUTH_URL = ''https://accounts.google.com/o/oauth2/v2/auth''"

definition TOKEN_URL :: string where
  "TOKEN_URL = ''https://oauth2.googleapis.com/token''"

definition SCOPE_DRIVE :: string where
  "SCOPE_DRIVE = ''https://www.googleapis.com/auth/drive''"

definition SCOPE_EMAIL :: string where
  "SCOPE_EMAIL = ''https://www.googleapis.com/auth/userinfo.email''"

definition SCOPE_PROFILE :: string where
  "SCOPE_PROFILE = ''https://www.googleapis.com/auth/userinfo.profile''"

definition build_client_with_urls ::
    "'w oauth_ops \<Rightarrow> string \<Rightarrow> string option \<Rightarrow> string \<Rightarrow> string \<Rightarrow> string \<Rightarrow> sync_error + basic_client" where
  "build_client_with_urls OA client_id client_secret redirect_url auth_url token_url =
     (case oa_url OA auth_url of
        Inl e \<Rightarrow> Inl (AuthError e)
      | Inr auth \<Rightarrow>
          (case oa_url OA token_url of
             Inl e \<Rightarrow> Inl (AuthError e)
           | Inr token \<Rightarrow>
               (case oa_url OA redirect_url of
                  Inl e \<Rightarrow> Inl (AuthError e)
                | Inr redirect \<Rightarrow>
                    Inr \<lparr>bc_client_id = client_id, bc_client_secret = client_secret,
                         bc_auth_uri = auth, bc_token_uri = token, bc_redirect_uri = redirect\<rparr>)))"

definition redirect_url_of :: "nat \<Rightarrow> string" where
  "redirect_url_of redirect_port = ''http://127.0.0.1:'' @ nat_to_str redirect_port @ ''/''"

definition build_client ::
    "'w oauth_ops \<Rightarrow> string \<Rightarrow> string option \<Rightarrow> nat \<Rightarrow> sync_error + basic_client" where
  "build_client OA client_id client_secret redirect_port =
     build_client_with_urls OA client_id client_secret (redirect_url_of redirect_port) AUTH_URL TOKEN_URL"

definition authorization_url ::
    "'w oauth_ops \<Rightarrow> basic_client \<Rightarrow> ('w, sync_error, string \<times> string \<times> string) proc" where
  "authorization_url OA client = okp (oa_authorize_url OA client [SCOPE_DRIVE, SCOPE_EMAIL, SCOPE_PROFILE])"

definition exchange_code ::
    "'w oauth_ops \<Rightarrow> basic_client \<Rightarrow> string \<Rightarrow> string \<Rightarrow> ('w, sync_error, string \<times> string \<times> nat) proc" where
  "exchange_code OA client code verifier =
     seqp (map_errp AuthError (oa_exchange OA client code verifier)) (\<lambda>(refresh, access, expires).
       case refresh of
         None \<Rightarrow> failp (AuthError ''No refresh token in response'')
       | Some rt \<Rightarrow> retp (rt, access, case expires of Some n \<Rightarrow> n | None \<Rightarrow> 3600))"

text \<open>The result: the access token and its lifetime in seconds.\<close>

definition open_in_browser :: "'w oauth_ops \<Rightarrow> string \<Rightarrow> ('w, sync_error, unit) proc" where
  "open_in_browser OA url =
     (case oa_open OA of
        None \<Rightarrow> failp (OpenUrlRequired url)
      | Some open_url \<Rightarrow>
          seqp (okp (open_url url)) (\<lambda>opened. if opened then retp () else failp (OpenUrlRequired url)))"

definition after_redirect ::
    "'w env \<Rightarrow> 'w oauth_ops \<Rightarrow> basic_client \<Rightarrow> string \<Rightarrow> string \<Rightarrow> string \<Rightarrow> ('w, sync_error, string \<times> nat) proc" where
  "after_redirect E OA client csrf_state pkce_verifier account_key =
     seqp (wait_for_redirect OA) (\<lambda>(code, state).
     if state \<noteq> csrf_state then failp (AuthError ''CSRF state mismatch'')
     else
       seqp (exchange_code OA client code pkce_verifier) (\<lambda>(refresh_token, access_token, expires_in).
       seqp (ts_store_refresh_token (env_tokens E) account_key refresh_token) (\<lambda>_.
       retp (access_token, expires_in))))"

definition authorize_flow ::
    "'w env \<Rightarrow> 'w oauth_ops \<Rightarrow> string \<Rightarrow> string option \<Rightarrow> nat \<Rightarrow> string \<Rightarrow>
     ('w, sync_error, string \<times> nat) proc" where
  "authorize_flow E OA client_id client_secret preferred_redirect_port account_key =
     seqp (bind_loopback OA preferred_redirect_port) (\<lambda>actual_port.
     seqp (liftp (build_client OA client_id client_secret actual_port)) (\<lambda>client.
     seqp (authorization_url OA client) (\<lambda>(url, csrf_state, pkce_verifier).
     seqp (open_in_browser OA url) (\<lambda>_.
     after_redirect E OA client csrf_state pkce_verifier account_key))))"

section \<open>Refresh, revoke, user info\<close>

definition refresh_access_token :: "'w env \<Rightarrow> string \<Rightarrow> ('w, sync_error, string \<times> nat) proc" where
  "refresh_access_token E refresh_token =
     seqp (map_errp AuthError (env_refresh E refresh_token)) (\<lambda>(access_token, expires).
       retp (access_token, case expires of Some n \<Rightarrow> n | None \<Rightarrow> 3600))"

definition REVOKE_URL :: string where
  "REVOKE_URL = ''https://oauth2.googleapis.com/revoke''"

definition other_error :: "string \<Rightarrow> io_error" where
  "other_error m = \<lparr>io_kind = OtherKind, io_text = m\<rparr>"

definition revoke_token :: "'w env \<Rightarrow> codecs \<Rightarrow> string \<Rightarrow> ('w, sync_error, unit) proc" where
  "revoke_token E K token =
     seqp (map_errp (\<lambda>m. NetworkError (other_error m))
            (env_http E \<lparr>rq_method = POST, rq_url = REVOKE_URL, rq_query = [], rq_headers = [],
               rq_timeout_secs = 10, rq_body = FormBody [(''token'', token)]\<rparr>))
       (\<lambda>res. if 400 \<le> rs_status res \<and> rs_status res < 600
              then failp (AuthError (''Revoke failed '' @ cd_status_text K (rs_status res) @ '': '' @
                     (case rs_body res of Inl _ \<Rightarrow> [] | Inr b \<Rightarrow> b)))
              else retp ())"

definition fetch_google_userinfo ::
    "'w env \<Rightarrow> codecs \<Rightarrow> string \<Rightarrow> ('w, sync_error, string \<times> string option) proc" where
  "fetch_google_userinfo E K access_token =
     seqp (map_errp AuthError (env_http E
            \<lparr>rq_method = GET, rq_url = ''https://www.googleapis.com/oauth2/v2/userinfo'', rq_query = [],
             rq_headers = [bearer access_token], rq_timeout_secs = 15, rq_body = NoBody\<rparr>))
       (\<lambda>res. if \<not> is_success (rs_status res)
              then failp (AuthError (''userinfo returned '' @ cd_status_text K (rs_status res)))
              else liftp (case rs_body res of
                Inl m \<Rightarrow> Inl (AuthError m)
              | Inr b \<Rightarrow> (case cd_userinfo K b of
                  Inl m \<Rightarrow> Inl (AuthError m)
                | Inr (email, name) \<Rightarrow> Inr (case email of Some e \<Rightarrow> e | None \<Rightarrow> [],
                    if name = Some [] then None else name))))"

section \<open>The token provider\<close>

definition REFRESH_BUFFER_SECS :: int where
  "REFRESH_BUFFER_SECS = 60"

definition cache_insert ::
    "'w env \<Rightarrow> libs \<Rightarrow> string \<Rightarrow> string \<Rightarrow> nat \<Rightarrow> (('w, 'd) world, sync_error, unit) proc" where
  "cache_insert E L account_key access_token expires_in =
     seqp (on_env (okp (env_now E))) (\<lambda>now.
       modp (\<lambda>s. s\<lparr>w_cache := AList.update account_key
         (access_token, lib_timestamp L now + int expires_in) (w_cache s)\<rparr>))"

text \<open>The slow path of \<open>get_valid_access_token\<close>: the token store, the token endpoint, the cache.\<close>

definition refresh_and_cache ::
    "'w env \<Rightarrow> string \<Rightarrow> int \<Rightarrow> (('w, 'd) world, sync_error, string) proc" where
  "refresh_and_cache E account_key now =
     seqp (on_env (ts_get_refresh_token (env_tokens E) account_key)) (\<lambda>r.
     case r of
       None \<Rightarrow> failp AuthExpired
     | Some refresh \<Rightarrow>
         seqp (on_env (refresh_access_token E refresh)) (\<lambda>(access_token, expires_in).
         seqp (modp (\<lambda>s. s\<lparr>w_cache := AList.update account_key
             (access_token, now + int expires_in) (w_cache s)\<rparr>)) (\<lambda>_.
         retp access_token)))"

definition get_valid_access_token ::
    "'w env \<Rightarrow> libs \<Rightarrow> string \<Rightarrow> (('w, 'd) world, sync_error, string) proc" where
  "get_valid_access_token E L account_key =
     seqp (on_env (okp (env_now E))) (\<lambda>t.
     let now = lib_timestamp L t in
     seqp (getp (\<lambda>s. map_of (w_cache s) account_key)) (\<lambda>cached.
     case cached of
       Some (token, expires_at) \<Rightarrow>
         if expires_at > now + REFRESH_BUFFER_SECS then retp token
         else refresh_and_cache E account_key now
     | None \<Rightarrow> refresh_and_cache E account_key now))"

definition revoke_and_remove ::
    "'w env \<Rightarrow> codecs \<Rightarrow> string \<Rightarrow> (('w, 'd) world, sync_error, unit) proc" where
  "revoke_and_remove E K account_key =
     seqp (on_env (ts_get_refresh_token (env_tokens E) account_key)) (\<lambda>r.
     seqp (case r of
             Some refresh \<Rightarrow> seqp (tryp (on_env (revoke_token E K refresh))) (\<lambda>_. retp ())
           | None \<Rightarrow> retp ()) (\<lambda>_.
     seqp (on_env (ts_delete_refresh_token (env_tokens E) account_key)) (\<lambda>_.
       modp (\<lambda>s. s\<lparr>w_cache := AList.delete account_key (w_cache s)\<rparr>))))"

section \<open>The contract of a token store\<close>

text \<open>
  \<open>tokens w\<close> is what the store holds; its operations read and write this map and nothing else of
  it, and succeed.
\<close>

locale token_store_laws =
  fixes ST :: "'w token_store"
    and tokens :: "'w \<Rightarrow> string \<Rightarrow> string option"
  assumes get_law: "ts_get_refresh_token ST k w = (Inr (tokens w k), w)"
    and store_law: "ts_store_refresh_token ST k t w = (r, w') \<Longrightarrow> r = Inr () \<and> tokens w' = (tokens w)(k \<mapsto> t)"
    and delete_law: "ts_delete_refresh_token ST k w = (r, w') \<Longrightarrow> r = Inr () \<and> tokens w' = (tokens w)(k := None)"
begin

lemma store_then_get:
  "ts_store_refresh_token ST k t w = (r, w') \<Longrightarrow> ts_get_refresh_token ST k w' = (Inr (Some t), w')"
  by (simp add: get_law store_law)

lemma delete_then_get:
  "ts_delete_refresh_token ST k w = (r, w') \<Longrightarrow> ts_get_refresh_token ST k w' = (Inr None, w')"
  by (simp add: get_law delete_law)

lemma get_after_other:
  "ts_store_refresh_token ST j t w = (r, w') \<Longrightarrow> j \<noteq> k \<Longrightarrow>
   fst (ts_get_refresh_token ST k w') = fst (ts_get_refresh_token ST k w)"
  by (simp add: get_law store_law)

text \<open>The client secret shares the store with the refresh tokens, under its own key.\<close>

lemma client_secret_round_trip:
  "set_oauth_client_secret ST secret w = (r, w') \<Longrightarrow>
   get_oauth_client_secret ST w' = (Inr (Some secret), w') \<and>
   (\<forall>k. k \<noteq> OAUTH_CLIENT_SECRET_KEY \<longrightarrow> tokens w' k = tokens w k)"
  by (auto simp: set_oauth_client_secret_def get_oauth_client_secret_def store_law dest: store_then_get)

end

interpretation mem: token_store_laws in_memory_token_store map_of
  by unfold_locales
    (auto simp: in_memory_token_store_def mem_store_def mem_get_def mem_delete_def proc_simps
      map_of_update map_of_delete)

section \<open>Properties\<close>

text \<open>
  The in-memory store keeps what it is given: the client secret and every refresh token stored
  are returned, a deleted one is gone, and writing the client secret touches no account's token
  (unless an account is named like the secret's key).
\<close>

theorem in_memory_store_contract:
  assumes "mem_store k t m = (r1, m1)" and "mem_delete k m1 = (r2, m2)"
    and "set_oauth_client_secret in_memory_token_store secret m1 = (r3, m3)"
  shows "r1 = Inr () \<and> r2 = Inr () \<and> mem_get k m1 = (Inr (Some t), m1) \<and>
    mem_get k m2 = (Inr None, m2) \<and>
    get_oauth_client_secret in_memory_token_store m3 = (Inr (Some secret), m3) \<and>
    (k \<noteq> OAUTH_CLIENT_SECRET_KEY \<longrightarrow> mem_get k m3 = (Inr (Some t), m3))"
proof -
  have ops: "ts_store_refresh_token in_memory_token_store = mem_store"
    "ts_get_refresh_token in_memory_token_store = mem_get"
    "ts_delete_refresh_token in_memory_token_store = mem_delete"
    by (simp_all add: in_memory_token_store_def)
  show ?thesis
    using mem.store_law [unfolded ops, OF assms(1)] mem.delete_law [unfolded ops, OF assms(2)]
      mem.client_secret_round_trip [OF assms(3)]
    by (simp add: mem.get_law [unfolded ops])
qed

lemma in_memory_store_contract_witness:
  "mem_get ''a'' [(''a'', ''t'')] = (Inr (Some ''t''), [(''a'', ''t'')])"
proof -
  have "mem_store ''a'' ''t'' [] = (Inr (), [(''a'', ''t'')])"
    by (simp add: mem_store_def modp_def)
  from in_memory_store_contract [OF this surjective_pairing surjective_pairing, of "''s''"]
  show ?thesis by simp
qed

text \<open>
  A redirect query with a code and a state, in percent-encoded texts that contain no \<open>&\<close>, is
  parsed to exactly what these texts decode to, and pairs with other names in front do not matter.
\<close>

theorem redirect_query_parsed:
  assumes "dec ec = Some code" and "dec es = Some state" and "dec ex = Some extra"
    and "CHR ''&'' \<notin> set (ec @ es @ ex @ name)" and "CHR ''='' \<notin> set name"
    and "name \<noteq> ''code''" and "name \<noteq> ''state''"
  shows "parse_redirect_query dec (name @ ''='' @ ex @ ''&code='' @ ec @ ''&state='' @ es) = Some (code, state)"
proof -
  have once: "split_once c (a @ c # b) = Some (a, b)" if "c \<notin> set a" for c and a b :: string
    using that by (induction a) auto
  have "split_on CHR ''&'' ((name @ ''='' @ ex) @ CHR ''&'' # (''code='' @ ec) @ CHR ''&'' # (''state='' @ es)) =
      [name @ ''='' @ ex, ''code='' @ ec, ''state='' @ es]"
    using assms(4) by (simp only: split_on_append_sep) (simp add: split_on_no_occ)
  then have s: "split_on CHR ''&'' (name @ ''='' @ ex @ ''&code='' @ ec @ ''&state='' @ es) =
      [name @ ''='' @ ex, ''code='' @ ec, ''state='' @ es]" by simp
  have o: "split_once CHR ''='' (name @ ''='' @ ex) = Some (name, ex)"
    using once [OF assms(5), of ex] by simp
  show ?thesis
    unfolding parse_redirect_query_def s redirect_pairs.simps o using assms(1-3,6,7) by simp
qed

lemma redirect_query_parsed_witness:
  "parse_redirect_query Some ''scope=drive&code=4/x&state=s1'' = Some (''4/x'', ''s1'')"
  using redirect_query_parsed [of Some "''4/x''" "''4/x''" "''s1''" "''s1''" "''drive''" "''drive''" "''scope''"]
  by simp

text \<open>
  C23: the access token handed out is fresh: it is the cached one only if that expires more than
  60 s from now, and then nothing but the clock is consulted; otherwise it is the one the token
  endpoint just issued for the account's refresh token, and it is cached with its lifetime. Disk,
  database and the other accounts' cache entries are untouched.
\<close>

theorem access_token_fresh:
  assumes "get_valid_access_token E L key s = (Inr token, s')"
  shows "\<exists>t w. env_now E (w_env s) = (t, w) \<and>
    (if \<exists>tk ex. map_of (w_cache s) key = Some (tk, ex) \<and> ex > lib_timestamp L t + 60
     then (\<exists>ex. map_of (w_cache s) key = Some (token, ex) \<and> s' = s\<lparr>w_env := w\<rparr>)
     else (\<exists>refresh w1 n.
       ts_get_refresh_token (env_tokens E) key w = (Inr (Some refresh), w1) \<and>
       refresh_access_token E refresh w1 = (Inr (token, n), w_env s') \<and>
       w_cache s' = AList.update key (token, lib_timestamp L t + int n) (w_cache s) \<and>
       w_disk s' = w_disk s \<and> w_db s' = w_db s))"
proof -
  obtain t w where n: "env_now E (w_env s) = (t, w)" by (cases "env_now E (w_env s)")
  have slow: "\<exists>refresh w1 n.
       ts_get_refresh_token (env_tokens E) key w = (Inr (Some refresh), w1) \<and>
       refresh_access_token E refresh w1 = (Inr (token, n), w_env s') \<and>
       w_cache s' = AList.update key (token, lib_timestamp L t + int n) (w_cache s) \<and>
       w_disk s' = w_disk s \<and> w_db s' = w_db s"
    if "refresh_and_cache E key (lib_timestamp L t) (s\<lparr>w_env := w\<rparr>) = (Inr token, s')"
    using that
    by (auto simp: refresh_and_cache_def proc_simps on_env_def modp_def
        split: prod.splits sum.splits option.splits) (metis prod.collapse)
  have run: "get_valid_access_token E L key s =
      (case map_of (w_cache s) key of
         Some (tk, ex) \<Rightarrow> if ex > lib_timestamp L t + 60 then (Inr tk, s\<lparr>w_env := w\<rparr>)
           else refresh_and_cache E key (lib_timestamp L t) (s\<lparr>w_env := w\<rparr>)
       | None \<Rightarrow> refresh_and_cache E key (lib_timestamp L t) (s\<lparr>w_env := w\<rparr>))"
    using n by (simp add: get_valid_access_token_def seqp_def getp_def retp_def on_env_def okp_def
        REFRESH_BUFFER_SECS_def Let_def split: option.splits)
  show ?thesis
  proof (cases "\<exists>tk ex. map_of (w_cache s) key = Some (tk, ex) \<and> ex > lib_timestamp L t + 60")
    case True
    with n assms run show ?thesis by auto
  next
    case False
    then have "refresh_and_cache E key (lib_timestamp L t) (s\<lparr>w_env := w\<rparr>) = (Inr token, s')"
      using assms run by (cases "map_of (w_cache s) key") auto
    note r = slow [OF this]
    show ?thesis
      by (rule exI [of _ t], rule exI [of _ w]) (simp only: n False if_False r simp_thms)
  qed
qed

definition token_env :: "token_map env" where
  "token_env = \<lparr>env_now = (\<lambda>w. (100000000000, w)), env_uuid = (\<lambda>w. (''id'', w)),
     env_pause = (\<lambda>w. (False, w)), env_sleep = (\<lambda>_ w. w),
     env_http = (\<lambda>rq w. (Inr \<lparr>rs_status = 200, rs_headers = [], rs_body = Inr []\<rparr>, w)),
     env_tokens = in_memory_token_store,
     env_refresh = (\<lambda>rt. retp (''access-'' @ rt, Some 3600))\<rparr>"

definition token_world :: "(token_map, unit) world" where
  "token_world = \<lparr>w_env = [(''acc'', ''rt'')], w_disk = (), w_db = db_empty,
     w_cache = [(''acc'', (''old'', 160))], w_notices = []\<rparr>"

lemma access_token_fresh_witness:
  "\<exists>s'. get_valid_access_token token_env demo_libs ''acc'' token_world = (Inr ''access-rt'', s') \<and>
     w_cache s' = [(''acc'', (''access-rt'', 3700))]"
proof -
  have f: "fst (get_valid_access_token token_env demo_libs ''acc'' token_world) = Inr ''access-rt''"
    by (simp add: get_valid_access_token_def refresh_and_cache_def proc_simps token_env_def Let_def
        token_world_def demo_libs_def in_memory_token_store_def mem_get_def
        refresh_access_token_def REFRESH_BUFFER_SECS_def)
  then obtain s' where s': "get_valid_access_token token_env demo_libs ''acc'' token_world =
      (Inr ''access-rt'', s')" by (metis prod.collapse)
  have ts: "lib_timestamp demo_libs t = t div 1000000000" for t by (simp add: demo_libs_def)
  have now: "env_now token_env w = (100000000000, w)" for w by (simp add: token_env_def)
  have ex: "\<exists>refresh w1 n. refresh_access_token token_env refresh w1 = (Inr (''access-rt'', n), w_env s') \<and>
      w_cache s' = AList.update ''acc'' (''access-rt'', 100 + int n) (w_cache token_world)"
  proof -
    have m: "map_of (w_cache token_world) ''acc'' = Some (''old'', 160)" by (simp add: token_world_def)
    show ?thesis using access_token_fresh [OF s'] by (auto simp: now m ts)
  qed
  then obtain refresh w1 n where r: "refresh_access_token token_env refresh w1 = (Inr (''access-rt'', n), w_env s')"
    and c: "w_cache s' = AList.update ''acc'' (''access-rt'', 100 + int n) (w_cache token_world)" by blast
  have "n = 3600"
    using r by (simp add: refresh_access_token_def seqp_def map_errp_def token_env_def retp_def)
  with c s' show ?thesis by (simp add: token_world_def)
qed

text \<open>
  After an account was revoked and removed, asking for its access token fails with
  \<open>AuthExpired\<close>: neither the store nor the cache has anything left for it. (The store obeys its
  contract, and the clock and the network do not write to it.)
\<close>

theorem revoked_account_has_no_token:
  assumes "token_store_laws (env_tokens E) tokens"
    and "\<And>w. tokens (snd (env_now E w)) = tokens w"
    and "revoke_and_remove E K key s = (r, s1)" and "get_valid_access_token E L key s1 = (r', s2)"
  shows "r = Inr () \<and> tokens (w_env s1) key = None \<and> r' = Inl AuthExpired \<and>
    map_of (w_cache s2) key = None"
proof -
  have get: "ts_get_refresh_token (env_tokens E) k w = (Inr (tokens w k), w)" for k w
    using assms(1) by (rule token_store_laws.get_law)
  have del: "fst (ts_delete_refresh_token (env_tokens E) k w) = Inr ()"
    "tokens (snd (ts_delete_refresh_token (env_tokens E) k w)) = (tokens w)(k := None)" for k w
    using token_store_laws.delete_law [OF assms(1) surjective_pairing] by simp_all
  have s1: "r = Inr () \<and> tokens (w_env s1) key = None \<and> map_of (w_cache s1) key = None"
    using assms(3)
    by (auto simp: revoke_and_remove_def proc_simps get del map_of_delete split: option.splits)
  have "r' = Inl AuthExpired \<and> map_of (w_cache s2) key = None"
    using assms(4) s1 assms(2) [of "w_env s1"]
    by (auto simp: get_valid_access_token_def refresh_and_cache_def proc_simps get Let_def)
  with s1 show ?thesis by simp
qed

lemma revoked_account_has_no_token_witness:
  "fst (get_valid_access_token token_env demo_libs ''acc''
     (snd (revoke_and_remove token_env demo_codecs ''acc'' token_world))) = Inl AuthExpired"
proof -
  have laws: "token_store_laws (env_tokens token_env) map_of"
    using mem.token_store_laws_axioms by (simp add: token_env_def)
  have now: "\<And>w. map_of (snd (env_now token_env w)) = map_of w" by (simp add: token_env_def)
  show ?thesis
    using revoked_account_has_no_token [OF laws now surjective_pairing surjective_pairing,
        of demo_codecs "''acc''" token_world demo_libs] by simp
qed

text \<open>The client that the code builds for a port.\<close>

definition client_for :: "'w oauth_ops \<Rightarrow> string \<Rightarrow> string option \<Rightarrow> nat \<Rightarrow> basic_client \<Rightarrow> bool" where
  "client_for A client_id client_secret port c \<longleftrightarrow>
     bc_client_id c = client_id \<and> bc_client_secret c = client_secret \<and>
     oa_url A AUTH_URL = Inr (bc_auth_uri c) \<and> oa_url A TOKEN_URL = Inr (bc_token_uri c) \<and>
     oa_url A (redirect_url_of port) = Inr (bc_redirect_uri c)"

lemma client_for_built:
  "build_client A client_id client_secret port = Inr c \<Longrightarrow> client_for A client_id client_secret port c"
  by (auto simp: build_client_def build_client_with_urls_def client_for_def split: sum.splits)

text \<open>
  C24: the authorization flow returns a token only when the state in the redirect is the CSRF state
  of its own authorization request and the user's browser was opened; the request names the
  loopback port that the flow listens on as the address of the redirect, with the endpoints of
  the code; and then the refresh token of the exchange, made for the same client, has been stored
  under the account's key.
\<close>

theorem authorize_flow_checks_csrf:
  assumes "authorize_flow E A client_id client_secret port key w = (Inr (access, expires), w')"
  shows "\<exists>bound client url csrf verifier w1 w2 w3 code w4 w5 refresh.
    bind_loopback A port w = (Inr bound, w1) \<and> client_for A client_id client_secret bound client \<and>
    oa_authorize_url A client [SCOPE_DRIVE, SCOPE_EMAIL, SCOPE_PROFILE] w1 = ((url, csrf, verifier), w2) \<and>
    oa_open A \<noteq> None \<and>
    wait_for_redirect A w3 = (Inr (code, csrf), w4) \<and>
    exchange_code A client code verifier w4 = (Inr (refresh, access, expires), w5) \<and>
    ts_store_refresh_token (env_tokens E) key refresh w5 = (Inr (), w')"
proof -
  obtain bound w1 where b: "bind_loopback A port w = (Inr bound, w1)"
    and rest: "seqp (liftp (build_client A client_id client_secret bound)) (\<lambda>client.
      seqp (authorization_url A client) (\<lambda>(url, csrf_state, pkce_verifier).
      seqp (open_in_browser A url) (\<lambda>_. after_redirect E A client csrf_state pkce_verifier key))) w1 =
      (Inr (access, expires), w')"
    using assms unfolding authorize_flow_def by (rule seqp_InrE)
  obtain client where c: "build_client A client_id client_secret bound = Inr client"
    and rest: "seqp (authorization_url A client) (\<lambda>(url, csrf_state, pkce_verifier).
      seqp (open_in_browser A url) (\<lambda>_. after_redirect E A client csrf_state pkce_verifier key)) w1 =
      (Inr (access, expires), w')"
    using rest by (auto simp: liftp_def elim: seqp_InrE split: sum.splits)
  obtain url csrf verifier w2 where u: "oa_authorize_url A client [SCOPE_DRIVE, SCOPE_EMAIL, SCOPE_PROFILE] w1 =
      ((url, csrf, verifier), w2)" by (metis prod_cases3 surj_pair)
  obtain w3 where o: "open_in_browser A url w2 = (Inr (), w3)"
    and rest: "after_redirect E A client csrf verifier key w3 = (Inr (access, expires), w')"
    using rest by (auto simp: authorization_url_def okp_def u elim!: seqp_InrE)
  have "oa_open A \<noteq> None" using o by (cases "oa_open A") (simp_all add: open_in_browser_def failp_def)
  moreover have "\<exists>code w4 w5 refresh. wait_for_redirect A w3 = (Inr (code, csrf), w4) \<and>
      exchange_code A client code verifier w4 = (Inr (refresh, access, expires), w5) \<and>
      ts_store_refresh_token (env_tokens E) key refresh w5 = (Inr (), w')"
    using rest unfolding after_redirect_def
    by (fastforce simp: retp_def failp_def split: if_splits elim!: seqp_InrE)
  ultimately show ?thesis using b client_for_built [OF c] u by blast
qed

definition demo_oauth :: "token_map oauth_ops" where
  "demo_oauth = \<lparr>oa_bind = (\<lambda>_ w. (True, w)), oa_url = Inr,
     oa_authorize_url = (\<lambda>_ _ w. ((''https://accounts'', ''csrf'', ''pkce''), w)),
     oa_open = Some (\<lambda>_ w. (True, w)), oa_accept = retp (),
     oa_read = retp ''GET /?code=c1&state=csrf HTTP/1.1'', oa_write = (\<lambda>_. retp ()), oa_flush = retp (),
     oa_url_decode = Some, oa_exchange = (\<lambda>_ _ _. retp (Some ''rt'', ''at'', None))\<rparr>"

lemma demo_client_built: "\<exists>cl. build_client demo_oauth i s p = Inr cl"
  by (simp add: build_client_def build_client_with_urls_def demo_oauth_def)

lemma demo_redirect: "parse_redirect_query Some (request_query ''GET /?code=c1&state=csrf HTTP/1.1'') = Some (''c1'', ''csrf'')"
  by code_simp

lemma authorize_flow_checks_csrf_witness:
  "\<exists>w' refresh. authorize_flow token_env demo_oauth ''id'' None 8765 ''acc'' [] = (Inr (''at'', 3600), w') \<and>
     ts_store_refresh_token (env_tokens token_env) ''acc'' refresh [] = (Inr (), w')"
proof -
  have wait: "wait_for_redirect demo_oauth w = (Inr (''c1'', ''csrf''), w)" for w
    by (simp add: wait_for_redirect_def seqp_def map_errp_def demo_oauth_def retp_def demo_redirect)
  have ex: "exchange_code demo_oauth cl c v w = (Inr (''rt'', ''at'', 3600), w)" for cl c v w
    by (simp add: exchange_code_def seqp_def map_errp_def demo_oauth_def retp_def)
  have st: "ts_store_refresh_token (env_tokens token_env) ''acc'' ''rt'' w = (Inr (), AList.update ''acc'' ''rt'' w)" for w
    by (simp add: token_env_def in_memory_token_store_def mem_store_def modp_def)
  have b: "bind_loopback demo_oauth 8765 w = (Inr 8765, w)" for w
    by (simp add: bind_loopback_def demo_oauth_def)
  obtain cl where cl: "build_client demo_oauth ''id'' None 8765 = Inr cl" using demo_client_built by blast
  have ops: "oa_authorize_url demo_oauth c scopes w = ((''https://accounts'', ''csrf'', ''pkce''), w)"
    "oa_open demo_oauth = Some (\<lambda>_ w. (True, w))" for c scopes w
    by (simp_all add: demo_oauth_def)
  have run: "authorize_flow token_env demo_oauth ''id'' None 8765 ''acc'' [] =
      (Inr (''at'', 3600), AList.update ''acc'' ''rt'' [])"
    by (simp add: authorize_flow_def authorization_url_def open_in_browser_def after_redirect_def cl
        seqp_def b ops liftp_def okp_def retp_def wait ex st)
  from authorize_flow_checks_csrf [OF this] obtain cl' w2 w3 code w4 w5 refresh where
    r: "exchange_code demo_oauth cl' code ''pkce'' w4 = (Inr (refresh, ''at'', 3600), w5)"
    "ts_store_refresh_token (env_tokens token_env) ''acc'' refresh w5 = (Inr (), AList.update ''acc'' ''rt'' [])"
    "wait_for_redirect demo_oauth w3 = (Inr (code, ''csrf''), w4)"
    by (auto simp: ops)
  then have "refresh = ''rt''" by (simp add: ex)
  with run st show ?thesis by blast
qed

end
