(* ===== verification/Gds_Diff.thy ===== *)
theory Gds_Diff
  imports Gds_Change Gds_World
begin

text \<open>
  The diff engine (\<open>crates/gds-core/src/sync/diff.rs\<close>): the scan of the local tree against the
  database, the reading of Drive's change list against the database, and the merge of the two
  action lists.
\<close>

definition parse_drive_modified :: "libs \<Rightarrow> string option \<Rightarrow> datetime option" where
  "parse_drive_modified L s = Option.bind s (lib_parse_rfc3339 L)"

section \<open>Local changes\<close>

definition join_rel_path :: "string \<Rightarrow> string \<Rightarrow> string" where
  "join_rel_path rel_dir name = (if rel_dir = [] then name else rel_dir @ ''/'' @ name)"

text \<open>\<open>collect()\<close> into a \<open>HashMap\<close>: a later entry replaces an earlier one of the same key.\<close>

definition collect_map :: "('a \<Rightarrow> 'k) \<Rightarrow> 'a list \<Rightarrow> ('k \<times> 'a) list" where
  "collect_map f xs = foldl (\<lambda>m x. AList.update (f x) x m) [] xs"

text \<open>One entry of a directory: the directories to visit and the actions it gives.\<close>

definition scan_entry ::
    "'d local_fs \<Rightarrow> path \<Rightarrow> (string \<times> file_state) list \<Rightarrow> string \<Rightarrow> dir_entry \<Rightarrow>
     ('d, sync_error, string list \<times> sync_action list) proc" where
  "scan_entry FS sync_root by_path rel_dir entry =
     (if de_name entry = ''.gds_tmp'' \<or> de_name entry = ''.git'' then retp ([], [])
      else
        let relative_path = join_rel_path rel_dir (de_name entry) in
        if contains_str relative_path ''/.git/'' then retp ([], [])
        else
          seqp (askp (\<lambda>d. safe_local_path (lf_std_exists FS d) (lf_std_canonicalize FS d)
                  sync_root relative_path)) (\<lambda>_.
          if de_is_dir entry then retp ([relative_path], [])
          else seqp (lf_file_metadata FS sync_root relative_path) (\<lambda>m.
            case m of
              None \<Rightarrow> retp ([], [])
            | Some meta \<Rightarrow>
                (case map_of by_path relative_path of
                   Some state \<Rightarrow>
                     if local_changed state (lm_md5 meta) (lm_modified meta)
                     then retp ([], [update_upload relative_path state (lm_md5 meta) (lm_modified meta)])
                     else retp ([], [])
                 | None \<Rightarrow> retp ([], [new_upload relative_path None (lm_md5 meta) (lm_modified meta)])))))"

fun scan_entries ::
    "'d local_fs \<Rightarrow> path \<Rightarrow> (string \<times> file_state) list \<Rightarrow> string \<Rightarrow> dir_entry list \<Rightarrow>
     ('d, sync_error, string list \<times> sync_action list) proc" where
  "scan_entries FS sync_root by_path rel_dir [] = retp ([], [])"
| "scan_entries FS sync_root by_path rel_dir (e # es) =
     seqp (scan_entry FS sync_root by_path rel_dir e) (\<lambda>(dirs, acts).
       seqp (scan_entries FS sync_root by_path rel_dir es) (\<lambda>(dirs', acts').
         retp (dirs @ dirs', acts @ acts')))"

text \<open>
  The \<open>while let\<close> loop over the stack of directories (its top is the head of the list). The result
  is \<open>None\<close> when \<open>fuel\<close> directories were visited and the stack is not empty.
\<close>

fun walk ::
    "nat \<Rightarrow> 'd local_fs \<Rightarrow> path \<Rightarrow> (string \<times> file_state) list \<Rightarrow> string list \<Rightarrow>
     ('d, sync_error, sync_action list option) proc" where
  "walk fuel FS sync_root by_path [] = retp (Some [])"
| "walk 0 FS sync_root by_path (rel_dir # dir_queue) = retp None"
| "walk (Suc fuel) FS sync_root by_path (rel_dir # dir_queue) =
     seqp (lf_list_dir FS sync_root rel_dir) (\<lambda>entries.
       seqp (scan_entries FS sync_root by_path rel_dir entries) (\<lambda>(dirs, acts).
         seqp (walk fuel FS sync_root by_path (rev dirs @ dir_queue)) (\<lambda>r.
           retp (map_option (\<lambda>as. acts @ as) r))))"

text \<open>The files that were synced and are gone.\<close>

fun scan_deleted ::
    "'d local_fs \<Rightarrow> path \<Rightarrow> (string \<times> file_state) list \<Rightarrow> ('d, sync_error, sync_action list) proc" where
  "scan_deleted FS sync_root [] = retp []"
| "scan_deleted FS sync_root ((relative_path, state) # rest) =
     (if fs_drive_file_id state = None then scan_deleted FS sync_root rest
      else seqp (lf_exists FS sync_root relative_path) (\<lambda>exists.
        seqp (scan_deleted FS sync_root rest) (\<lambda>as.
          retp (if \<not> exists then delete_remote relative_path state # as else as))))"

definition compute_local_changes ::
    "nat \<Rightarrow> 'd local_fs \<Rightarrow> libs \<Rightarrow> path \<Rightarrow> sync_folder \<Rightarrow>
     (('w, 'd) world, sync_error, sync_action list option) proc" where
  "compute_local_changes fuel FS L sync_root folder =
     seqp (on_db (fs_list_by_folder L (sf_id folder))) (\<lambda>db_states.
       let by_path = collect_map fs_relative_path db_states in
       seqp (on_disk (walk fuel FS sync_root by_path [[]])) (\<lambda>r.
         case r of
           None \<Rightarrow> retp None
         | Some actions \<Rightarrow> seqp (on_disk (scan_deleted FS sync_root by_path)) (\<lambda>deleted.
             retp (Some (actions @ deleted)))))"

section \<open>Remote changes\<close>

text \<open>
  The path of a changed file: the known one, or the name under its parent's path. The result has
  the map of paths with a new file entered; \<open>None\<close> when the file is outside the folder.
\<close>

definition remote_path ::
    "string \<Rightarrow> (string \<times> file_state) list \<Rightarrow> (string \<times> string) list \<Rightarrow> string \<Rightarrow> drive_file \<Rightarrow>
     (string \<times> (string \<times> string) list) option" where
  "remote_path drive_folder_id by_drive_id drive_id_to_path file_id f =
     (case map_of by_drive_id file_id of
        Some state \<Rightarrow> Some (fs_relative_path state, drive_id_to_path)
      | None \<Rightarrow>
          (let parent_id = Option.bind (df_parents f) (\<lambda>ps. case ps of [] \<Rightarrow> None | p # _ \<Rightarrow> Some p);
               parent_path = (case Option.bind parent_id (map_of drive_id_to_path) of
                  Some p \<Rightarrow> p | None \<Rightarrow> [])
           in if parent_path = [] \<and> parent_id \<noteq> Some drive_folder_id then None
              else let rel = join_rel_path parent_path (df_name f)
                   in Some (rel, AList.update file_id rel drive_id_to_path)))"

definition consp :: "'a \<Rightarrow> ('s, 'e, 'a list) proc \<Rightarrow> ('s, 'e, 'a list) proc" where
  "consp x m = seqp m (\<lambda>xs. retp (x # xs))"

fun remote_changes ::
    "libs \<Rightarrow> sync_folder \<Rightarrow> (string \<times> file_state) list \<Rightarrow> (string \<times> string) list \<Rightarrow>
     drive_change list \<Rightarrow> (('w, 'd) world, sync_error, sync_action list) proc" where
  "remote_changes L folder by_drive_id drive_id_to_path [] = retp []"
| "remote_changes L folder by_drive_id drive_id_to_path (change # changes) =
     (if ch_removed change = Some True then
        (case map_of by_drive_id (ch_file_id change) of
           Some state \<Rightarrow> consp (delete_local (fs_relative_path state) state)
             (remote_changes L folder by_drive_id drive_id_to_path changes)
         | None \<Rightarrow> remote_changes L folder by_drive_id drive_id_to_path changes)
      else
        (case ch_file change of
           None \<Rightarrow> remote_changes L folder by_drive_id drive_id_to_path changes
         | Some f \<Rightarrow>
             if is_trashed f then remote_changes L folder by_drive_id drive_id_to_path changes
             else
               (case remote_path (sf_drive_folder_id folder) by_drive_id drive_id_to_path
                       (ch_file_id change) f of
                  None \<Rightarrow> remote_changes L folder by_drive_id drive_id_to_path changes
                | Some (relative_path, paths) \<Rightarrow>
                    seqp (on_db (fs_get_by_path L (sf_id folder) relative_path)) (\<lambda>by_path.
                      case (case by_path of Some s \<Rightarrow> Some s
                              | None \<Rightarrow> map_of by_drive_id (ch_file_id change)) of
                        Some state \<Rightarrow>
                          if \<not> remote_changed state (df_md5_checksum f)
                                 (parse_drive_modified L (df_modified_time f))
                          then remote_changes L folder by_drive_id paths changes
                          else consp (update_download relative_path state f)
                                 (remote_changes L folder by_drive_id paths changes)
                      | None \<Rightarrow> consp (new_download relative_path f)
                                 (remote_changes L folder by_drive_id paths changes)))))"

definition states_by_drive_id :: "file_state list \<Rightarrow> (string \<times> file_state) list" where
  "states_by_drive_id db_states =
     collect_map (\<lambda>s. the (fs_drive_file_id s)) (filter (\<lambda>s. fs_drive_file_id s \<noteq> None) db_states)"

definition compute_remote_changes ::
    "libs \<Rightarrow> sync_folder \<Rightarrow> change_set \<Rightarrow> (('w, 'd) world, sync_error, sync_action list) proc" where
  "compute_remote_changes L folder change_set =
     seqp (on_db (fs_list_by_folder L (sf_id folder))) (\<lambda>db_states.
       let by_drive_id = states_by_drive_id db_states;
           drive_id_to_path = map (\<lambda>(i, s). (i, fs_relative_path s)) by_drive_id
       in remote_changes L folder by_drive_id drive_id_to_path (cs_changes change_set))"

section \<open>Merging\<close>

definition merge_step ::
    "(string \<times> sync_action) list \<Rightarrow> sync_action \<Rightarrow> (string \<times> sync_action) list" where
  "merge_step by_path a =
     (let path = sa_relative_path a in
      case map_of by_path path of
        None \<Rightarrow> AList.update path a by_path
      | Some loc \<Rightarrow>
          let rest = AList.delete path by_path in
          if sa_kind loc = UpdateUpload \<and> sa_kind a = UpdateDownload then
            (case (sa_state loc, sa_drive_file a, sa_local_md5 loc, sa_local_modified loc) of
               (Some state, Some f, Some local_md5, Some local_modified) \<Rightarrow>
                 AList.update path (conflict_action path state f local_md5 local_modified) rest
             | _ \<Rightarrow> AList.update path a (AList.update path loc rest))
          else AList.update path a (AList.update path loc rest))"

definition merge_actions :: "sync_action list \<Rightarrow> sync_action list \<Rightarrow> sync_action list" where
  "merge_actions local_actions remote_actions =
     map snd (foldl merge_step (collect_map sa_relative_path local_actions) remote_actions)"

section \<open>What merging does to each path\<close>

text \<open>The last action of a list for a path, as the hash map keeps it.\<close>

definition last_for :: "sync_action list \<Rightarrow> string \<Rightarrow> sync_action option" where
  "last_for as p = find (\<lambda>a. sa_relative_path a = p) (rev as)"

text \<open>
  What one remote action makes of the local action for the same path: a conflict when both sides
  updated the file, the remote action otherwise.
\<close>

definition combine :: "sync_action option \<Rightarrow> sync_action \<Rightarrow> sync_action" where
  "combine loc a =
     (case loc of
        Some l \<Rightarrow>
          if sa_kind l = UpdateUpload \<and> sa_kind a = UpdateDownload \<and> action_wf l \<and> action_wf a
          then conflict_action (sa_relative_path a) (the (sa_state l)) (the (sa_drive_file a))
                 (the (sa_local_md5 l)) (the (sa_local_modified l))
          else a
      | None \<Rightarrow> a)"

lemma collect_map_snoc: "collect_map f (xs @ [x]) = AList.update (f x) x (collect_map f xs)"
  by (simp add: collect_map_def)

lemma collect_map_lookup: "map_of (collect_map f xs) k = find (\<lambda>x. f x = k) (rev xs)"
  by (induction xs rule: rev_induct)
    (simp_all add: collect_map_snoc map_of_update, simp add: collect_map_def)

lemma collect_map_distinct: "distinct (map fst (collect_map f xs))"
  by (induction xs rule: rev_induct) (simp_all add: collect_map_snoc, simp add: collect_map_def)

lemma merge_step_lookup:
  assumes "\<forall>l. map_of m (sa_relative_path a) = Some l \<longrightarrow> action_wf l" and "action_wf a"
  shows "map_of (merge_step m a) =
    (map_of m)(sa_relative_path a \<mapsto> combine (map_of m (sa_relative_path a)) a)"
proof (cases "map_of m (sa_relative_path a)")
  case None
  then show ?thesis by (simp add: merge_step_def combine_def map_of_update)
next
  case (Some l)
  with assms have l: "action_wf l" by blast
  show ?thesis
  proof (cases "sa_kind l = UpdateUpload \<and> sa_kind a = UpdateDownload")
    case True
    with l assms(2) obtain st f md t where "sa_state l = Some st" "sa_drive_file a = Some f"
      "sa_local_md5 l = Some md" "sa_local_modified l = Some t"
      by (auto simp: action_wf_def)
    with True Some l assms(2) show ?thesis
      by (simp add: merge_step_def combine_def map_of_update map_of_delete Let_def)
  next
    case False
    with Some show ?thesis
      by (auto simp: merge_step_def combine_def map_of_update map_of_delete Let_def)
  qed
qed

lemma merge_step_distinct:
  "distinct (map fst m) \<Longrightarrow> distinct (map fst (merge_step m a))"
  by (auto simp: merge_step_def Let_def split: option.splits)

lemma merge_steps_lookup:
  assumes "\<forall>p l. map_of m p = Some l \<longrightarrow> action_wf l" and "\<forall>a \<in> set as. action_wf a"
    and "distinct (map sa_relative_path as)"
  shows "map_of (foldl merge_step m as) p =
    (case find (\<lambda>a. sa_relative_path a = p) as of
       None \<Rightarrow> map_of m p | Some a \<Rightarrow> Some (combine (map_of m p) a))"
  using assms
proof (induction as arbitrary: m)
  case Nil
  then show ?case by simp
next
  case (Cons a as)
  have step: "map_of (merge_step m a) =
      (map_of m)(sa_relative_path a \<mapsto> combine (map_of m (sa_relative_path a)) a)"
    using Cons.prems by (intro merge_step_lookup) auto
  have wf: "\<forall>p l. map_of (merge_step m a) p = Some l \<longrightarrow> action_wf l"
    using Cons.prems by (auto simp: step combine_def split: option.splits)
  have IH: "map_of (foldl merge_step (merge_step m a) as) p =
    (case find (\<lambda>a. sa_relative_path a = p) as of
       None \<Rightarrow> map_of (merge_step m a) p | Some b \<Rightarrow> Some (combine (map_of (merge_step m a) p) b))"
    using Cons.prems wf by (intro Cons.IH) auto
  have "find (\<lambda>b. sa_relative_path b = p) as = None" if "sa_relative_path a = p"
    using that Cons.prems(3) unfolding find_None_iff by (metis distinct.simps(2) image_eqI list.simps(9) set_map)
  with IH show ?case by (auto simp: step split: option.splits)
qed

text \<open>The values of the map carry their key as their path.\<close>

definition keyed_by_path :: "(string \<times> sync_action) list \<Rightarrow> bool" where
  "keyed_by_path m \<longleftrightarrow> distinct (map fst m) \<and> (\<forall>p a. map_of m p = Some a \<longrightarrow> sa_relative_path a = p)"

lemma keyed_values:
  assumes "keyed_by_path m"
  shows "map sa_relative_path (map snd m) = map fst m"
proof -
  have "sa_relative_path a = p" if "(p, a) \<in> set m" for p a
    using assms that map_of_is_SomeI unfolding keyed_by_path_def by metis
  then show ?thesis by auto
qed

lemma keyed_find:
  assumes "keyed_by_path m"
  shows "find (\<lambda>a. sa_relative_path a = p) (map snd m) = map_of m p"
proof -
  have "find (\<lambda>a. sa_relative_path a = p) (map snd m) = map_of m p"
    if "map sa_relative_path (map snd m) = map fst m" for m :: "(string \<times> sync_action) list"
    using that by (induction m) auto
  then show ?thesis using keyed_values [OF assms] .
qed

lemma collect_keyed: "keyed_by_path (collect_map sa_relative_path as)"
  by (auto simp: keyed_by_path_def collect_map_distinct collect_map_lookup find_Some_iff)

lemma find_sound: "find P xs = Some x \<Longrightarrow> x \<in> set xs \<and> P x"
  by (auto simp: find_Some_iff)

lemma last_for_sound: "last_for as p = Some a \<Longrightarrow> a \<in> set as \<and> sa_relative_path a = p"
  unfolding last_for_def by (drule find_sound) simp

lemma combine_path [simp]: "sa_relative_path (combine loc a) = sa_relative_path a"
  by (simp add: combine_def split: option.splits)

lemma merge_steps_distinct:
  "distinct (map fst m) \<Longrightarrow> distinct (map fst (foldl merge_step m rs))"
  by (induction rs arbitrary: m) (simp_all add: merge_step_distinct)

lemma merge_keyed:
  assumes "\<forall>a \<in> set ls. action_wf a" and "\<forall>a \<in> set rs. action_wf a"
    and "distinct (map sa_relative_path rs)"
  shows "keyed_by_path (foldl merge_step (collect_map sa_relative_path ls) rs) \<and>
    map_of (foldl merge_step (collect_map sa_relative_path ls) rs) p =
      (case find (\<lambda>a. sa_relative_path a = p) rs of
         None \<Rightarrow> last_for ls p | Some a \<Rightarrow> Some (combine (last_for ls p) a))"
proof -
  let ?m = "collect_map sa_relative_path ls"
  have look: "map_of ?m q = last_for ls q" for q
    by (simp add: collect_map_lookup last_for_def)
  have wf: "\<forall>q l. map_of ?m q = Some l \<longrightarrow> action_wf l"
    using assms(1) last_for_sound by (simp add: look)
  have steps: "map_of (foldl merge_step ?m rs) q =
      (case find (\<lambda>a. sa_relative_path a = q) rs of
         None \<Rightarrow> last_for ls q | Some a \<Rightarrow> Some (combine (last_for ls q) a))" for q
    using merge_steps_lookup [OF wf assms(2,3), of q] unfolding look .
  have "distinct (map fst (foldl merge_step ?m rs))"
    by (intro merge_steps_distinct collect_map_distinct)
  then have "keyed_by_path (foldl merge_step ?m rs)"
    unfolding keyed_by_path_def steps
    by (auto split: option.splits dest: last_for_sound find_sound)
  with steps show ?thesis by blast
qed

lemma merge_actions_find:
  assumes "\<forall>a \<in> set ls. action_wf a" and "\<forall>a \<in> set rs. action_wf a"
    and "distinct (map sa_relative_path rs)"
  shows "distinct (map sa_relative_path (merge_actions ls rs)) \<and>
    find (\<lambda>a. sa_relative_path a = p) (merge_actions ls rs) =
      (case find (\<lambda>a. sa_relative_path a = p) rs of
         None \<Rightarrow> last_for ls p | Some a \<Rightarrow> Some (combine (last_for ls p) a))"
  using merge_keyed [OF assms, of p] keyed_values keyed_find
  by (metis keyed_by_path_def merge_actions_def)

lemma find_unique:
  "distinct (map f xs) \<Longrightarrow> x \<in> set xs \<Longrightarrow> find (\<lambda>y. f y = f x) xs = Some x"
  by (induction xs) (auto simp: image_iff)

section \<open>Properties of merging\<close>

text \<open>
  C5: for actions as the constructors build them and at most one remote action per path, merging
  gives exactly one action for each path that either side mentions: the remote one if there is
  one, except that a local update and a remote update of the same file become a \<open>Conflict\<close> that
  carries the stored state, the Drive file and the local digest and time.
\<close>

theorem merge_actions_spec:
  assumes "\<forall>a \<in> set ls. action_wf a" and "\<forall>a \<in> set rs. action_wf a"
    and "distinct (map sa_relative_path rs)"
  shows "distinct (map sa_relative_path (merge_actions ls rs)) \<and>
    find (\<lambda>a. sa_relative_path a = p) (merge_actions ls rs) =
      (case (last_for ls p, find (\<lambda>a. sa_relative_path a = p) rs) of
         (l, None) \<Rightarrow> l
       | (None, Some r) \<Rightarrow> Some r
       | (Some l, Some r) \<Rightarrow>
           if sa_kind l = UpdateUpload \<and> sa_kind r = UpdateDownload
           then Some (conflict_action p (the (sa_state l)) (the (sa_drive_file r))
             (the (sa_local_md5 l)) (the (sa_local_modified l)))
           else Some r)"
proof -
  have "combine (Some l) r = (if sa_kind l = UpdateUpload \<and> sa_kind r = UpdateDownload
           then conflict_action p (the (sa_state l)) (the (sa_drive_file r))
             (the (sa_local_md5 l)) (the (sa_local_modified l)) else r)"
    if "last_for ls p = Some l" and "find (\<lambda>a. sa_relative_path a = p) rs = Some r" for l r
    using last_for_sound [OF that(1)] find_sound [OF that(2)] assms(1,2) by (auto simp: combine_def)
  then show ?thesis
    using merge_actions_find [OF assms, of p]
    by (auto simp: combine_def split: option.splits)
qed

definition demo_known :: file_state where
  "demo_known = (new_pending ''s1'' ''f1'' ''a.txt'')\<lparr>fs_drive_file_id := Some ''d1''\<rparr>"

definition demo_remote_file :: drive_file where
  "demo_remote_file = \<lparr>df_id = ''d1'', df_name = ''a.txt'', df_mime_type = ''text/plain'',
     df_md5_checksum = Some ''m3'', df_size = None, df_modified_time = Some ''30'',
     df_parents = Some [''root''], df_trashed = None\<rparr>"

lemma merge_actions_spec_witness:
  "find (\<lambda>a. sa_relative_path a = ''a.txt'')
     (merge_actions [update_upload ''a.txt'' demo_known ''m2'' 2]
        [update_download ''a.txt'' demo_known demo_remote_file]) =
   Some (conflict_action ''a.txt'' demo_known demo_remote_file ''m2'' 2)"
  using merge_actions_spec [of "[update_upload ''a.txt'' demo_known ''m2'' 2]"
      "[update_download ''a.txt'' demo_known demo_remote_file]" "''a.txt''"]
  by (simp add: last_for_def update_upload_def update_download_def action_wf_def)

text \<open>
  When a local edit (a new or an updated file) meets a remote action for the same path, the
  merged list still has an action with the local content's digest exactly if both sides are
  updates. In every other combination the remote action replaces the local one: an edit meeting a
  remote deletion, or two new files under one name, is dropped without a conflict.
\<close>

theorem merge_keeps_local_edits_only_on_double_update:
  assumes "\<forall>a \<in> set ls. action_wf a" and "\<forall>a \<in> set rs. action_wf a"
    and "distinct (map sa_relative_path rs)"
    and "last_for ls p = Some l" and "sa_kind l \<in> {NewUpload, UpdateUpload}"
    and "r \<in> set rs" and "sa_relative_path r = p" and "sa_local_md5 r = None"
  shows "(\<exists>a \<in> set (merge_actions ls rs). sa_relative_path a = p \<and> sa_local_md5 a \<noteq> None) \<longleftrightarrow>
    sa_kind l = UpdateUpload \<and> sa_kind r = UpdateDownload"
proof -
  have d: "distinct (map sa_relative_path (merge_actions ls rs))"
    and f: "find (\<lambda>a. sa_relative_path a = p) (merge_actions ls rs) =
      (case find (\<lambda>a. sa_relative_path a = p) rs of
         None \<Rightarrow> last_for ls p | Some a \<Rightarrow> Some (combine (last_for ls p) a))"
    using merge_actions_find [OF assms(1-3), of p] by auto
  have fr: "find (\<lambda>a. sa_relative_path a = p) rs = Some r"
    using find_unique [OF assms(3,6)] assms(7) by simp
  then have fm: "find (\<lambda>a. sa_relative_path a = p) (merge_actions ls rs) = Some (combine (Some l) r)"
    using f assms(4) by simp
  have l: "action_wf l" "action_wf r"
    using last_for_sound [OF assms(4)] assms(1,2,6) by auto
  have "(\<exists>a \<in> set (merge_actions ls rs). sa_relative_path a = p \<and> sa_local_md5 a \<noteq> None) \<longleftrightarrow>
      sa_local_md5 (combine (Some l) r) \<noteq> None"
    using find_sound [OF fm] find_unique [OF d] fm by (metis option.inject)
  also have "\<dots> \<longleftrightarrow> sa_kind l = UpdateUpload \<and> sa_kind r = UpdateDownload"
    using l assms(8) by (auto simp: combine_def conflict_action_def)
  finally show ?thesis .
qed

lemma merge_keeps_local_edits_only_on_double_update_witness:
  "\<not> (\<exists>a \<in> set (merge_actions [update_upload ''a.txt'' demo_known ''m2'' 2]
        [delete_local ''a.txt'' demo_known]). sa_relative_path a = ''a.txt'' \<and> sa_local_md5 a \<noteq> None)"
  using merge_keeps_local_edits_only_on_double_update
    [of "[update_upload ''a.txt'' demo_known ''m2'' 2]" "[delete_local ''a.txt'' demo_known]"
      "''a.txt''" "update_upload ''a.txt'' demo_known ''m2'' 2" "delete_local ''a.txt'' demo_known"]
  by (simp add: last_for_def update_upload_def delete_local_def action_wf_def)

end
