(* ===== verification/Gds_Scan.thy ===== *)
theory Gds_Scan
  imports Gds_Diff
begin

text \<open>
  What the local scan of \<open>DiffEngine::compute_local_changes\<close> finds when it runs on \<open>TokioLocalFs\<close>
  and a disk without symbolic links: that the walk ends, and that it reports exactly the new and
  the changed files outside \<open>.git\<close> and \<open>.gds_tmp\<close>.
\<close>

section \<open>Operations on what exists\<close>

lemma find_node_exists:
  assumes "plain d" and "lookup_node d k = Some n"
  shows "find_node d follow \<lparr>p_abs = b, p_segs = k\<rparr> = Inr (k, n)"
  using find_node_plain [OF assms(1), of "\<lparr>p_abs = b, p_segs = k\<rparr>"] plainD(1) [OF assms] assms(2)
  by simp

lemma canonicalize_root:
  assumes "plain d" and "is_dir_node (lookup_node d (p_segs root))"
  shows "std_canonicalize d root = Inr \<lparr>p_abs = True, p_segs = p_segs root\<rparr>"
proof -
  obtain t where t: "lookup_node d (p_segs root) = Some (Dir t)"
    using assms(2) by (auto simp: is_dir_node_def)
  have eta: "\<lparr>p_abs = p_abs root, p_segs = p_segs root\<rparr> = root" by (cases root) simp
  have "find_node d True \<lparr>p_abs = p_abs root, p_segs = p_segs root\<rparr> = Inr (p_segs root, Dir t)"
    by (rule find_node_exists [OF assms(1) t])
  then have "find_node d True root = Inr (p_segs root, Dir t)" by (simp only: eta)
  then show ?thesis by (simp add: std_canonicalize_def)
qed

definition entry_of :: "disk \<Rightarrow> string list \<Rightarrow> string \<Rightarrow> dir_entry" where
  "entry_of d k name = \<lparr>de_name = name, de_is_dir = is_dir_node (lookup_node d (k @ [name]))\<rparr>"

lemma list_entries_exact:
  assumes "plain d" and "\<forall>w \<in> set names. lookup_node d (k @ [w]) \<noteq> None"
  shows "list_entries rc \<lparr>p_abs = b, p_segs = k\<rparr> names d =
    (Inr (map (entry_of d k) (filter (\<lambda>w. w \<noteq> ''.gds_tmp'') names)), d)"
  using assms(2)
proof (induction names)
  case Nil
  then show ?case by (simp add: retp_def)
next
  case (Cons w names)
  then obtain n where n: "lookup_node d (k @ [w]) = Some n" by auto
  have f: "find_node d False \<lparr>p_abs = b, p_segs = k @ [w]\<rparr> = Inr (k @ [w], n)"
    by (rule find_node_exists [OF assms(1) n])
  have "\<not> is_link_node (Some n)" using plainD(2) [OF assms(1) n] .
  then have "list_entry rc \<lparr>p_abs = b, p_segs = k\<rparr> w d =
      (Inr (if w = ''.gds_tmp'' then None else Some (entry_of d k w)), d)"
    using f n
    by (cases n) (simp_all add: list_entry_def retp_def seqp_def at_path_askp std_symlink_metadata_def
        entry_of_def Let_def)
  with Cons show ?case by (simp add: seqp_def retp_def)
qed

lemma list_dir_exact:
  assumes "root_ok root" and "dir_rel_ok r" and "plain d"
    and "is_dir_node (lookup_node d (dir_key root r))" and "is_dir_node (lookup_node d (p_segs root))"
  shows "tokio_list_dir root r d =
    (Inr (map (entry_of d (dir_key root r))
       (filter (\<lambda>w. w \<noteq> ''.gds_tmp'') (child_names d (dir_key root r)))), d)"
proof -
  let ?p = "\<lparr>p_abs = True, p_segs = dir_key root r\<rparr>"
  obtain t where t: "lookup_node d (dir_key root r) = Some (Dir t)"
    using assms(4) by (auto simp: is_dir_node_def)
  have names: "std_read_dir d ?p = Inr (child_names d (dir_key root r))"
    by (simp add: std_read_dir_def find_node_exists [OF assms(3) t] child_names_def)
  note c = canonicalize_root [OF assms(3,5)]
  have "\<forall>w \<in> set (child_names d (dir_key root r)). lookup_node d (dir_key root r @ [w]) \<noteq> None"
    by (simp add: child_names_iff)
  then show ?thesis
    using list_entries_exact [OF assms(3)]
    by (simp add: tokio_list_dir_def Let_def dir_path [OF assms(1,2)] seqp_def at_path_askp names c)
qed

text \<open>Relative paths: going down one name.\<close>

lemma segs_join_rel:
  assumes "dir_rel_ok r" and "seg_ok w"
  shows "path_segs_of (join_rel_path r w) = path_segs_of r @ [w]"
proof -
  have w: "path_segs_of w = [w]" using assms(2) by (simp add: path_segs_of_name seg_ok_def)
  have "path_segs_of (r @ CHR ''/'' # w) = path_segs_of r @ path_segs_of w"
    by (simp add: path_segs_of_def split_on_append_sep)
  then show ?thesis using w by (auto simp: join_rel_path_def) (simp add: path_segs_of_def)
qed

lemma starts_with_append: "r \<noteq> [] \<Longrightarrow> starts_with (r @ s) [c] \<longleftrightarrow> starts_with r [c]"
  by (cases r) (auto simp: starts_with_single)

lemma join_rel_ok:
  assumes "dir_rel_ok r" and "seg_ok w" and "w \<noteq> ''..''" and "CHR 0x00 \<notin> set w"
  shows "rel_ok (join_rel_path r w)"
proof -
  have "\<not> starts_with (join_rel_path r w) ''/''"
  proof (cases "r = []")
    case True
    with assms(2) show ?thesis by (auto simp: join_rel_path_def seg_ok_def starts_with_single)
  next
    case False
    with assms(1) show ?thesis
      by (simp add: join_rel_path_def dir_rel_ok_def rel_ok_def starts_with_append)
  qed
  moreover have "clean (path_segs_of r)"
    using assms(1) by (auto simp: dir_rel_ok_def rel_ok_def path_segs_of_def)
  ultimately show ?thesis
    using assms by (simp add: rel_ok_def segs_join_rel) (auto simp: join_rel_path_def clean_def seg_ok_def)
qed

lemma key_join_rel:
  assumes "dir_rel_ok r" and "seg_ok w"
  shows "file_key root (join_rel_path r w) = dir_key root r @ [w]"
  using segs_join_rel [OF assms]
  by (simp add: file_key_def dir_key_def) (simp add: path_segs_of_def)

lemma dir_key_file_key: "rel_ok r \<Longrightarrow> dir_key root r = file_key root r"
  by (auto simp: dir_key_def rel_ok_def)

lemma rel_ok_dir: "rel_ok r \<Longrightarrow> dir_rel_ok r"
  by (simp add: dir_rel_ok_def)

lemma rel_text:
  assumes "rel_ok r"
  shows "CHR 0x00 \<notin> set r"
proof
  assume "CHR 0x00 \<in> set r"
  moreover have "set r \<subseteq> (\<Union>w \<in> set (split_on CHR ''/'' r). set w) \<union> {CHR ''/''}"
    using set_join_with [of "''/''" "split_on CHR ''/'' r"] by (simp add: join_split_on)
  ultimately obtain w where w: "w \<in> set (split_on CHR ''/'' r)" "CHR 0x00 \<in> set w" by auto
  then have "w \<in> set (path_segs_of r)" by (auto simp: path_segs_of_def)
  with w(2) assms show False by (auto simp: rel_ok_def clean_def)
qed

text \<open>\<open>safe_local_path\<close> lets every existing file of a plain disk pass.\<close>

lemma push_segments_append: "push_segments segs (xs @ ys) = push_segments (push_segments segs xs) ys"
  by (induction segs xs rule: push_segments.induct) auto

lemma sanitized_rel:
  assumes "rel_ok r"
  shows "sanitized_segments r = path_segs_of r"
proof -
  have "push_segments segs (filter (\<lambda>c. c \<noteq> []) ws) = segs @ filter (\<lambda>w. w \<noteq> [] \<and> w \<noteq> ''.'') ws"
    if "''..'' \<notin> set ws" for ws segs
    using that by (induction ws arbitrary: segs) auto
  moreover have "''..'' \<notin> set (split_on CHR ''/'' r)"
    using assms by (auto simp: rel_ok_def clean_def path_segs_of_def)
  ultimately show ?thesis by (simp add: sanitized_segments_def path_segs_of_def)
qed

lemma safe_path_existing:
  assumes "root_ok root" and "rel_ok r" and "plain d"
    and "lookup_node d (file_key root r) \<noteq> None" and "is_dir_node (lookup_node d (p_segs root))"
  shows "safe_local_path (std_exists d) (std_canonicalize d) root r =
    Inr \<lparr>p_abs = True, p_segs = file_key root r\<rparr>"
proof -
  obtain n where n: "lookup_node d (file_key root r) = Some n" using assms(4) by blast
  have j: "path_join root (join_with ''/'' (sanitized_segments r)) =
      \<lparr>p_abs = True, p_segs = file_key root r\<rparr>"
    using join_sanitized [of root r] assms(1,2)
    by (simp add: below_def sanitized_rel file_key_def root_ok_def)
  note c = canonicalize_root [OF assms(3,5)]
  note f = find_node_exists [OF assms(3) n, of True True]
  have e: "std_exists d \<lparr>p_abs = True, p_segs = file_key root r\<rparr>"
    and cc: "std_canonicalize d \<lparr>p_abs = True, p_segs = file_key root r\<rparr> =
      Inr \<lparr>p_abs = True, p_segs = file_key root r\<rparr>"
    by (simp_all add: std_exists_def std_canonicalize_def f)
  have "path_starts_with \<lparr>p_abs = True, p_segs = file_key root r\<rparr> \<lparr>p_abs = True, p_segs = p_segs root\<rparr>"
    by (simp add: path_starts_with_def file_key_def)
  then show ?thesis
    using rel_text [OF assms(2)] by (simp add: safe_local_path_def j c e cc Let_def)
qed

section \<open>One directory\<close>

text \<open>The names the scan skips, and what it makes of a file.\<close>

definition skipped :: "string \<Rightarrow> bool" where
  "skipped w \<longleftrightarrow> w = ''.gds_tmp'' \<or> w = ''.git''"

definition file_time :: "libs \<Rightarrow> disk \<Rightarrow> int \<Rightarrow> datetime" where
  "file_time L d t =
     (case lib_from_timestamp L (t div 1000000000) (nat (t mod 1000000000)) of
        Some u \<Rightarrow> u | None \<Rightarrow> d_now d)"

definition upload_for ::
    "libs \<Rightarrow> disk \<Rightarrow> (string \<times> file_state) list \<Rightarrow> string \<Rightarrow> string \<Rightarrow> int \<Rightarrow> sync_action list" where
  "upload_for L d by_path r c t =
     (case map_of by_path r of
        Some state \<Rightarrow> if local_changed state (lib_md5 L c) (file_time L d t)
          then [update_upload r state (lib_md5 L c) (file_time L d t)] else []
      | None \<Rightarrow> [new_upload r None (lib_md5 L c) (file_time L d t)])"

definition times_ok :: "disk \<Rightarrow> bool" where
  "times_ok d \<longleftrightarrow> (\<forall>k c t. lookup_node d k = Some (File c t) \<longrightarrow> 0 \<le> t)"

lemma file_metadata_exact:
  assumes "root_ok root" and "rel_ok r" and "plain d" and "times_ok d"
    and "lookup_node d (file_key root r) = Some (File c t)"
  shows "tokio_file_metadata L root r d =
    (Inr (Some \<lparr>lm_md5 = lib_md5 L c, lm_modified = file_time L d t, lm_is_dir = False,
       lm_size = length c\<rparr>), d)"
proof -
  have f: "find_node d b \<lparr>p_abs = True, p_segs = file_key root r\<rparr> = Inr (file_key root r, File c t)" for b
    by (rule find_node_exists [OF assms(3,5)])
  have "0 \<le> t" using assms(4,5) by (auto simp: times_ok_def)
  then show ?thesis
    by (simp add: tokio_file_metadata_def Let_def join_rel [OF assms(1,2)] std_symlink_metadata_def f
        hash_file_def mtime_utc_def seqp_def getp_def at_path_simp std_read_def retp_def
        file_time_def node_mtime_def node_len_def)
qed

text \<open>A path below a scanned directory has no \<open>.git\<close> component, so the substring test is idle.\<close>

lemma starts_with_split: "starts_with s p \<Longrightarrow> \<exists>b. s = p @ b"
  by (metis append_take_drop_id starts_with_def)

lemma contains_split: "contains_str s p \<Longrightarrow> \<exists>a b. s = a @ p @ b"
proof (induction s)
  case Nil
  then show ?case by simp
next
  case (Cons c s)
  then show ?case
    by (metis append_Cons append_Nil contains_str.simps(2) starts_with_split)
qed

lemma no_git_substring:
  assumes "\<forall>w \<in> set (path_segs_of r). w \<noteq> ''.git''"
  shows "\<not> contains_str r ''/.git/''"
proof
  assume "contains_str r ''/.git/''"
  then obtain a b where "r = a @ CHR ''/'' # ''.git'' @ CHR ''/'' # b"
    using contains_split by fastforce
  then have "path_segs_of r = path_segs_of a @ path_segs_of ''.git'' @ path_segs_of b"
    by (simp only: path_segs_of_def split_on_append_sep filter_append)
  moreover have "path_segs_of ''.git'' = [''.git'']" by code_simp
  ultimately show False using assms by simp
qed

definition visible_rel :: "string \<Rightarrow> bool" where
  "visible_rel r \<longleftrightarrow> dir_rel_ok r \<and> (\<forall>w \<in> set (path_segs_of r). \<not> skipped w)"

text \<open>What an entry of the directory contributes.\<close>

definition entry_dirs :: "disk \<Rightarrow> path \<Rightarrow> string \<Rightarrow> string \<Rightarrow> string list" where
  "entry_dirs d root r w =
     (if \<not> skipped w \<and> is_dir_node (lookup_node d (dir_key root r @ [w]))
      then [join_rel_path r w] else [])"

definition entry_acts ::
    "libs \<Rightarrow> disk \<Rightarrow> path \<Rightarrow> (string \<times> file_state) list \<Rightarrow> string \<Rightarrow> string \<Rightarrow> sync_action list" where
  "entry_acts L d root by_path r w =
     (if skipped w then []
      else case lookup_node d (dir_key root r @ [w]) of
        Some (File c t) \<Rightarrow> upload_for L d by_path (join_rel_path r w) c t | _ \<Rightarrow> [])"

lemma scan_entry_exact:
  assumes "root_ok root" and "visible_rel r" and "plain d" and "times_ok d"
    and "lookup_node d (dir_key root r @ [w]) \<noteq> None" and "is_dir_node (lookup_node d (p_segs root))"
  shows "scan_entry (tokio_local_fs L) root by_path r (entry_of d (dir_key root r) w) d =
    (Inr (entry_dirs d root r w, entry_acts L d root by_path r w), d)"
proof (cases "skipped w")
  case True
  then show ?thesis
    by (auto simp: scan_entry_def entry_of_def skipped_def entry_dirs_def entry_acts_def retp_def)
next
  case False
  have r: "dir_rel_ok r" using assms(2) by (simp add: visible_rel_def)
  obtain n where n: "lookup_node d (dir_key root r @ [w]) = Some n" using assms(5) by blast
  have w: "seg_ok w" "w \<noteq> ''..''" "CHR 0x00 \<notin> set w"
    using plainD(1) [OF assms(3) n] by (auto simp: clean_def)
  let ?p = "join_rel_path r w"
  have p: "rel_ok ?p" by (rule join_rel_ok [OF r w])
  have k: "file_key root ?p = dir_key root r @ [w]" by (rule key_join_rel [OF r w(1)])
  have safe: "safe_local_path (std_exists d) (std_canonicalize d) root ?p =
      Inr \<lparr>p_abs = True, p_segs = file_key root ?p\<rparr>"
    using safe_path_existing [OF assms(1) p assms(3) _ assms(6)] n by (simp add: k)
  have git: "\<not> contains_str ?p ''/.git/''"
    using assms(2) False segs_join_rel [OF r w(1)]
    by (intro no_git_substring) (auto simp: visible_rel_def skipped_def)
  have nl: "\<not> is_link_node (Some n)" using plainD(2) [OF assms(3) n] .
  show ?thesis
  proof (cases n)
    case (File c t)
    have "tokio_file_metadata L root ?p d =
        (Inr (Some \<lparr>lm_md5 = lib_md5 L c, lm_modified = file_time L d t, lm_is_dir = False,
           lm_size = length c\<rparr>), d)"
      using file_metadata_exact [OF assms(1) p assms(3,4)] n File by (simp add: k)
    with File n False git safe show ?thesis
      by (auto simp: scan_entry_def entry_of_def skipped_def entry_dirs_def entry_acts_def Let_def
          seqp_def askp_def tokio_local_fs_def retp_def upload_for_def split: option.splits)
  next
    case (Dir t)
    with n False git safe show ?thesis
      by (simp add: scan_entry_def entry_of_def skipped_def entry_dirs_def entry_acts_def Let_def
          seqp_def askp_def tokio_local_fs_def retp_def)
  next
    case (Link u t)
    with nl show ?thesis by simp
  qed
qed

lemma scan_entries_exact:
  assumes "root_ok root" and "visible_rel r" and "plain d" and "times_ok d"
    and "is_dir_node (lookup_node d (p_segs root))"
    and "\<forall>w \<in> set ws. lookup_node d (dir_key root r @ [w]) \<noteq> None"
  shows "scan_entries (tokio_local_fs L) root by_path r (map (entry_of d (dir_key root r)) ws) d =
    (Inr (concat (map (entry_dirs d root r) ws), concat (map (entry_acts L d root by_path r) ws)), d)"
  using assms(6)
proof (induction ws)
  case Nil
  then show ?case by (simp add: retp_def)
next
  case (Cons w ws)
  then show ?case
    using scan_entry_exact [OF assms(1-4) _ assms(5), of w L by_path]
    by (simp add: seqp_def retp_def)
qed

section \<open>The walk\<close>

text \<open>The weight of a directory: one more than the number of nodes strictly below it.\<close>

definition below_nodes :: "disk \<Rightarrow> string list \<Rightarrow> string list set" where
  "below_nodes d k = {j \<in> fst ` set (d_nodes d). \<exists>t. t \<noteq> [] \<and> j = k @ t}"

definition weight :: "disk \<Rightarrow> path \<Rightarrow> string \<Rightarrow> nat" where
  "weight d root r = Suc (card (below_nodes d (dir_key root r)))"

lemma below_finite [simp]: "finite (below_nodes d k)"
  by (simp add: below_nodes_def)

lemma below_children:
  assumes "distinct ws" and "\<forall>w \<in> set ws. lookup_node d (k @ [w]) \<noteq> None"
  shows "(\<Sum>w \<leftarrow> ws. Suc (card (below_nodes d (k @ [w])))) \<le> card (below_nodes d k)"
proof -
  define P where "P w = insert (k @ [w]) (below_nodes d (k @ [w]))" for w
  have key: "k @ [w] \<in> fst ` set (d_nodes d)" if "w \<in> set ws" for w
    using assms(2) that by (force simp: lookup_node_def map_of_eq_None_iff)
  have card: "Suc (card (below_nodes d (k @ [w]))) = card (P w)" for w
    unfolding P_def by (subst card_insert_disjoint) (auto simp: below_nodes_def)
  have "(\<Sum>w \<leftarrow> ws. Suc (card (below_nodes d (k @ [w])))) = (\<Sum>w \<in> set ws. card (P w))"
    using assms(1) by (simp add: card sum_list_distinct_conv_sum_set)
  also have "\<dots> = card (\<Union>w \<in> set ws. P w)"
  proof (rule card_UN_disjoint [symmetric])
    show "\<forall>v \<in> set ws. \<forall>w \<in> set ws. v \<noteq> w \<longrightarrow> P v \<inter> P w = {}"
      by (auto simp: P_def below_nodes_def)
  qed (auto simp: P_def)
  also have "\<dots> \<le> card (below_nodes d k)"
  proof (rule card_mono)
    show "(\<Union>w \<in> set ws. P w) \<subseteq> below_nodes d k"
      using key by (auto simp: P_def below_nodes_def)
  qed simp
  finally show ?thesis .
qed

lemma sum_list_filter_le:
  fixes f :: "'a \<Rightarrow> nat"
  shows "sum_list (map f (filter P xs)) \<le> sum_list (map f xs)"
  by (induction xs) auto

lemma dirs_weight:
  assumes "dir_rel_ok r" and "plain d"
  shows "sum_list (map (weight d root)
      (concat (map (entry_dirs d root r) (filter Q (child_names d (dir_key root r)))))) <
    weight d root r"
proof -
  let ?k = "dir_key root r" and ?ws = "child_names d (dir_key root r)"
  have ok: "\<forall>w \<in> set ?ws. lookup_node d (?k @ [w]) \<noteq> None" by (simp add: child_names_iff)
  have one: "sum_list (map (weight d root) (entry_dirs d root r w)) \<le> Suc (card (below_nodes d (?k @ [w])))"
    if w: "w \<in> set ?ws" for w
  proof -
    obtain n where "lookup_node d (?k @ [w]) = Some n" using ok w by blast
    then have c: "clean (?k @ [w])" using plainD(1) [OF assms(2)] by blast
    have seg: "seg_ok w" using c by (simp add: clean_def)
    have "rel_ok (join_rel_path r w)"
      by (rule join_rel_ok [OF assms(1) seg]) (use c in \<open>auto simp: clean_def\<close>)
    then have "dir_key root (join_rel_path r w) = ?k @ [w]"
      using key_join_rel [OF assms(1) seg] by (simp add: dir_key_file_key)
    then show ?thesis by (simp add: entry_dirs_def weight_def)
  qed
  have "sum_list (map (weight d root) (concat (map (entry_dirs d root r) ws))) \<le>
      (\<Sum>w \<leftarrow> ws. Suc (card (below_nodes d (?k @ [w]))))" if "set ws \<subseteq> set ?ws" for ws
    using that
  proof (induction ws)
    case Nil
    then show ?case by simp
  next
    case (Cons w ws)
    have "sum_list (map (weight d root) (entry_dirs d root r w)) \<le> Suc (card (below_nodes d (?k @ [w])))"
      using Cons.prems by (intro one) simp
    moreover have "sum_list (map (weight d root) (concat (map (entry_dirs d root r) ws))) \<le>
        (\<Sum>w \<leftarrow> ws. Suc (card (below_nodes d (?k @ [w]))))"
      using Cons.prems by (intro Cons.IH) simp
    ultimately show ?case by (simp only: list.map concat.simps map_append sum_list_append sum_list.Cons add_mono)
  qed
  from this [of "filter Q ?ws"]
  have "sum_list (map (weight d root) (concat (map (entry_dirs d root r) (filter Q ?ws)))) \<le>
      (\<Sum>w \<leftarrow> filter Q ?ws. Suc (card (below_nodes d (?k @ [w]))))" by auto
  also have "\<dots> \<le> (\<Sum>w \<leftarrow> ?ws. Suc (card (below_nodes d (?k @ [w]))))"
    by (rule sum_list_filter_le)
  also have "\<dots> \<le> card (below_nodes d ?k)"
    using below_children [OF distinct_child_names ok] assms(2) by (simp add: plain_def)
  finally show ?thesis by (simp add: weight_def)
qed

text \<open>
  The files below a directory, outside the skipped names, and the actions they call for. A file
  is named by the directory's relative path and the names on the way.
\<close>

definition rel_below :: "string \<Rightarrow> string list \<Rightarrow> string" where
  "rel_below r ks = foldl join_rel_path r ks"

definition found :: "libs \<Rightarrow> disk \<Rightarrow> path \<Rightarrow> (string \<times> file_state) list \<Rightarrow> string \<Rightarrow> sync_action set" where
  "found L d root by_path r =
     {a. \<exists>ks c t. ks \<noteq> [] \<and> (\<forall>w \<in> set ks. \<not> skipped w) \<and>
        lookup_node d (dir_key root r @ ks) = Some (File c t) \<and>
        a \<in> set (upload_for L d by_path (rel_below r ks) c t)}"

lemma child_facts:
  assumes "plain d" and "visible_rel r" and "lookup_node d (dir_key root r @ [w]) \<noteq> None" and "\<not> skipped w"
  shows "visible_rel (join_rel_path r w)" and "dir_key root (join_rel_path r w) = dir_key root r @ [w]"
proof -
  have r: "dir_rel_ok r" using assms(2) by (simp add: visible_rel_def)
  obtain n where "lookup_node d (dir_key root r @ [w]) = Some n" using assms(3) by blast
  then have c: "clean (dir_key root r @ [w])" using plainD(1) [OF assms(1)] by blast
  have seg: "seg_ok w" using c by (simp add: clean_def)
  have j: "rel_ok (join_rel_path r w)"
    by (rule join_rel_ok [OF r seg]) (use c in \<open>auto simp: clean_def\<close>)
  then show "dir_key root (join_rel_path r w) = dir_key root r @ [w]"
    using key_join_rel [OF r seg] by (simp add: dir_key_file_key)
  show "visible_rel (join_rel_path r w)"
    using j assms(2,4) segs_join_rel [OF r seg] by (auto simp: visible_rel_def dir_rel_ok_def)
qed

lemma entry_acts_subset: "set (entry_acts L d root by_path r w) \<subseteq> found L d root by_path r"
proof
  fix a
  assume "a \<in> set (entry_acts L d root by_path r w)"
  then have h: "\<not> skipped w" "a \<in> set (case lookup_node d (dir_key root r @ [w]) of
        Some (File c t) \<Rightarrow> upload_for L d by_path (join_rel_path r w) c t | _ \<Rightarrow> [])"
    by (simp_all add: entry_acts_def split: if_splits)
  then obtain n where n: "lookup_node d (dir_key root r @ [w]) = Some n"
    by (cases "lookup_node d (dir_key root r @ [w])") auto
  with h(2) obtain c t where "n = File c t" "a \<in> set (upload_for L d by_path (join_rel_path r w) c t)"
    by (cases n) auto
  then show "a \<in> found L d root by_path r"
    unfolding found_def rel_below_def using h(1) n by (intro CollectI exI [of _ "[w]"]) auto
qed

text \<open>The names that the scan of a directory looks at.\<close>

definition shown_names :: "disk \<Rightarrow> path \<Rightarrow> string \<Rightarrow> string list" where
  "shown_names d root r = filter (\<lambda>w. w \<noteq> ''.gds_tmp'') (child_names d (dir_key root r))"

lemma found_in_step:
  fixes root :: path
  assumes "plain d" and "visible_rel r" and "a \<in> found L d root by_path r"
  shows "a \<in> (\<Union>w \<in> set (shown_names d root r). set (entry_acts L d root by_path r w)) \<union>
    (\<Union>w \<in> set (shown_names d root r). \<Union>q \<in> set (entry_dirs d root r w). found L d root by_path q)"
proof -
  obtain ks c t where ks: "ks \<noteq> []" "\<forall>w \<in> set ks. \<not> skipped w"
    "lookup_node d (dir_key root r @ ks) = Some (File c t)"
    "a \<in> set (upload_for L d by_path (rel_below r ks) c t)" using assms(3) by (auto simp: found_def)
  then obtain w vs where w: "ks = w # vs" by (cases ks) auto
  have nw: "\<not> skipped w" using ks(2) w by simp
  show ?thesis
  proof (cases "vs = []")
    case True
    have "w \<in> set (shown_names d root r)"
      using ks(3) nw w True by (auto simp: shown_names_def child_names_iff skipped_def)
    moreover have "a \<in> set (entry_acts L d root by_path r w)"
      using ks(3,4) nw w True by (simp add: entry_acts_def rel_below_def)
    ultimately show ?thesis by blast
  next
    case False
    have dir: "is_dir_node (lookup_node d (dir_key root r @ [w]))"
    proof (rule ccontr)
      assume "\<not> ?thesis"
      then have "lookup_node d ((dir_key root r @ [w]) @ vs) = None"
        using False by (rule plain_no_child [OF assms(1)])
      with ks(3) w show False by simp
    qed
    then have ne: "lookup_node d (dir_key root r @ [w]) \<noteq> None" by (auto simp: is_dir_node_def)
    note cf = child_facts [OF assms(1,2) ne nw]
    have "w \<in> set (shown_names d root r)" using ne nw by (auto simp: shown_names_def child_names_iff skipped_def)
    moreover have "join_rel_path r w \<in> set (entry_dirs d root r w)"
      using dir nw by (simp add: entry_dirs_def)
    moreover have "a \<in> found L d root by_path (join_rel_path r w)"
      unfolding found_def
      by (intro CollectI exI [of _ vs] exI [of _ c] exI [of _ t])
        (use ks w False cf in \<open>simp add: rel_below_def\<close>)
    ultimately show ?thesis by blast
  qed
qed

lemma step_in_found:
  fixes root :: path
  assumes "plain d" and "visible_rel r"
    and "a \<in> (\<Union>w \<in> set (shown_names d root r). set (entry_acts L d root by_path r w)) \<union>
    (\<Union>w \<in> set (shown_names d root r). \<Union>q \<in> set (entry_dirs d root r w). found L d root by_path q)"
  shows "a \<in> found L d root by_path r"
proof -
  consider (act) w where "a \<in> set (entry_acts L d root by_path r w)"
    | (dir) w where "w \<in> set (shown_names d root r)" "\<not> skipped w" "is_dir_node (lookup_node d (dir_key root r @ [w]))"
        "a \<in> found L d root by_path (join_rel_path r w)"
    using assms(3) by (auto simp: entry_dirs_def split: if_splits)
  then show ?thesis
  proof cases
    case act
    then show ?thesis using entry_acts_subset by blast
  next
    case dir
    have ne: "lookup_node d (dir_key root r @ [w]) \<noteq> None" using dir(3) by (auto simp: is_dir_node_def)
    note cf = child_facts [OF assms(1,2) ne dir(2)]
    from dir(4) obtain ks c t where ks: "ks \<noteq> []" "\<forall>w \<in> set ks. \<not> skipped w"
      "lookup_node d (dir_key root r @ w # ks) = Some (File c t)"
      "a \<in> set (upload_for L d by_path (rel_below (join_rel_path r w) ks) c t)"
      by (auto simp: found_def cf)
    then show ?thesis
      unfolding found_def
      by (intro CollectI exI [of _ "w # ks"] exI [of _ c] exI [of _ t])
        (use dir(2) in \<open>simp add: rel_below_def\<close>)
  qed
qed

lemma found_step:
  fixes root :: path
  assumes "plain d" and "visible_rel r"
  shows "found L d root by_path r = (\<Union>w \<in> set (shown_names d root r). set (entry_acts L d root by_path r w)) \<union>
    (\<Union>w \<in> set (shown_names d root r). \<Union>q \<in> set (entry_dirs d root r w). found L d root by_path q)"
  using found_in_step [OF assms] step_in_found [OF assms] by (intro equalityI subsetI) auto

lemma entry_dirs_ok:
  assumes "plain d" and "visible_rel r" and "q \<in> set (entry_dirs d root r w)"
  shows "visible_rel q \<and> is_dir_node (lookup_node d (dir_key root q))"
proof -
  have w: "\<not> skipped w" "q = join_rel_path r w" "is_dir_node (lookup_node d (dir_key root r @ [w]))"
    using assms(3) by (auto simp: entry_dirs_def split: if_splits)
  then have "lookup_node d (dir_key root r @ [w]) \<noteq> None" by (auto simp: is_dir_node_def)
  then show ?thesis using child_facts [OF assms(1,2) _ w(1)] w by simp
qed

lemma walk_exact:
  assumes "root_ok root" and "plain d" and "times_ok d" and "is_dir_node (lookup_node d (p_segs root))"
    and "\<forall>r \<in> set stack. visible_rel r \<and> is_dir_node (lookup_node d (dir_key root r))"
    and "sum_list (map (weight d root) stack) \<le> fuel"
  shows "\<exists>acts. walk fuel (tokio_local_fs L) root by_path stack d = (Inr (Some acts), d) \<and>
    set acts = (\<Union>r \<in> set stack. found L d root by_path r)"
  using assms(5,6)
proof (induction fuel arbitrary: stack)
  case 0
  then have "stack = []" by (cases stack) (auto simp: weight_def)
  then show ?case by (simp add: retp_def)
next
  case (Suc fuel)
  show ?case
  proof (cases stack)
    case Nil
    then show ?thesis by (simp add: retp_def)
  next
    case (Cons r stack')
    have r: "visible_rel r" "dir_rel_ok r" "is_dir_node (lookup_node d (dir_key root r))"
      using Suc.prems(1) Cons by (auto simp: visible_rel_def)
    define ws where "ws = shown_names d root r"
    define dirs where "dirs = concat (map (entry_dirs d root r) ws)"
    define acts where "acts = concat (map (entry_acts L d root by_path r) ws)"
    have ls: "tokio_list_dir root r d = (Inr (map (entry_of d (dir_key root r)) ws), d)"
      unfolding ws_def shown_names_def by (rule list_dir_exact [OF assms(1) r(2) assms(2) r(3) assms(4)])
    have wok: "\<forall>w \<in> set ws. lookup_node d (dir_key root r @ [w]) \<noteq> None"
      by (auto simp: ws_def shown_names_def child_names_iff)
    have sc: "scan_entries (tokio_local_fs L) root by_path r (map (entry_of d (dir_key root r)) ws) d =
        (Inr (dirs, acts), d)"
      unfolding dirs_def acts_def by (rule scan_entries_exact [OF assms(1) r(1) assms(2-4) wok])
    have dirs_ok: "\<forall>q \<in> set dirs. visible_rel q \<and> is_dir_node (lookup_node d (dir_key root q))"
      using entry_dirs_ok [OF assms(2) r(1)] by (auto simp: dirs_def)
    have "sum_list (map (weight d root) dirs) < weight d root r"
      unfolding dirs_def ws_def shown_names_def by (rule dirs_weight [OF r(2) assms(2)])
    then have le: "sum_list (map (weight d root) (rev dirs @ stack')) \<le> fuel"
      using Suc.prems(2) Cons by (simp add: rev_map [symmetric])
    obtain rest where rest: "walk fuel (tokio_local_fs L) root by_path (rev dirs @ stack') d = (Inr (Some rest), d)"
      "set rest = (\<Union>q \<in> set (rev dirs @ stack'). found L d root by_path q)"
    proof -
      have "\<forall>q \<in> set (rev dirs @ stack'). visible_rel q \<and> is_dir_node (lookup_node d (dir_key root q))"
        using dirs_ok Suc.prems(1) Cons by (simp add: ball_Un)
      from Suc.IH [OF this le] that show thesis by blast
    qed
    have "lf_list_dir (tokio_local_fs L) = tokio_list_dir" by (simp add: tokio_local_fs_def)
    then have run: "walk (Suc fuel) (tokio_local_fs L) root by_path stack d = (Inr (Some (acts @ rest)), d)"
      by (simp add: Cons seqp_def retp_def ls sc rest(1))
    have "set (acts @ rest) = (\<Union>q \<in> set stack. found L d root by_path q)"
      using rest(2) found_step [OF assms(2) r(1), of L root by_path]
      by (auto simp: Cons acts_def dirs_def ws_def [symmetric])
    with run show ?thesis by blast
  qed
qed

section \<open>Deleted files\<close>

text \<open>A component on the way to \<open>k\<close> is a regular file: the system answers \<open>ENOTDIR\<close>.\<close>

definition behind_file :: "disk \<Rightarrow> string list \<Rightarrow> bool" where
  "behind_file d k \<longleftrightarrow> (\<exists>i < length k. \<exists>c t. lookup_node d (take i k) = Some (File c t))"

lemma resolve_fails:
  assumes "plain d" and "clean cs" and "resolve fuel d follow at cs = Inl e"
  shows "e = (if \<exists>i. 0 < i \<and> i < length cs \<and> (\<exists>c t. lookup_node d (at @ take i cs) = Some (File c t))
    then enotdir else enoent)"
  using assms(2,3)
proof (induction cs arbitrary: at)
  case Nil
  then show ?case by simp
next
  case (Cons c cs)
  then have c: "c \<noteq> ''.''" "c \<noteq> ''..''" and cs: "clean cs" by (auto simp: clean_def seg_ok_def)
  have split: "(\<exists>i. 0 < i \<and> i < length (c # cs) \<and> P (at @ take i (c # cs))) \<longleftrightarrow>
      (cs \<noteq> [] \<and> P (at @ [c])) \<or> (\<exists>i. 0 < i \<and> i < length cs \<and> P ((at @ [c]) @ take i cs))" for P
  proof -
    have "(\<exists>i. 0 < i \<and> i < length (c # cs) \<and> P (at @ take i (c # cs))) \<longleftrightarrow>
        (\<exists>j < length cs. P ((at @ [c]) @ take j cs))"
      by (auto simp: gr0_conv_Suc)
    also have "\<dots> \<longleftrightarrow> (cs \<noteq> [] \<and> P (at @ [c])) \<or>
        (\<exists>i. 0 < i \<and> i < length cs \<and> P ((at @ [c]) @ take i cs))"
      by (metis append.right_neutral gr0I length_greater_0_conv take_0)
    finally show ?thesis .
  qed
  show ?case
  proof (cases "lookup_node d (at @ [c])")
    case None
    have "lookup_node d ((at @ [c]) @ take i cs) = None" for i
      using plain_no_child [OF assms(1), of "at @ [c]" "take i cs"] None
      by (cases "take i cs = []") (auto simp: is_dir_node_def)
    with None c Cons.prems(2) show ?thesis
      unfolding split [of "\<lambda>k. \<exists>c t. lookup_node d k = Some (File c t)"] by (auto split: if_splits)
  next
    case (Some n)
    show ?thesis
    proof (cases n)
      case (File x t)
      with Some c Cons.prems(2) show ?thesis
        unfolding split [of "\<lambda>k. \<exists>c t. lookup_node d k = Some (File c t)"] by (auto split: if_splits)
    next
      case (Dir t)
      with Some c Cons.prems(2) have "resolve fuel d follow (at @ [c]) cs = Inl e" by simp
      from Cons.IH [OF cs this] show ?thesis
        unfolding split [of "\<lambda>k. \<exists>c t. lookup_node d k = Some (File c t)"] by (simp add: Some Dir)
    next
      case (Link u t)
      with Some plainD(2) [OF assms(1)] show ?thesis by fastforce
    qed
  qed
qed

lemma try_exists_plain:
  assumes "plain d" and "clean k"
  shows "std_try_exists d \<lparr>p_abs = True, p_segs = k\<rparr> =
    (if behind_file d k then Inl enotdir else Inr (lookup_node d k \<noteq> None))"
proof -
  have b: "behind_file d k \<longleftrightarrow>
      (\<exists>i. 0 < i \<and> i < length k \<and> (\<exists>c t. lookup_node d ([] @ take i k) = Some (File c t)))"
    unfolding behind_file_def by (metis append_Nil gr0I lookup_root node.distinct(1) option.inject take_0)
  have nl: "\<not> has_nul k" using assms(2) by (auto simp: has_nul_def list_ex_iff clean_def)
  show ?thesis
  proof (cases "resolve 40 d True [] k")
    case (Inl e)
    then have "find_node d True \<lparr>p_abs = True, p_segs = k\<rparr> = Inl e"
      by (simp add: find_node_def locate_def nl)
    moreover have "lookup_node d k = None"
      using find_node_plain [OF assms(1), of "\<lparr>p_abs = True, p_segs = k\<rparr>" True] assms(2) calculation
      by (cases "lookup_node d k") auto
    moreover have "e = (if behind_file d k then enotdir else enoent)"
      using resolve_fails [OF assms Inl] unfolding b .
    ultimately show ?thesis by (simp add: std_try_exists_def enoent_def enotdir_def)
  next
    case (Inr j)
    then have j: "j = k" "dirs_ok d [] k" using resolve_plain [OF assms] by auto
    have "\<not> behind_file d k"
    proof
      assume "behind_file d k"
      then obtain i c t where i: "0 < i" "i < length k" "lookup_node d (take i k) = Some (File c t)"
        unfolding b by auto
      have "is_dir_node (lookup_node d ([] @ take i k))"
        using j(2) i(1,2) unfolding dirs_ok_def by blast
      with i(3) show False by (simp add: is_dir_node_def)
    qed
    moreover have "find_node d True \<lparr>p_abs = True, p_segs = k\<rparr> =
        (case lookup_node d k of None \<Rightarrow> Inl enoent | Some n \<Rightarrow> Inr (k, n))"
      using Inr j(1) nl by (simp add: find_node_def locate_def)
    ultimately show ?thesis
      by (cases "lookup_node d k") (simp_all add: std_try_exists_def enoent_def)
  qed
qed

definition gone :: "disk \<Rightarrow> path \<Rightarrow> string \<times> file_state \<Rightarrow> bool" where
  "gone d root ps \<longleftrightarrow> fs_drive_file_id (snd ps) \<noteq> None \<and> lookup_node d (file_key root (fst ps)) = None"

lemma gone_pair:
  "gone d root (r, st) \<longleftrightarrow> fs_drive_file_id st \<noteq> None \<and> lookup_node d (file_key root r) = None"
  by (simp add: gone_def)

lemma tokio_exists_plain:
  assumes "root_ok root" and "rel_ok r" and "plain d"
  shows "tokio_exists root r d =
    (if behind_file d (file_key root r)
     then Inl (IoError (path_show \<lparr>p_abs = True, p_segs = file_key root r\<rparr>) enotdir)
     else Inr (lookup_node d (file_key root r) \<noteq> None), d)"
  by (simp add: tokio_exists_def Let_def join_rel [OF assms(1,2)] at_path_askp
      try_exists_plain [OF assms(3) file_key_clean [OF assms(1,2)]])

lemma scan_deleted_exact:
  assumes "root_ok root" and "plain d"
    and "\<forall>(r, st) \<in> set ps. rel_ok r \<and> \<not> behind_file d (file_key root r)"
  shows "scan_deleted (tokio_local_fs L) root ps d =
    (Inr (map (\<lambda>(r, st). delete_remote r st) (filter (gone d root) ps)), d)"
  using assms(3)
proof (induction ps)
  case Nil
  then show ?case by (simp add: retp_def)
next
  case (Cons p ps)
  obtain r st where p: "p = (r, st)" by (cases p)
  have ex: "lf_exists (tokio_local_fs L) root r d = (Inr (lookup_node d (file_key root r) \<noteq> None), d)"
    using tokio_exists_plain [OF assms(1) _ assms(2), of r] Cons.prems p by (simp add: tokio_local_fs_def)
  have IH: "scan_deleted (tokio_local_fs L) root ps d =
      (Inr (map (\<lambda>(r, st). delete_remote r st) (filter (gone d root) ps)), d)"
    using Cons by simp
  show ?case
  proof (cases "fs_drive_file_id st = None")
    case True
    with IH show ?thesis by (simp add: p gone_pair)
  next
    case False
    with IH ex show ?thesis by (simp add: p gone_pair seqp_def retp_def)
  qed
qed

lemma scan_deleted_fails:
  assumes "root_ok root" and "plain d" and "\<forall>(r, st) \<in> set ps. rel_ok r"
    and "(r, st) \<in> set ps" and "fs_drive_file_id st \<noteq> None" and "behind_file d (file_key root r)"
  shows "\<exists>p. scan_deleted (tokio_local_fs L) root ps d = (Inl (IoError p enotdir), d)"
  using assms(3,4)
proof (induction ps)
  case Nil
  then show ?case by simp
next
  case (Cons p ps)
  obtain q u where p: "p = (q, u)" by (cases p)
  have ex: "lf_exists (tokio_local_fs L) root q d =
      (if behind_file d (file_key root q)
       then Inl (IoError (path_show \<lparr>p_abs = True, p_segs = file_key root q\<rparr>) enotdir)
       else Inr (lookup_node d (file_key root q) \<noteq> None), d)"
    using tokio_exists_plain [OF assms(1) _ assms(2), of q] Cons.prems p by (simp add: tokio_local_fs_def)
  show ?case
  proof (cases "fs_drive_file_id u \<noteq> None \<and> behind_file d (file_key root q)")
    case True
    with ex show ?thesis by (auto simp: p seqp_def)
  next
    case False
    then have "(r, st) \<in> set ps" using Cons.prems(2) assms(5,6) p by auto
    with Cons obtain x where "scan_deleted (tokio_local_fs L) root ps d = (Inl (IoError x enotdir), d)"
      by auto
    with ex False show ?thesis by (auto simp: p seqp_def)
  qed
qed

section \<open>The whole scan\<close>

lemma visible_root: "visible_rel []"
  by (simp add: visible_rel_def dir_rel_ok_def path_segs_of_def)

lemma collect_values: "p \<in> set (collect_map f xs) \<Longrightarrow> snd p \<in> set xs \<and> fst p = f (snd p)"
proof -
  assume "p \<in> set (collect_map f xs)"
  then have "map_of (collect_map f xs) (fst p) = Some (snd p)"
    using collect_map_distinct by (metis map_of_is_SomeI prod.collapse)
  then show ?thesis unfolding collect_map_lookup by (drule_tac find_sound) simp
qed

lemma scan_finds:
  fixes s :: "('w, disk) world"
  assumes "plain (w_disk s)" and "times_ok (w_disk s)" and "root_ok root"
    and "is_dir_node (lookup_node (w_disk s) (p_segs root))"
    and "fs_list_by_folder L (sf_id folder) (w_db s) = (Inr states, w_db s)"
    and "\<forall>st \<in> set states. rel_ok (fs_relative_path st) \<and>
      \<not> behind_file (w_disk s) (file_key root (fs_relative_path st))"
    and "card (below_nodes (w_disk s) (p_segs root)) < fuel"
  shows "\<exists>acts. compute_local_changes fuel (tokio_local_fs L) L root folder s = (Inr (Some acts), s) \<and>
    set acts = found L (w_disk s) root (collect_map fs_relative_path states) [] \<union>
      {delete_remote r st | r st. (r, st) \<in> set (collect_map fs_relative_path states) \<and>
         fs_drive_file_id st \<noteq> None \<and> lookup_node (w_disk s) (file_key root r) = None}"
proof -
  let ?m = "collect_map fs_relative_path states" and ?d = "w_disk s"
  have k: "dir_key root [] = p_segs root" by (simp add: dir_key_def)
  have one: "\<forall>r \<in> set [[]]. visible_rel r \<and> is_dir_node (lookup_node ?d (dir_key root r))"
    using assms(4) by (simp add: visible_root k)
  have le: "sum_list (map (weight ?d root) [[]]) \<le> fuel" using assms(7) by (simp add: weight_def k)
  obtain acts where w: "walk fuel (tokio_local_fs L) root ?m [[]] ?d = (Inr (Some acts), ?d)"
    "set acts = found L ?d root ?m []"
    using walk_exact [OF assms(3,1,2,4) one le, of L ?m] by auto
  have "\<forall>(r, st) \<in> set ?m. rel_ok r \<and> \<not> behind_file ?d (file_key root r)"
    using assms(6) collect_values by fastforce
  from scan_deleted_exact [OF assms(3,1) this]
  have del: "scan_deleted (tokio_local_fs L) root ?m ?d =
    (Inr (map (\<lambda>(r, st). delete_remote r st) (filter (gone ?d root) ?m)), ?d)" .
  have run: "compute_local_changes fuel (tokio_local_fs L) L root folder s =
      (Inr (Some (acts @ map (\<lambda>(r, st). delete_remote r st) (filter (gone ?d root) ?m))), s)"
    by (simp add: compute_local_changes_def seqp_def on_db_apply on_disk_apply assms(5) w(1) del Let_def
        retp_def)
  have "set (map (\<lambda>(r, st). delete_remote r st) (filter (gone ?d root) ?m)) =
      {delete_remote r st | r st. (r, st) \<in> set ?m \<and> fs_drive_file_id st \<noteq> None \<and>
         lookup_node ?d (file_key root r) = None}"
    by (auto simp: gone_def image_iff) force
  then show ?thesis
    by (intro exI [of _ "acts @ map (\<lambda>(r, st). delete_remote r st) (filter (gone ?d root) ?m)"] conjI run)
      (simp only: set_append w(2))
qed

text \<open>
  C6: on a disk without symbolic links, a local scan ends within as many directory visits as
  there are nodes below the sync root and finds exactly these actions: a new upload for each
  file that is outside directories and files named \<open>.git\<close> or \<open>.gds_tmp\<close> and has no row, an
  updated upload for each such file whose digest or time differs from its row, and a remote
  deletion for each row with a Drive id whose file is gone. It changes nothing. (No row's path
  leads through a regular file.)
\<close>

theorem local_scan_exact:
  fixes s :: "('w, disk) world"
  assumes "plain (w_disk s)" and "times_ok (w_disk s)" and "root_ok root"
    and "is_dir_node (lookup_node (w_disk s) (p_segs root))"
    and "fs_list_by_folder L (sf_id folder) (w_db s) = (Inr states, w_db s)"
    and "\<forall>st \<in> set states. rel_ok (fs_relative_path st) \<and>
      \<not> behind_file (w_disk s) (file_key root (fs_relative_path st))"
    and "card (below_nodes (w_disk s) (p_segs root)) < fuel"
  shows "\<exists>acts. compute_local_changes fuel (tokio_local_fs L) L root folder s = (Inr (Some acts), s) \<and>
    set acts = found L (w_disk s) root (collect_map fs_relative_path states) [] \<union>
      {delete_remote r st | r st. (r, st) \<in> set (collect_map fs_relative_path states) \<and>
         fs_drive_file_id st \<noteq> None \<and> lookup_node (w_disk s) (file_key root r) = None}"
  using assms by (rule scan_finds)

definition demo_folder :: sync_folder where
  "demo_folder = \<lparr>sf_id = ''f1'', sf_account_id = ''a1'', sf_local_path = ''/r'',
     sf_drive_folder_id = ''root'', sf_start_page_token = None, sf_last_sync_at = None, sf_paused = False\<rparr>"

definition demo_scan_world :: "(unit, disk) world" where
  "demo_scan_world = \<lparr>w_env = (), w_disk = demo_plain_disk, w_db = demo_db, w_cache = [], w_notices = []\<rparr>"

lemma demo_times: "times_ok demo_plain_disk"
  by (auto simp: times_ok_def demo_plain_disk_def lookup_node_def split: if_splits)

lemma demo_root_dir: "is_dir_node (lookup_node demo_plain_disk (p_segs demo_root))"
  by (simp add: is_dir_node_def demo_plain_disk_def lookup_node_def demo_root_def)

lemma demo_below: "card (below_nodes demo_plain_disk k) < 4"
proof -
  have "card (below_nodes demo_plain_disk k) \<le> card (set (map fst (d_nodes demo_plain_disk)))"
    by (rule card_mono) (auto simp: below_nodes_def)
  also have "\<dots> \<le> length (map fst (d_nodes demo_plain_disk))" by (rule card_length)
  finally show ?thesis by (simp add: demo_plain_disk_def)
qed

text \<open>A temporary file that was left behind is uploaded like any other file.\<close>

lemma local_scan_exact_witness:
  "\<exists>acts. compute_local_changes 4 (tokio_local_fs demo_libs) demo_libs demo_root demo_folder demo_scan_world =
      (Inr (Some acts), demo_scan_world) \<and>
    new_upload ''a.gds_tmp'' None ''mine'' 6000000000 \<in> set acts"
proof -
  have d: "w_disk demo_scan_world = demo_plain_disk" by (simp add: demo_scan_world_def)
  have l: "fs_list_by_folder demo_libs (sf_id demo_folder) (w_db demo_scan_world) =
      (Inr [], w_db demo_scan_world)"
    by (simp add: fs_list_by_folder_def demo_scan_world_def demo_db_def)
  have "new_upload ''a.gds_tmp'' None ''mine'' 6000000000 \<in>
      found demo_libs demo_plain_disk demo_root (collect_map fs_relative_path []) []"
    unfolding found_def
    by (intro CollectI exI [of _ "[''a.gds_tmp'']"] exI [of _ "''mine''"] exI [of _ "6000000000"])
      (simp add: skipped_def lookup_node_def demo_plain_disk_def demo_root_def dir_key_def rel_below_def
        join_rel_path_def upload_for_def collect_map_def file_time_def demo_libs_def)
  then show ?thesis
    using local_scan_exact [of demo_scan_world demo_root demo_libs demo_folder "[]" 4] l
    by (auto simp: d demo_plain demo_times demo_root_ok demo_root_dir demo_below)
qed

text \<open>
  When a directory with a synced file was replaced by a regular file, every local scan of the
  folder fails with an I/O error: the deletion of the files below is never found. (The scan of
  the tree itself succeeds; asking whether the row's file exists does not.)
\<close>

theorem local_scan_stops_at_replaced_directory:
  fixes s :: "('w, disk) world"
  assumes "plain (w_disk s)" and "times_ok (w_disk s)" and "root_ok root"
    and "is_dir_node (lookup_node (w_disk s) (p_segs root))"
    and "fs_list_by_folder L (sf_id folder) (w_db s) = (Inr states, w_db s)"
    and "distinct (map fs_relative_path states)"
    and "\<forall>st \<in> set states. rel_ok (fs_relative_path st)"
    and "st \<in> set states" and "fs_drive_file_id st \<noteq> None"
    and "behind_file (w_disk s) (file_key root (fs_relative_path st))"
    and "card (below_nodes (w_disk s) (p_segs root)) < fuel"
  shows "\<exists>p. compute_local_changes fuel (tokio_local_fs L) L root folder s = (Inl (IoError p enotdir), s)"
proof -
  let ?m = "collect_map fs_relative_path states" and ?d = "w_disk s"
  have k: "dir_key root [] = p_segs root" by (simp add: dir_key_def)
  have one: "\<forall>r \<in> set [[]]. visible_rel r \<and> is_dir_node (lookup_node ?d (dir_key root r))"
    using assms(4) by (simp add: visible_root k)
  have le: "sum_list (map (weight ?d root) [[]]) \<le> fuel" using assms(11) by (simp add: weight_def k)
  obtain acts where w: "walk fuel (tokio_local_fs L) root ?m [[]] ?d = (Inr (Some acts), ?d)"
    using walk_exact [OF assms(3,1,2,4) one le, of L ?m] by auto
  have ok: "\<forall>(r, st) \<in> set ?m. rel_ok r" using assms(7) collect_values by fastforce
  have "distinct (map fs_relative_path (rev states))" and "st \<in> set (rev states)"
    using assms(6,8) by (simp_all add: rev_map [symmetric])
  then have "map_of ?m (fs_relative_path st) = Some st"
    unfolding collect_map_lookup by (rule find_unique)
  then have "(fs_relative_path st, st) \<in> set ?m" by (rule map_of_SomeD)
  from scan_deleted_fails [OF assms(3,1) ok this assms(9,10)]
  obtain p where "scan_deleted (tokio_local_fs L) root ?m ?d = (Inl (IoError p enotdir), ?d)" by blast
  then show ?thesis
    by (simp add: compute_local_changes_def seqp_def on_db_apply on_disk_apply assms(5) w Let_def)
qed

definition replaced_state :: file_state where
  "replaced_state = (new_pending ''s2'' ''f1'' ''a.txt/x'')\<lparr>fs_drive_file_id := Some ''d2''\<rparr>"

lemma replaced_state_listed:
  "fs_list_by_folder demo_libs (sf_id demo_folder)
     (demo_db\<lparr>db_file_states := [row_of_file_state demo_libs replaced_state]\<rparr>) =
   (Inr [replaced_state], demo_db\<lparr>db_file_states := [row_of_file_state demo_libs replaced_state]\<rparr>)"
proof -
  have "fs_times_ok replaced_state" and "fs_stored replaced_state = replaced_state"
    by (simp_all add: fs_times_ok_def fs_stored_def replaced_state_def new_pending_def)
  with row_round_trip [OF demo_libs_ok] have
    "row_to_file_state demo_libs (row_of_file_state demo_libs replaced_state) = Inr replaced_state" by metis
  moreover have "fr_sync_folder_id (row_of_file_state demo_libs replaced_state) = ''f1''"
    by (simp add: row_of_file_state_def replaced_state_def new_pending_def)
  ultimately show ?thesis by (simp add: fs_list_by_folder_def demo_folder_def)
qed

lemma local_scan_stops_at_replaced_directory_witness:
  "\<exists>p s'. compute_local_changes 4 (tokio_local_fs demo_libs) demo_libs demo_root demo_folder
     (demo_scan_world\<lparr>w_db := demo_db\<lparr>db_file_states := [row_of_file_state demo_libs replaced_state]\<rparr>\<rparr>) =
     (Inl (IoError p enotdir), s')"
proof -
  have k: "file_key demo_root ''a.txt/x'' = [''r'', ''a.txt'', ''x'']" and ok: "rel_ok ''a.txt/x''"
    by code_simp+
  have b: "behind_file demo_plain_disk [''r'', ''a.txt'', ''x'']"
    unfolding behind_file_def
    by (intro exI [of _ 2] conjI exI [of _ "''old''"] exI [of _ 5000000000])
      (simp_all add: demo_plain_disk_def lookup_node_def)
  have p: "fs_relative_path replaced_state = ''a.txt/x''" "fs_drive_file_id replaced_state \<noteq> None"
    by (simp_all add: replaced_state_def new_pending_def)
  show ?thesis
    using local_scan_stops_at_replaced_directory [where folder = demo_folder and L = demo_libs
        and root = demo_root and fuel = 4 and st = replaced_state and states = "[replaced_state]"
        and s = "demo_scan_world\<lparr>w_db := demo_db\<lparr>db_file_states := [row_of_file_state demo_libs replaced_state]\<rparr>\<rparr>"]
    by (simp add: replaced_state_listed demo_scan_world_def demo_plain demo_times demo_root_ok
        demo_root_dir demo_below p k ok b) blast
qed

end
