(* ===== verification/Gds_Executor.thy ===== *)
theory Gds_Executor
  imports Gds_Queue Gds_Scan Gds_Auth
begin

text \<open>
  The executor (\<open>crates/gds-core/src/sync/executor.rs\<close>): what one action does to Drive, to the
  local disk and to the database, and the loop that runs a queue with the pause check.
\<close>

section \<open>The executor's state\<close>

text \<open>
  The collaborators of \<open>SyncExecutor\<close> (token provider, local file system, pool) are parts of the
  world; the record holds the rest. \<open>se_notify\<close>: whether there is a conflict channel.
\<close>

record sync_executor =
  se_drive_client :: drive_client
  se_account_key :: string
  se_config :: config
  se_max_concurrent_uploads :: nat
  se_max_concurrent_downloads :: nat
  se_notify :: bool

definition executor_new :: "drive_client \<Rightarrow> string \<Rightarrow> config \<Rightarrow> sync_executor" where
  "executor_new client account_key config =
     \<lparr>se_drive_client = client, se_account_key = account_key, se_config = config,
      se_max_concurrent_uploads = sc_max_concurrent_uploads (cfg_sync config),
      se_max_concurrent_downloads = sc_max_concurrent_downloads (cfg_sync config),
      se_notify = False\<rparr>"

definition with_conflict_notifier :: "sync_executor \<Rightarrow> sync_executor" where
  "with_conflict_notifier ex = ex\<lparr>se_notify := True\<rparr>"

section \<open>The rows written after a transfer\<close>

definition file_state_after_upload ::
    "'w env \<Rightarrow> libs \<Rightarrow> string \<Rightarrow> string \<Rightarrow> drive_file \<Rightarrow> string option \<Rightarrow> datetime option \<Rightarrow>
     'w \<Rightarrow> file_state \<times> 'w" where
  "file_state_after_upload E L sync_folder_id relative_path f local_md5 local_modified w =
     (let (now, w1) = env_now E w; (uuid, w2) = env_uuid E w1 in
      (\<lparr>fs_id = uuid, fs_sync_folder_id = sync_folder_id, fs_relative_path = relative_path,
        fs_drive_file_id = Some (df_id f), fs_drive_md5 = df_md5_checksum f,
        fs_drive_modified = parse_drive_modified L (df_modified_time f),
        fs_local_md5 = local_md5, fs_local_modified = local_modified,
        fs_sync_state = ss_synced, fs_last_synced_at = Some now\<rparr>, w2))"

definition file_state_after_download ::
    "'w env \<Rightarrow> libs \<Rightarrow> string \<Rightarrow> string \<Rightarrow> drive_file \<Rightarrow> file_state option \<Rightarrow>
     'w \<Rightarrow> file_state \<times> 'w" where
  "file_state_after_download E L sync_folder_id relative_path f existing w =
     (let (now, w1) = env_now E w;
          (i, w2) = (case existing of Some s \<Rightarrow> (fs_id s, w1) | None \<Rightarrow> env_uuid E w1) in
      (\<lparr>fs_id = i, fs_sync_folder_id = sync_folder_id, fs_relative_path = relative_path,
        fs_drive_file_id = Some (df_id f), fs_drive_md5 = df_md5_checksum f,
        fs_drive_modified = parse_drive_modified L (df_modified_time f),
        fs_local_md5 = df_md5_checksum f,
        fs_local_modified = parse_drive_modified L (df_modified_time f),
        fs_sync_state = ss_synced, fs_last_synced_at = Some now\<rparr>, w2))"

section \<open>One action\<close>

text \<open>\<open>ok_or_else(|| SyncError::ApiError \{ code: 0, message \})\<close>.\<close>

definition need :: "string \<Rightarrow> 'a option \<Rightarrow> ('s, sync_error, 'a) proc" where
  "need m x = (case x of None \<Rightarrow> failp (api_msg m) | Some y \<Rightarrow> retp y)"

definition exec_new_upload ::
    "'w env \<Rightarrow> 'd local_fs \<Rightarrow> libs \<Rightarrow> codecs \<Rightarrow> sync_executor \<Rightarrow> path \<Rightarrow> sync_folder \<Rightarrow> string \<Rightarrow>
     sync_action \<Rightarrow> (('w, 'd) world, sync_error, unit) proc" where
  "exec_new_upload E FS L K ex sync_root folder token action =
     seqp (on_disk (lf_read_file FS sync_root (sa_relative_path action))) (\<lambda>content.
     let mime = lib_mime_guess L (sa_relative_path action);
         meta = \<lparr>cm_name = Some (sa_relative_path action), cm_mime_type = Some mime,
                 cm_parents = Some [sf_drive_folder_id folder]\<rparr> in
     seqp (on_env (if length content \<le> SIMPLE_UPLOAD_MAX_BYTES
                   then files_create_simple E K (se_drive_client ex) token meta content mime
                   else files_create_resumable E K (se_drive_client ex) token meta (length content)
                          mime content)) (\<lambda>f.
     seqp (on_env (okp (file_state_after_upload E L (sf_id folder) (sa_relative_path action) f
                          (sa_local_md5 action) (sa_local_modified action)))) (\<lambda>state.
     on_db (fs_upsert L state))))"

definition exec_update_upload ::
    "'w env \<Rightarrow> 'd local_fs \<Rightarrow> libs \<Rightarrow> codecs \<Rightarrow> sync_executor \<Rightarrow> path \<Rightarrow> sync_folder \<Rightarrow> string \<Rightarrow>
     sync_action \<Rightarrow> (('w, 'd) world, sync_error, unit) proc" where
  "exec_update_upload E FS L K ex sync_root folder token action =
     seqp (need ''UpdateUpload missing state'' (sa_state action)) (\<lambda>state.
     seqp (on_disk (lf_read_file FS sync_root (sa_relative_path action))) (\<lambda>content.
     let mime = lib_mime_guess L (sa_relative_path action) in
     seqp (need ''UpdateUpload missing drive_file_id'' (fs_drive_file_id state)) (\<lambda>file_id.
     seqp (on_env (if length content \<le> SIMPLE_UPLOAD_MAX_BYTES
                   then files_update_content_simple E K (se_drive_client ex) token file_id content mime
                   else files_update_content_resumable E K (se_drive_client ex) token file_id
                          (length content) mime 0 content)) (\<lambda>f.
     seqp (on_env (okp (file_state_after_upload E L (sf_id folder) (sa_relative_path action) f
                          (sa_local_md5 action) (sa_local_modified action)))) (\<lambda>new_state.
     on_db (fs_upsert L new_state))))))"

definition remote_content ::
    "'w env \<Rightarrow> codecs \<Rightarrow> sync_executor \<Rightarrow> string \<Rightarrow> drive_file \<Rightarrow> ('w, sync_error, string) proc" where
  "remote_content E K ex token f =
     (if is_google_workspace_file (df_mime_type f)
      then retp (case stub_content_for_mime (df_id f) (df_mime_type f) of Some s \<Rightarrow> s | None \<Rightarrow> [])
      else (case export_mime_type (df_mime_type f) of
              Some export_mime \<Rightarrow> files_export E K (se_drive_client ex) token (df_id f) export_mime
            | None \<Rightarrow> files_get_media E K (se_drive_client ex) token (df_id f)))"

definition exec_download ::
    "'w env \<Rightarrow> 'd local_fs \<Rightarrow> libs \<Rightarrow> codecs \<Rightarrow> sync_executor \<Rightarrow> path \<Rightarrow> sync_folder \<Rightarrow> string \<Rightarrow>
     sync_action \<Rightarrow> (('w, 'd) world, sync_error, unit) proc" where
  "exec_download E FS L K ex sync_root folder token action =
     seqp (need ''Download action missing drive_file'' (sa_drive_file action)) (\<lambda>f.
     seqp (on_env (remote_content E K ex token f)) (\<lambda>content.
     seqp (on_disk (lf_write_atomic FS sync_root (sa_relative_path action) content)) (\<lambda>_.
     seqp (on_env (okp (file_state_after_download E L (sf_id folder) (sa_relative_path action) f
                          (sa_state action)))) (\<lambda>state.
     on_db (fs_upsert L state)))))"

text \<open>\<open>strip_prefix(sync_root)\<close> with the fallback to the whole path.\<close>

definition conflict_rel :: "path \<Rightarrow> path \<Rightarrow> string" where
  "conflict_rel sync_root conflict_path =
     (case strip_prefix conflict_path sync_root of
        Some p \<Rightarrow> path_show p | None \<Rightarrow> path_show conflict_path)"

text \<open>The result is \<open>None\<close> when the search for a free conflict name does not end.\<close>

definition exec_conflict ::
    "'w env \<Rightarrow> 'd local_fs \<Rightarrow> libs \<Rightarrow> codecs \<Rightarrow> sync_executor \<Rightarrow> path \<Rightarrow> sync_folder \<Rightarrow> string \<Rightarrow>
     sync_action \<Rightarrow> (('w, 'd) world, sync_error, unit option) proc" where
  "exec_conflict E FS L K ex sync_root folder token action =
     seqp (need ''Conflict action missing state'' (sa_state action)) (\<lambda>state.
     seqp (need ''Conflict action missing drive_file'' (sa_drive_file action)) (\<lambda>f.
     seqp (on_disk (lf_read_file FS sync_root (sa_relative_path action))) (\<lambda>local_content.
     seqp (on_env (okp (env_now E))) (\<lambda>now.
     seqp (getp (\<lambda>s. conflict_copy_path L (path_join sync_root (sa_relative_path action)) now
                  (lf_std_exists FS (w_disk s)))) (\<lambda>found.
     case found of
       None \<Rightarrow> retp None
     | Some conflict_path \<Rightarrow>
         let rel = conflict_rel sync_root conflict_path in
         seqp (on_disk (lf_write_atomic FS sync_root rel local_content)) (\<lambda>_.
         seqp (on_env (remote_content E K ex token f)) (\<lambda>server_content.
         seqp (on_disk (lf_write_atomic FS sync_root (sa_relative_path action) server_content)) (\<lambda>_.
         seqp (on_env (okp (file_state_after_download E L (sf_id folder) (sa_relative_path action) f
                              (Some state)))) (\<lambda>new_state.
         seqp (on_db (fs_upsert L (new_state\<lparr>fs_sync_state := ss_conflict\<rparr>))) (\<lambda>_.
         seqp (if se_notify ex
               then modp (\<lambda>s. s\<lparr>w_notices := w_notices s @
                      [(path_show (path_join sync_root (sa_relative_path action)),
                        path_show (path_join sync_root rel))]\<rparr>)
               else retp ()) (\<lambda>_.
         retp (Some ()))))))))))))"

definition exec_delete_remote ::
    "'w env \<Rightarrow> sync_executor \<Rightarrow> string \<Rightarrow> sync_action \<Rightarrow> (('w, 'd) world, sync_error, unit) proc" where
  "exec_delete_remote E ex token action =
     seqp (need ''DeleteRemote missing state'' (sa_state action)) (\<lambda>state.
     seqp (need ''DeleteRemote missing drive_file_id'' (fs_drive_file_id state)) (\<lambda>file_id.
     seqp (on_env (files_delete E (se_drive_client ex) token file_id)) (\<lambda>_.
     on_db (fs_delete (fs_id state)))))"

definition exec_delete_local ::
    "'d local_fs \<Rightarrow> path \<Rightarrow> sync_action \<Rightarrow> (('w, 'd) world, sync_error, unit) proc" where
  "exec_delete_local FS sync_root action =
     seqp (need ''DeleteLocal missing state'' (sa_state action)) (\<lambda>state.
     seqp (on_disk (lf_remove_file FS sync_root (sa_relative_path action))) (\<lambda>_.
     on_db (fs_delete (fs_id state))))"

definition somep :: "('s, 'e, 'a) proc \<Rightarrow> ('s, 'e, 'a option) proc" where
  "somep m = seqp m (\<lambda>x. retp (Some x))"

definition execute_one ::
    "'w env \<Rightarrow> 'd local_fs \<Rightarrow> libs \<Rightarrow> codecs \<Rightarrow> sync_executor \<Rightarrow> path \<Rightarrow> sync_folder \<Rightarrow> sync_action \<Rightarrow>
     (('w, 'd) world, sync_error, unit option) proc" where
  "execute_one E FS L K ex sync_root folder action =
     seqp (get_valid_access_token E L (se_account_key ex)) (\<lambda>token.
     case sa_kind action of
       NewUpload \<Rightarrow> somep (exec_new_upload E FS L K ex sync_root folder token action)
     | UpdateUpload \<Rightarrow> somep (exec_update_upload E FS L K ex sync_root folder token action)
     | NewDownload \<Rightarrow> somep (exec_download E FS L K ex sync_root folder token action)
     | UpdateDownload \<Rightarrow> somep (exec_download E FS L K ex sync_root folder token action)
     | Conflict \<Rightarrow> exec_conflict E FS L K ex sync_root folder token action
     | DeleteRemote \<Rightarrow> somep (exec_delete_remote E ex token action)
     | DeleteLocal \<Rightarrow> somep (exec_delete_local FS sync_root action))"

section \<open>The loop\<close>

text \<open>
  The queue is a \<open>&mut\<close> argument: it comes back in every case. An action is popped before the
  pause flag is read. The counter is a \<open>u32\<close>.
\<close>

function run_loop ::
    "'w env \<Rightarrow> 'd local_fs \<Rightarrow> libs \<Rightarrow> codecs \<Rightarrow> sync_executor \<Rightarrow> path \<Rightarrow> sync_folder \<Rightarrow> 32 word \<Rightarrow>
     sync_queue \<Rightarrow> ('w, 'd) world \<Rightarrow>
     (sync_error + 32 word option) \<times> sync_queue \<times> ('w, 'd) world" where
  "run_loop E FS L K ex sync_root folder executed queue s =
     (case queue_pop queue of
        None \<Rightarrow> (Inr (Some executed), queue, s)
      | Some (action, queue') \<Rightarrow>
          let (paused, w) = env_pause E (w_env s); s1 = s\<lparr>w_env := w\<rparr> in
          if paused then (Inr (Some executed), queue', s1)
          else (case execute_one E FS L K ex sync_root folder action s1 of
                  (Inl e, s2) \<Rightarrow> (Inl e, queue', s2)
                | (Inr None, s2) \<Rightarrow> (Inr None, queue', s2)
                | (Inr (Some _), s2) \<Rightarrow>
                    run_loop E FS L K ex sync_root folder (executed + 1) queue' s2))"
  by pat_completeness auto

termination
  by (relation "measure (\<lambda>(E, FS, L, K, ex, root, folder, n, q, s). queue_len q)")
    (auto simp: queue_pop_def queue_len_def split: list.splits)

declare run_loop.simps [simp del]

definition run_queue ::
    "'w env \<Rightarrow> 'd local_fs \<Rightarrow> libs \<Rightarrow> codecs \<Rightarrow> sync_executor \<Rightarrow> sync_folder \<Rightarrow> sync_queue \<Rightarrow>
     ('w, 'd) world \<Rightarrow> (sync_error + 32 word option) \<times> sync_queue \<times> ('w, 'd) world" where
  "run_queue E FS L K ex folder queue s =
     run_loop E FS L K ex (path_of (sf_local_path folder)) folder 0 queue s"

section \<open>The database side\<close>

lemma pres_need [proc_pres]: "pres I (need m x)"
  by (cases x) (auto simp: need_def intro: proc_pres)

lemma pres_somep [proc_pres]: "pres I m \<Longrightarrow> pres I (somep m)"
  unfolding somep_def by (intro proc_pres)

lemma pres_let: "(\<And>x. pres I (f x)) \<Longrightarrow> pres I (let x = e in f x)"
  by simp

lemma pres_access_token [proc_pres]: "pres (\<lambda>s. I (w_db s)) (get_valid_access_token E L key)"
  unfolding get_valid_access_token_def refresh_and_cache_def Let_def
  by (intro proc_pres pres_modp) simp_all

text \<open>What the two statements of the executor keep of the database, every action keeps.\<close>

lemma execute_one_pres:
  assumes "\<And>st. pres I (fs_upsert L st)" and "\<And>i. pres I (fs_delete i)"
  shows "pres (\<lambda>s. I (w_db s)) (execute_one E FS L K ex root folder action)"
proof -
  note db = pres_on_db [OF assms(1)] pres_on_db [OF assms(2)]
  show ?thesis
  proof (cases "sa_kind action")
    case Conflict
    show ?thesis
      unfolding execute_one_def Conflict sync_action_kind.case exec_conflict_def Let_def
      by (intro proc_pres pres_modp db) simp
  qed (simp_all add: execute_one_def,
       (intro proc_pres db | (simp only: exec_new_upload_def exec_update_upload_def exec_download_def
         exec_delete_remote_def exec_delete_local_def Let_def))+)
qed

text \<open>
  A program that touches the database only in its last fallible step: when it fails, the database
  is as before.
\<close>

definition db_last :: "(('w, 'd) world, 'e, 'a) proc \<Rightarrow> bool" where
  "db_last m \<longleftrightarrow> (\<forall>s e s'. m s = (Inl e, s') \<longrightarrow> w_db s' = w_db s)"

definition db_quiet :: "(('w, 'd) world, 'e, 'a) proc \<Rightarrow> bool" where
  "db_quiet m \<longleftrightarrow> (\<forall>s. w_db (snd (m s)) = w_db s)"

named_theorems db_rules

lemma db_last_seqp [db_rules]: "db_quiet m \<Longrightarrow> (\<And>x. db_last (f x)) \<Longrightarrow> db_last (seqp m f)"
proof -
  assume q: "db_quiet m" and l: "\<And>x. db_last (f x)"
  show "db_last (seqp m f)"
    unfolding db_last_def
  proof (intro allI impI)
    fix s e s'
    assume "seqp m f s = (Inl e, s')"
    then show "w_db s' = w_db s"
    proof (cases rule: seqp_InlE)
      case first
      with q show ?thesis by (metis db_quiet_def snd_conv)
    next
      case (second x u)
      with q l show ?thesis by (metis db_last_def db_quiet_def snd_conv)
    qed
  qed
qed

lemma db_last_then:
  "db_last m \<Longrightarrow> (\<And>x s. \<exists>y s'. f x s = (Inr y, s')) \<Longrightarrow> db_last (seqp m f)"
  unfolding db_last_def by (metis Inl_Inr_False prod.inject seqp_InlE)

lemma db_last_somep [db_rules]: "db_last m \<Longrightarrow> db_last (somep m)"
  unfolding somep_def by (rule db_last_then) (auto simp: retp_def)

lemma db_last_stmt: "(\<And>db e db'. m db = (Inl e, db') \<Longrightarrow> db' = db) \<Longrightarrow> db_last (on_db m)"
  unfolding db_last_def on_db_apply by (auto, metis isl_def map_sum.simps(2) old.sum.exhaust prod.collapse sum.disc(1) sum.disc(2))

lemma db_last_upsert [db_rules]: "db_last (on_db (fs_upsert L st))"
  by (rule db_last_stmt) (rule fs.store_fail)

lemma db_last_delete [db_rules]: "db_last (on_db (fs_delete i))"
  by (rule db_last_stmt) (auto simp: fs_delete_def stmt_def split: if_splits)

lemma db_last_retp [db_rules]: "db_last (retp x)"
  by (simp add: db_last_def retp_def)

lemma db_quiet_calls [db_rules]:
  "db_quiet (on_env m)" "db_quiet (on_disk n)" "db_quiet (getp g)" "db_quiet (need msg z)" "db_quiet (retp y)"
  by (simp_all add: db_quiet_def on_env_apply on_disk_apply getp_def need_def failp_def retp_def split: option.splits)

lemma db_quiet_token [db_rules]:
  fixes E :: "'w env"
  shows "db_quiet (get_valid_access_token E L key :: (('w, 'd) world, sync_error, string) proc)"
  unfolding db_quiet_def
proof
  fix s :: "('w, 'd) world"
  show "w_db (snd (get_valid_access_token E L key s)) = w_db s"
    using pres_access_token [of "\<lambda>db. db = w_db s" E L key] unfolding pres_def by blast
qed

lemma db_last_none_case [db_rules]:
  "db_last m \<Longrightarrow> (\<And>x. db_last (f x)) \<Longrightarrow> db_last (case z of None \<Rightarrow> m | Some x \<Rightarrow> f x)"
  by (cases z) auto

lemma db_last_actions [db_rules]:
  "db_last (exec_new_upload E FS L K ex root folder token action)"
  "db_last (exec_update_upload E FS L K ex root folder token action)"
  "db_last (exec_download E FS L K ex root folder token action)"
  "db_last (exec_delete_remote E ex token action)"
  "db_last (exec_delete_local FS root action)"
  unfolding exec_new_upload_def exec_update_upload_def exec_download_def exec_delete_remote_def
    exec_delete_local_def Let_def by (intro db_rules)+

lemma db_last_conflict [db_rules]: "db_last (exec_conflict E FS L K ex root folder token action)"
  unfolding exec_conflict_def Let_def
  by (intro db_rules db_last_then) (auto simp: modp_def retp_def seqp_def)

lemma execute_one_db_last: "db_last (execute_one E FS L K ex root folder action)"
  unfolding execute_one_def
  by (intro db_last_seqp db_quiet_token) (cases "sa_kind action"; simp; intro db_rules)

section \<open>The loop runs a prefix of the queue\<close>

text \<open>
  \<open>executes as s s'\<close>: the actions \<open>as\<close> were executed in this order, each after the pause flag was
  read as unset, and each with success.
\<close>

inductive executes ::
    "'w env \<Rightarrow> 'd local_fs \<Rightarrow> libs \<Rightarrow> codecs \<Rightarrow> sync_executor \<Rightarrow> path \<Rightarrow> sync_folder \<Rightarrow>
     sync_action list \<Rightarrow> ('w, 'd) world \<Rightarrow> ('w, 'd) world \<Rightarrow> bool"
  for E FS L K ex root folder where
  none: "executes E FS L K ex root folder [] s s"
| step: "env_pause E (w_env s) = (False, w) \<Longrightarrow>
    execute_one E FS L K ex root folder a (s\<lparr>w_env := w\<rparr>) = (Inr (Some u), t) \<Longrightarrow>
    executes E FS L K ex root folder as t s' \<Longrightarrow>
    executes E FS L K ex root folder (a # as) s s'"

inductive_cases executes_Cons: "executes E FS L K ex root folder (a # as) s s'"

text \<open>How a run ends, in the world \<open>t\<close> with the queue \<open>q\<close>.\<close>

definition run_end ::
    "'w env \<Rightarrow> 'd local_fs \<Rightarrow> libs \<Rightarrow> codecs \<Rightarrow> sync_executor \<Rightarrow> path \<Rightarrow> sync_folder \<Rightarrow> 32 word \<Rightarrow>
     sync_action list \<Rightarrow> ('w, 'd) world \<Rightarrow>
     (sync_error + 32 word option) \<Rightarrow> sync_action list \<Rightarrow> ('w, 'd) world \<Rightarrow> bool" where
  "run_end E FS L K ex root folder n rest t r q s' \<longleftrightarrow>
     (rest = [] \<and> r = Inr (Some n) \<and> q = [] \<and> s' = t) \<or>
     (\<exists>a w. rest = a # q \<and> env_pause E (w_env t) = (True, w) \<and> r = Inr (Some n) \<and> s' = t\<lparr>w_env := w\<rparr>) \<or>
     (\<exists>a w e. rest = a # q \<and> env_pause E (w_env t) = (False, w) \<and> r = Inl e \<and>
        execute_one E FS L K ex root folder a (t\<lparr>w_env := w\<rparr>) = (Inl e, s')) \<or>
     (\<exists>a w. rest = a # q \<and> env_pause E (w_env t) = (False, w) \<and> r = Inr None \<and>
        execute_one E FS L K ex root folder a (t\<lparr>w_env := w\<rparr>) = (Inr None, s'))"

lemma run_loop_prefix:
  assumes "run_loop E FS L K ex root folder n q s = (r, q', s')"
  shows "\<exists>as rest t. sq_inner q = as @ rest \<and> executes E FS L K ex root folder as s t \<and>
    run_end E FS L K ex root folder (n + of_nat (length as)) rest t r (sq_inner q') s'"
  using assms
proof (induction "sq_inner q" arbitrary: q s n)
  case Nil
  then have "run_loop E FS L K ex root folder n q s = (Inr (Some n), q, s)"
    by (subst run_loop.simps) (simp add: queue_pop_def)
  with Nil show ?case
    by (intro exI [of _ "[]"] exI [of _ s]) (auto simp: run_end_def intro: executes.none)
next
  case (Cons a as)
  let ?q = "q\<lparr>sq_inner := as\<rparr>"
  have pop: "queue_pop q = Some (a, ?q)" using Cons.hyps(2) [symmetric] by (simp add: queue_pop_def)
  obtain b w where p: "env_pause E (w_env s) = (b, w)" by (cases "env_pause E (w_env s)")
  obtain x t where x: "execute_one E FS L K ex root folder a (s\<lparr>w_env := w\<rparr>) = (x, t)"
    by (cases "execute_one E FS L K ex root folder a (s\<lparr>w_env := w\<rparr>)")
  have run: "run_loop E FS L K ex root folder n q s =
      (if b then (Inr (Some n), ?q, s\<lparr>w_env := w\<rparr>)
       else case x of Inl e \<Rightarrow> (Inl e, ?q, t) | Inr None \<Rightarrow> (Inr None, ?q, t)
         | Inr (Some _) \<Rightarrow> run_loop E FS L K ex root folder (n + 1) ?q t)"
    by (subst run_loop.simps) (simp add: pop p x)
  show ?case
  proof (cases "\<not> b \<and> x = Inr (Some ())")
    case True
    with run Cons.prems have "run_loop E FS L K ex root folder (n + 1) ?q t = (r, q', s')" by simp
    from Cons.hyps(1) [OF _ this] obtain as' rest t' where h: "as = as' @ rest"
      "executes E FS L K ex root folder as' t t'"
      "run_end E FS L K ex root folder (n + 1 + of_nat (length as')) rest t' r (sq_inner q') s'" by auto
    have "executes E FS L K ex root folder (a # as') s t'"
      using p x True h(2) by (auto intro: executes.step)
    with h Cons.hyps(2) show ?thesis
      by (intro exI [of _ "a # as'"] exI [of _ rest] exI [of _ t']) (simp add: add.assoc)
  next
    case False
    then have "run_end E FS L K ex root folder n (a # as) s r (sq_inner q') s'"
      using run Cons.prems p x by (auto simp: run_end_def split: sum.splits option.splits if_splits)
    then show ?thesis
      using Cons.hyps(2) by (intro exI [of _ "[]"] exI [of _ "a # as"] exI [of _ s]) (auto intro: executes.none)
  qed
qed

lemma executes_pres:
  assumes "\<And>a. pres (\<lambda>s. I (w_db s)) (execute_one E FS L K ex root folder a)"
    and "executes E FS L K ex root folder as s t" and "I (w_db s)"
  shows "I (w_db t)"
  using assms(2,3)
proof (induction rule: executes.induct)
  case (step s w a u t as s')
  have "I (w_db t)" using presD [OF assms(1) _ step.hyps(2)] step.prems by simp
  then show ?case by (rule step.IH)
qed

lemma run_loop_pres:
  assumes "\<And>st. pres I (fs_upsert L st)" and "\<And>i. pres I (fs_delete i)"
    and "I (w_db s)" and "run_loop E FS L K ex root folder n q s = (r, q', s')"
  shows "I (w_db s')"
proof -
  note one = execute_one_pres [where I = I, OF assms(1,2)]
  obtain as rest t where h: "executes E FS L K ex root folder as s t"
    "run_end E FS L K ex root folder (n + of_nat (length as)) rest t r (sq_inner q') s'"
    using run_loop_prefix [OF assms(4)] by blast
  have t: "I (w_db t)" using executes_pres [OF one h(1) assms(3)] .
  then have "I (w_db (t\<lparr>w_env := w\<rparr>))" for w by simp
  note step = presD [OF one this]
  from h(2) show ?thesis unfolding run_end_def using t step by auto
qed

section \<open>Properties\<close>

text \<open>
  Executing an action keeps the keys and foreign keys of the database, and so does running a
  whole queue, however it ends.
\<close>

theorem run_keeps_schema:
  assumes "db_wf (w_db s)" and "run_queue E FS L K ex folder q s = (r, q', s')"
  shows "db_wf (w_db s')"
  using run_loop_pres [OF pres_fs_upsert pres_fs_delete, where q = q] assms
  unfolding run_queue_def by blast

text \<open>
  C15: an action that fails, at whatever step, leaves the database as it was: a row is written or
  removed only after everything else succeeded.
\<close>

theorem failed_action_keeps_database:
  assumes "execute_one E FS L K ex root folder action s = (Inl e, s')"
  shows "w_db s' = w_db s"
  using execute_one_db_last assms unfolding db_last_def by blast

text \<open>
  C7: running a queue executes a prefix of it in queue order, each action once and with success,
  and the result counts them. It ends because the queue is empty; or because the pause flag was
  set, and then the action after the prefix has been taken off the queue without being executed;
  or with the error of the action after the prefix, which is off the queue as well.
\<close>

theorem run_executes_prefix:
  assumes "run_queue E FS L K ex folder q s = (r, q', s')"
  defines "root \<equiv> path_of (sf_local_path folder)"
  shows "\<exists>as rest t. sq_inner q = as @ rest \<and> executes E FS L K ex root folder as s t \<and>
    run_end E FS L K ex root folder (of_nat (length as)) rest t r (sq_inner q') s'"
  using run_loop_prefix [OF assms(1) [unfolded run_queue_def]] by (simp add: root_def)

text \<open>
  A run that starts while the pause flag is set executes nothing, returns 0 and changes nothing
  but the environment, and still the first action is gone from the queue.
\<close>

theorem paused_run_drops_action:
  assumes "env_pause E (w_env s) = (True, w)" and "sq_inner q = a # as"
  shows "run_queue E FS L K ex folder q s = (Inr (Some 0), q\<lparr>sq_inner := as\<rparr>, s\<lparr>w_env := w\<rparr>)"
  using assms by (simp add: run_queue_def run_loop.simps [where queue = q] queue_pop_def)

definition demo_executor :: sync_executor where
  "demo_executor = executor_new demo_client ''acc'' config_default"

definition paused_env :: "token_map env" where
  "paused_env = token_env\<lparr>env_pause := (\<lambda>w. (True, w))\<rparr>"

definition demo_queue :: sync_queue where
  "demo_queue = \<lparr>sq_inner = [delete_local ''a.txt'' demo_known, delete_local ''b.txt'' demo_known]\<rparr>"

definition demo_world :: "(token_map, disk) world" where
  "demo_world = \<lparr>w_env = [(''acc'', ''rt'')], w_disk = demo_plain_disk, w_db = demo_db,
     w_cache = [(''acc'', (''at'', 10000000000))], w_notices = []\<rparr>"

lemma demo_paused_run:
  "run_queue paused_env (tokio_local_fs demo_libs) demo_libs demo_codecs demo_executor demo_folder
     demo_queue demo_world =
   (Inr (Some 0), demo_queue\<lparr>sq_inner := [delete_local ''b.txt'' demo_known]\<rparr>, demo_world)"
  by (simp add: run_queue_def run_loop.simps queue_pop_def demo_queue_def paused_env_def demo_world_def)

lemma run_keeps_schema_witness:
  "db_wf (w_db (snd (snd (run_queue paused_env (tokio_local_fs demo_libs) demo_libs demo_codecs
     demo_executor demo_folder demo_queue demo_world))))"
proof -
  have "db_wf (w_db demo_world)" by (simp add: demo_world_def demo_db_wf)
  from run_keeps_schema [OF this demo_paused_run] show ?thesis by (simp add: demo_paused_run)
qed

lemma run_executes_prefix_witness:
  "\<exists>as rest t. sq_inner demo_queue = as @ rest \<and>
     executes paused_env (tokio_local_fs demo_libs) demo_libs demo_codecs demo_executor
       (path_of (sf_local_path demo_folder)) demo_folder as demo_world t"
  using run_executes_prefix [OF demo_paused_run] by blast

lemma paused_run_drops_action_witness:
  "fst (snd (run_queue paused_env (tokio_local_fs demo_libs) demo_libs demo_codecs demo_executor
     demo_folder demo_queue demo_world)) = demo_queue\<lparr>sq_inner := [delete_local ''b.txt'' demo_known]\<rparr>"
proof -
  have p: "env_pause paused_env (w_env demo_world) = (True, w_env demo_world)"
    by (simp add: paused_env_def)
  show ?thesis
    using paused_run_drops_action [OF p, of demo_queue "delete_local ''a.txt'' demo_known"
        "[delete_local ''b.txt'' demo_known]"]
    by (simp add: demo_queue_def)
qed

lemma demo_token: "get_valid_access_token token_env demo_libs ''acc'' demo_world = (Inr ''at'', demo_world)"
  by (simp add: get_valid_access_token_def seqp_def on_env_def okp_def token_env_def demo_world_def
      demo_libs_def getp_def retp_def REFRESH_BUFFER_SECS_def Let_def)

lemma failed_action_keeps_database_witness:
  "w_db (snd (execute_one token_env (tokio_local_fs demo_libs) demo_libs demo_codecs demo_executor
     demo_root demo_folder (delete_local ''b.txt'' demo_known) demo_world)) = demo_db"
proof -
  have "fst (tokio_remove_file demo_root ''b.txt'' demo_plain_disk) = Inl (IoError ''/r/b.txt'' enoent)"
    by code_simp
  then obtain d where d: "tokio_remove_file demo_root ''b.txt'' demo_plain_disk = (Inl (IoError ''/r/b.txt'' enoent), d)"
    by (metis prod.collapse)
  have w: "w_disk demo_world = demo_plain_disk" "w_db demo_world = demo_db" by (simp_all add: demo_world_def)
  have "execute_one token_env (tokio_local_fs demo_libs) demo_libs demo_codecs demo_executor
     demo_root demo_folder (delete_local ''b.txt'' demo_known) demo_world =
     (Inl (IoError ''/r/b.txt'' enoent), demo_world\<lparr>w_disk := d\<rparr>)"
    by (simp add: execute_one_def demo_executor_def executor_new_def seqp_def demo_token somep_def
        exec_delete_local_def need_def delete_local_def retp_def on_disk_def tokio_local_fs_def d w)
  from failed_action_keeps_database [OF this] show ?thesis
    by (simp add: w \<open>execute_one _ _ _ _ _ _ _ _ _ = _\<close>)
qed

end
