(* ===== verification/Gds_Transfer.thy ===== *)
theory Gds_Transfer
  imports Gds_Executor
begin

text \<open>
  What the executor's transfers do on \<open>TokioLocalFs\<close> and a disk without symbolic links: the file
  that a download writes and the row it leaves, the row after an upload, and the safety of the
  local content in a conflict.
\<close>

section \<open>Reading off a successful run\<close>

lemma needD: "need m x s = (Inr y, s') \<Longrightarrow> x = Some y \<and> s' = s"
  by (auto simp: need_def failp_def retp_def split: option.splits)

lemma on_envD: "on_env m s = (Inr x, s') \<Longrightarrow> m (w_env s) = (Inr x, w_env s') \<and>
  w_disk s' = w_disk s \<and> w_db s' = w_db s \<and> w_cache s' = w_cache s \<and> w_notices s' = w_notices s"
  by (auto simp: on_env_def split: prod.splits)

lemma on_diskD: "on_disk m s = (Inr x, s') \<Longrightarrow> m (w_disk s) = (Inr x, w_disk s') \<and>
  w_env s' = w_env s \<and> w_db s' = w_db s \<and> w_notices s' = w_notices s"
  by (auto simp: on_disk_def split: prod.splits)

lemma on_dbD: "on_db m s = (Inr x, s') \<Longrightarrow> m (w_db s) = (Inr x, w_db s') \<and>
  w_env s' = w_env s \<and> w_disk s' = w_disk s \<and> w_notices s' = w_notices s"
  by (auto simp: on_db_def split: prod.splits sum.splits)

lemma okpD: "okp f w = (Inr x, w') \<Longrightarrow> f w = (x, w')"
  by (auto simp: okp_def split: prod.splits)

lemma somepD: "somep m s = (Inr x, s') \<Longrightarrow> \<exists>y. x = Some y \<and> m s = (Inr y, s')"
  unfolding somep_def by (auto simp: retp_def elim!: seqp_InrE)

lemma token_quiet:
  "get_valid_access_token E L key s = (r, s') \<Longrightarrow>
   w_disk s' = w_disk s \<and> w_db s' = w_db s \<and> w_notices s' = w_notices s"
  by (auto simp: get_valid_access_token_def refresh_and_cache_def proc_simps Let_def
      split: option.splits sum.splits prod.splits if_splits)

lemma tokio_ops [simp]:
  "lf_read_file (tokio_local_fs L) = tokio_read_file"
  "lf_write_atomic (tokio_local_fs L) = tokio_write_atomic"
  "lf_remove_file (tokio_local_fs L) = tokio_remove_file"
  "lf_std_exists (tokio_local_fs L) = std_exists"
  by (simp_all add: tokio_local_fs_def)

text \<open>The row of a folder's path.\<close>

definition row_at :: "db \<Rightarrow> string \<Rightarrow> string \<Rightarrow> file_state_row option" where
  "row_at db f p = find (\<lambda>r. fs_key r = (f, p)) (db_file_states db)"

lemma row_at_upsert:
  assumes "fs_upsert L st db = (Inr (), db')"
  shows "row_at db' (fs_sync_folder_id st) (fs_relative_path st) = Some (row_of_file_state L st)"
    and "(f, p) \<noteq> fs_path_key st \<Longrightarrow> row_at db' f p = row_at db f p"
  using upsert_row_find [OF assms [unfolded fs_upsert_def]]
  by (simp_all add: row_at_def fs_path_key_def)

lemma after_download_fields:
  assumes "file_state_after_download E L fid p f old w = (st, w')"
  shows "fs_sync_folder_id st = fid" "fs_relative_path st = p" "fs_drive_file_id st = Some (df_id f)"
    "fs_drive_md5 st = df_md5_checksum f" "fs_local_md5 st = df_md5_checksum f"
    "fs_drive_modified st = parse_drive_modified L (df_modified_time f)"
    "fs_local_modified st = parse_drive_modified L (df_modified_time f)"
    "fs_sync_state st = ss_synced"
  using assms by (auto simp: file_state_after_download_def Let_def split: prod.splits option.splits)

lemma after_upload_fields:
  assumes "file_state_after_upload E L fid p f md5 t w = (st, w')"
  shows "fs_sync_folder_id st = fid" "fs_relative_path st = p" "fs_drive_file_id st = Some (df_id f)"
    "fs_drive_md5 st = df_md5_checksum f" "fs_local_md5 st = md5" "fs_local_modified st = t"
    "fs_drive_modified st = parse_drive_modified L (df_modified_time f)"
    "fs_sync_state st = ss_synced"
  using assms by (auto simp: file_state_after_upload_def Let_def split: prod.splits)

section \<open>Downloads\<close>

lemma download_run:
  fixes s :: "('w, disk) world"
  assumes "sa_kind a \<in> {NewDownload, UpdateDownload}"
    and "execute_one E (tokio_local_fs L) L K ex root folder a s = (Inr r, s')"
  obtains token f content w w' d u u' st db where "r = Some ()" and "sa_drive_file a = Some f"
    and "remote_content E K ex token f w = (Inr content, w')"
    and "tokio_write_atomic root (sa_relative_path a) content (w_disk s) = (Inr (), d)"
    and "file_state_after_download E L (sf_id folder) (sa_relative_path a) f (sa_state a) u = (st, u')"
    and "fs_upsert L st (w_db s) = (Inr (), db)"
    and "w_disk s' = d" and "w_db s' = db" and "w_notices s' = w_notices s"
proof -
  obtain token t where t: "get_valid_access_token E L (se_account_key ex) s = (Inr token, t)"
    "somep (exec_download E (tokio_local_fs L) L K ex root folder token a) t = (Inr r, s')"
    using assms by (auto simp: execute_one_def elim!: seqp_InrE)
  note q = token_quiet [OF t(1)]
  from somepD [OF t(2)] have r: "r = Some ()"
    and d: "exec_download E (tokio_local_fs L) L K ex root folder token a t = (Inr (), s')" by auto
  obtain f content t1 u0 t2 st t3 where f: "sa_drive_file a = Some f"
    and c: "on_env (remote_content E K ex token f) t = (Inr content, t1)"
    and w: "on_disk (tokio_write_atomic root (sa_relative_path a) content) t1 = (Inr u0, t2)"
    and st: "on_env (okp (file_state_after_download E L (sf_id folder) (sa_relative_path a) f (sa_state a))) t2 = (Inr st :: sync_error + _, t3)"
    and u: "on_db (fs_upsert L st) t3 = (Inr (), s')"
  proof -
    from d show thesis
      unfolding exec_download_def tokio_ops by (elim seqp_InrE, drule_tac needD, clarify) (rule that)
  qed
  note steps = on_envD [OF c] on_diskD [OF w] on_envD [OF st] on_dbD [OF u]
  show thesis
    by (rule that [OF r f]) (use steps okpD [OF conjunct1 [OF on_envD [OF st]]] q in auto)
qed

text \<open>
  C8: a download that succeeded has put the remote content (the stub, for a Google document) in
  the file, changed no other file except the temporary one, and recorded for the path the Drive
  id, digest and modification time, as the local digest and time as well.
\<close>

theorem download_writes_file_and_row:
  fixes s :: "('w, disk) world"
  assumes "root_ok root" and "plain (w_disk s)" and "rel_ok (sa_relative_path a)"
    and "sa_kind a \<in> {NewDownload, UpdateDownload}"
    and "execute_one E (tokio_local_fs L) L K ex root folder a s = (Inr r, s')"
  defines "k \<equiv> file_key root (sa_relative_path a)"
  shows "\<exists>f token content w w' st. r = Some () \<and> sa_drive_file a = Some f \<and>
    remote_content E K ex token f w = (Inr content, w') \<and>
    contents (w_disk s') = (contents (w_disk s))(tmp_key k := None, k := Some content) \<and>
    row_at (w_db s') (sf_id folder) (sa_relative_path a) = Some (row_of_file_state L st) \<and>
    fs_drive_file_id st = Some (df_id f) \<and> fs_drive_md5 st = df_md5_checksum f \<and>
    fs_local_md5 st = df_md5_checksum f \<and>
    fs_local_modified st = parse_drive_modified L (df_modified_time f) \<and>
    fs_sync_state st = ss_synced"
proof -
  obtain token f content w w' d u u' st db where r: "r = Some ()" and f: "sa_drive_file a = Some f"
    and c: "remote_content E K ex token f w = (Inr content, w')"
    and d: "tokio_write_atomic root (sa_relative_path a) content (w_disk s) = (Inr (), d)" "w_disk s' = d"
    and st: "file_state_after_download E L (sf_id folder) (sa_relative_path a) f (sa_state a) u = (st, u')"
    and db: "fs_upsert L st (w_db s) = (Inr (), db)" "w_db s' = db"
    using assms(4,5) by (rule download_run)
  have "root_ok root \<and> plain (w_disk s)" using assms(1,2) by simp
  from tokio.write_view [OF this assms(3) d(1)]
  have disk: "contents (w_disk s') = (contents (w_disk s))(tmp_key k := None, k := Some content)"
    by (simp add: d(2) k_def)
  note fields = after_download_fields [OF st]
  have row: "row_at (w_db s') (sf_id folder) (sa_relative_path a) = Some (row_of_file_state L st)"
    using row_at_upsert(1) [OF db(1)] fields db(2) by simp
  show ?thesis using r f c disk row fields by blast
qed

section \<open>Uploads\<close>

text \<open>The Drive call of an upload, by size and kind.\<close>

definition upload_call ::
    "'w env \<Rightarrow> libs \<Rightarrow> codecs \<Rightarrow> sync_executor \<Rightarrow> sync_folder \<Rightarrow> string \<Rightarrow> sync_action \<Rightarrow> string \<Rightarrow>
     ('w, sync_error, drive_file) proc" where
  "upload_call E L K ex folder token a content =
     (let mime = lib_mime_guess L (sa_relative_path a); c = se_drive_client ex in
      if sa_kind a = NewUpload then
        let meta = \<lparr>cm_name = Some (sa_relative_path a), cm_mime_type = Some mime,
                    cm_parents = Some [sf_drive_folder_id folder]\<rparr> in
        (if length content \<le> SIMPLE_UPLOAD_MAX_BYTES
         then files_create_simple E K c token meta content mime
         else files_create_resumable E K c token meta (length content) mime content)
      else
        let i = the (fs_drive_file_id (the (sa_state a))) in
        (if length content \<le> SIMPLE_UPLOAD_MAX_BYTES
         then files_update_content_simple E K c token i content mime
         else files_update_content_resumable E K c token i (length content) mime 0 content))"

text \<open>The four calls that both kinds of upload make.\<close>

lemma upload_steps:
  assumes "(if sa_kind a = NewUpload then exec_new_upload E (tokio_local_fs L) L K ex root folder
      else exec_update_upload E (tokio_local_fs L) L K ex root folder) token a t = (Inr (), s')"
    and "sa_kind a \<in> {NewUpload, UpdateUpload}"
  obtains content t1 f t2 st t3 where
    "on_disk (tokio_read_file root (sa_relative_path a)) t = (Inr content, t1)"
    and "on_env (upload_call E L K ex folder token a content) t1 = (Inr f, t2)"
    and "on_env (okp (file_state_after_upload E L (sf_id folder) (sa_relative_path a) f
        (sa_local_md5 a) (sa_local_modified a))) t2 = (Inr st :: sync_error + _, t3)"
    and "on_db (fs_upsert L st) t3 = (Inr (), s')"
proof (cases "sa_kind a = NewUpload")
  case True
  with assms(1) have "exec_new_upload E (tokio_local_fs L) L K ex root folder token a t = (Inr (), s')" by simp
  then show thesis
    unfolding exec_new_upload_def tokio_ops Let_def
    by (elim seqp_InrE) (rule that, assumption, simp only: upload_call_def Let_def True simp_thms if_True)
next
  case False
  obtain state fid content t1 t2 f t3 st where
    "sa_state a = Some state" "fs_drive_file_id state = Some fid"
    "on_disk (tokio_read_file root (sa_relative_path a)) t = (Inr content, t1)"
    "on_env (if length content \<le> SIMPLE_UPLOAD_MAX_BYTES
       then files_update_content_simple E K (se_drive_client ex) token fid content
         (lib_mime_guess L (sa_relative_path a))
       else files_update_content_resumable E K (se_drive_client ex) token fid (length content)
         (lib_mime_guess L (sa_relative_path a)) 0 content) t1 = (Inr f, t2)"
    "on_env (okp (file_state_after_upload E L (sf_id folder) (sa_relative_path a) f
      (sa_local_md5 a) (sa_local_modified a))) t2 = (Inr st :: sync_error + _, t3)"
    "on_db (fs_upsert L st) t3 = (Inr (), s')"
  proof -
    from False assms(1) have "exec_update_upload E (tokio_local_fs L) L K ex root folder token a t = (Inr (), s')" by simp
    then show thesis
      unfolding exec_update_upload_def tokio_ops Let_def
      by (elim seqp_InrE, drule_tac needD, drule_tac needD, clarify) (rule that)
  qed
  with False show thesis by (intro that) (auto simp: upload_call_def Let_def)
qed

lemma upload_run:
  fixes s :: "('w, disk) world"
  assumes "root_ok root" and "plain (w_disk s)" and "rel_ok (sa_relative_path a)"
    and "sa_kind a \<in> {NewUpload, UpdateUpload}"
    and "execute_one E (tokio_local_fs L) L K ex root folder a s = (Inr r, s')"
  obtains content token f w w' u u' st where "r = Some ()"
    and "contents (w_disk s) (file_key root (sa_relative_path a)) = Some content"
    and "upload_call E L K ex folder token a content w = (Inr f, w')"
    and "file_state_after_upload E L (sf_id folder) (sa_relative_path a) f (sa_local_md5 a)
        (sa_local_modified a) u = (st, u')"
    and "fs_upsert L st (w_db s) = (Inr (), w_db s')"
    and "w_disk s' = w_disk s" and "w_notices s' = w_notices s"
proof -
  let ?up = "if sa_kind a = NewUpload then exec_new_upload E (tokio_local_fs L) L K ex root folder
    else exec_update_upload E (tokio_local_fs L) L K ex root folder"
  obtain token t where t: "get_valid_access_token E L (se_account_key ex) s = (Inr token, t)"
    "somep (?up token a) t = (Inr r, s')"
    using assms(4,5) by (auto simp: execute_one_def elim!: seqp_InrE)
  note q = token_quiet [OF t(1)]
  from somepD [OF t(2)] have r: "r = Some ()" and d: "?up token a t = (Inr (), s')" by auto
  obtain content t1 f t2 st t3 where
    c: "on_disk (tokio_read_file root (sa_relative_path a)) t = (Inr content, t1)"
    and up: "on_env (upload_call E L K ex folder token a content) t1 = (Inr f, t2)"
    and st: "on_env (okp (file_state_after_upload E L (sf_id folder) (sa_relative_path a) f
        (sa_local_md5 a) (sa_local_modified a))) t2 = (Inr st :: sync_error + _, t3)"
    and u: "on_db (fs_upsert L st) t3 = (Inr (), s')"
    by (rule upload_steps [OF d assms(4)])
  have "root_ok root \<and> plain (w_disk t)" using assms(1,2) q by simp
  from tokio.read_view' [OF this assms(3) conjunct1 [OF on_diskD [OF c]]]
  have content: "contents (w_disk s) (file_key root (sa_relative_path a)) = Some content"
    "w_disk t1 = w_disk s" using q by auto
  note steps = on_diskD [OF c] on_envD [OF up] on_envD [OF st] on_dbD [OF u]
  show thesis
    by (rule that [OF r content(1) conjunct1 [OF on_envD [OF up]] okpD [OF conjunct1 [OF on_envD [OF st]]]])
      (use steps content q in auto)
qed

text \<open>
  C9: an upload that succeeded has sent the content the file had, left the disk alone, and
  recorded for the path what Drive answered together with the digest and time the scan had seen.
  A new file is created in the sync folder's own Drive folder under its whole relative path as
  name, also when it lies in a subdirectory.
\<close>

theorem upload_sends_file_and_records_answer:
  fixes s :: "('w, disk) world"
  assumes "root_ok root" and "plain (w_disk s)" and "rel_ok (sa_relative_path a)"
    and "sa_kind a \<in> {NewUpload, UpdateUpload}"
    and "execute_one E (tokio_local_fs L) L K ex root folder a s = (Inr r, s')"
  shows "\<exists>content token f w w' st. r = Some () \<and>
    contents (w_disk s) (file_key root (sa_relative_path a)) = Some content \<and>
    upload_call E L K ex folder token a content w = (Inr f, w') \<and> w_disk s' = w_disk s \<and>
    row_at (w_db s') (sf_id folder) (sa_relative_path a) = Some (row_of_file_state L st) \<and>
    fs_drive_file_id st = Some (df_id f) \<and> fs_drive_md5 st = df_md5_checksum f \<and>
    fs_local_md5 st = sa_local_md5 a \<and> fs_local_modified st = sa_local_modified a \<and>
    fs_sync_state st = ss_synced"
proof -
  obtain content token f w w' u u' st where r: "r = Some ()"
    and content: "contents (w_disk s) (file_key root (sa_relative_path a)) = Some content"
    and call: "upload_call E L K ex folder token a content w = (Inr f, w')"
    and st: "file_state_after_upload E L (sf_id folder) (sa_relative_path a) f (sa_local_md5 a)
        (sa_local_modified a) u = (st, u')"
    and db: "fs_upsert L st (w_db s) = (Inr (), w_db s')" and disk: "w_disk s' = w_disk s"
    using assms by (rule upload_run)
  note fields = after_upload_fields [OF st]
  have row: "row_at (w_db s') (sf_id folder) (sa_relative_path a) = Some (row_of_file_state L st)"
    using row_at_upsert(1) [OF db] fields by simp
  show ?thesis using r disk content row fields call by blast
qed

section \<open>The name of a conflict copy\<close>

lemma resolve_without_dots:
  assumes "plain d" and "\<forall>c \<in> set cs. c \<noteq> ''.'' \<and> c \<noteq> ''..''" and "resolve fuel d follow at cs = Inr k"
  shows "k = at @ cs"
  using assms(2,3)
proof (induction cs arbitrary: at)
  case Nil
  then show ?case by simp
next
  case (Cons c cs)
  show ?case
  proof (cases "lookup_node d (at @ [c])")
    case None
    with Cons.prems show ?thesis by (auto split: if_splits)
  next
    case (Some n)
    show ?thesis
    proof (cases n)
      case (File x t)
      with Some Cons.prems show ?thesis by (auto split: if_splits)
    next
      case (Dir t)
      with Some Cons.prems Cons.IH [of "at @ [c]"] show ?thesis by simp
    next
      case (Link u t)
      with Some plainD(2) [OF assms(1)] show ?thesis by fastforce
    qed
  qed
qed

lemma exists_plain:
  assumes "plain d" and "\<forall>c \<in> set k. c \<noteq> ''.'' \<and> c \<noteq> ''..''"
    and "std_exists d \<lparr>p_abs = True, p_segs = k\<rparr>"
  shows "lookup_node d k \<noteq> None"
proof -
  obtain j n where f: "find_node d True \<lparr>p_abs = True, p_segs = k\<rparr> = Inr (j, n)"
    using assms(3) by (auto simp: std_exists_def split: sum.splits)
  then have "resolve 40 d True [] k = Inr j" and n: "lookup_node d j = Some n"
    by (auto simp: find_node_def locate_def split: sum.splits option.splits if_splits)
  then have "j = k" using resolve_without_dots [OF assms(1,2)] by fastforce
  with n show ?thesis by simp
qed

lemma missing_plain:
  assumes "plain d" and "clean k" and "\<not> std_exists d \<lparr>p_abs = True, p_segs = k\<rparr>"
  shows "lookup_node d k = None"
proof (rule ccontr)
  assume "lookup_node d k \<noteq> None"
  then obtain n where "lookup_node d k = Some n" by blast
  from find_node_exists [OF assms(1) this, of True True] assms(3) show False
    by (simp add: std_exists_def)
qed

lemma names_in_plain:
  assumes "plain d" and "clean k"
  shows "finite (names_in (std_exists d) \<lparr>p_abs = True, p_segs = k\<rparr>) \<and>
    card (names_in (std_exists d) \<lparr>p_abs = True, p_segs = k\<rparr>) \<le> length (d_nodes d) + 2"
proof -
  let ?N = "names_in (std_exists d) \<lparr>p_abs = True, p_segs = k\<rparr>"
  let ?M = "set (map (last \<circ> fst) (d_nodes d)) \<union> {''.'', ''..''}"
  have sub: "?N \<subseteq> ?M"
  proof
    fix w
    assume "w \<in> ?N"
    then have e: "std_exists d \<lparr>p_abs = True, p_segs = k @ [w]\<rparr>" by (simp add: names_in_def)
    show "w \<in> ?M"
    proof (cases "w = ''.'' \<or> w = ''..''")
      case False
      then have "lookup_node d (k @ [w]) \<noteq> None"
        using exists_plain [OF assms(1) _ e] assms(2) by (auto simp: clean_def seg_ok_def)
      then obtain n where "map_of (d_nodes d) (k @ [w]) = Some n" by (auto simp: lookup_node_def)
      then have "(k @ [w], n) \<in> set (d_nodes d)" by (rule map_of_SomeD)
      then have "(last \<circ> fst) (k @ [w], n) \<in> set (map (last \<circ> fst) (d_nodes d))"
        unfolding set_map by (rule imageI)
      then show ?thesis by simp
    qed auto
  qed
  have "card ?N \<le> card ?M" by (rule card_mono [OF _ sub]) simp
  also have "\<dots> \<le> card (set (map (last \<circ> fst) (d_nodes d))) + card {''.'', ''..''}" by (rule card_Un_le)
  also have "\<dots> \<le> length (d_nodes d) + 2"
    using card_length [of "map (last \<circ> fst) (d_nodes d)"] by simp
  finally show ?thesis using finite_subset [OF sub] by simp
qed

text \<open>A name with a long text after it is none of the names that play a role for the file itself.\<close>

lemma stem_ext: "\<exists>x. n = name_stem n @ x \<and> (name_extension n = None \<longrightarrow> x = [])"
  using name_stem_extension [of n] by (cases "name_extension n") auto

lemma conflict_name_not_tmp: "n @ ''.conflict-'' @ s \<noteq> name_stem n @ ''.gds_tmp''"
proof
  assume eq: "n @ ''.conflict-'' @ s = name_stem n @ ''.gds_tmp''"
  obtain x where "n = name_stem n @ x" using stem_ext by blast
  then have "length n = length (name_stem n) + length x" by (metis length_append)
  with arg_cong [OF eq, of length] show False by simp
qed

lemma rel_of_segs:
  assumes "root_ok root" and "clean ks" and "ks \<noteq> []"
  defines "p \<equiv> \<lparr>p_abs = True, p_segs = p_segs root @ ks\<rparr>"
  shows "rel_ok (conflict_rel root p) \<and> file_key root (conflict_rel root p) = p_segs root @ ks \<and>
    conflict_rel root p = join_with ''/'' ks"
proof -
  have rel: "conflict_rel root p = join_with ''/'' ks"
    using assms(1,3) by (simp add: conflict_rel_def strip_prefix_def p_def path_starts_with_def root_ok_def path_show_def)
  have "\<forall>w \<in> set ks. seg_ok w" using assms(2) by (simp add: clean_def)
  then have segs: "path_segs_of (join_with ''/'' ks) = ks" by (rule path_segs_of_join)
  moreover have "join_with ''/'' ks \<noteq> []"
  proof
    assume "join_with ''/'' ks = []"
    with segs have "ks = []" by (simp add: path_segs_of_def)
    with assms(3) show False by simp
  qed
  moreover have "\<not> starts_with (join_with ''/'' ks) ''/''"
  proof -
    obtain w ws where w: "ks = w # ws" using assms(3) by (cases ks) auto
    then have "seg_ok w" using assms(2) by (simp add: clean_def)
    then obtain c cs where "w = c # cs" "c \<noteq> CHR ''/''" by (cases w) (auto simp: seg_ok_def)
    then show ?thesis using w by (cases ws) (auto simp: starts_with_single)
  qed
  ultimately show ?thesis using assms(2,3) by (simp add: rel rel_ok_def file_key_def)
qed

lemma long_stem:
  assumes "n \<noteq> []"
  shows "length n \<le> length (name_stem (n @ ''.conflict-'' @ s))"
proof (cases "rsplit_once CHR ''.'' (n @ ''.conflict-'' @ s)")
  case None
  then show ?thesis by (simp add: name_stem_def)
next
  case (Some ab)
  obtain a b where ab: "ab = (a, b)" by (cases ab)
  obtain x y where xy: "split_once CHR ''.'' (rev (n @ ''.conflict-'' @ s)) = Some (x, y)" "a = rev y" "b = rev x"
    using Some ab by (auto simp: rsplit_once_def)
  have nodot: "c \<notin> set x" if "split_once c z = Some (x, y)" for c z x y
    using that by (induction z arbitrary: x) (auto split: if_splits)
  have b: "CHR ''.'' \<notin> set b" using nodot [OF xy(1)] xy(3) by simp
  have eq: "n @ ''.conflict-'' @ s = a @ CHR ''.'' # b" using rsplit_once_Some Some ab by blast
  have "length n \<le> length a"
  proof (rule ccontr)
    assume "\<not> ?thesis"
    then obtain m where m: "length n = Suc (length a) + m" by (metis less_natE not_le add_Suc)
    have "(n @ ''.conflict-'' @ s) ! length n = CHR ''.''" by (simp add: nth_append)
    then have "b ! m = CHR ''.''" unfolding eq by (simp add: nth_append m)
    moreover have "m < length b" using arg_cong [OF eq, of length] m by simp
    ultimately show False using b nth_mem by metis
  qed
  moreover from this assms have "a \<noteq> []" by auto
  ultimately show ?thesis using Some ab by (simp add: name_stem_def)
qed

text \<open>The name of a copy is a plain name.\<close>

lemma conflict_segment_ok:
  fixes t :: datetime
  assumes "stamp_ok L" and "counter_text mid" and "seg_ok n" and "CHR 0x00 \<notin> set n"
  defines "x \<equiv> (case name_extension n of Some e \<Rightarrow> ''.'' @ e | None \<Rightarrow> [])"
  defines "c \<equiv> n @ ''.conflict-'' @ lib_conflict_stamp L t @ mid @ x"
  shows "seg_ok c \<and> c \<noteq> ''..'' \<and> CHR 0x00 \<notin> set c"
proof -
  have digits: "d \<noteq> CHR 0x00 \<and> d \<noteq> CHR ''/''" if "is_digit d" for d
    using that by (auto simp: is_digit_def)
  have mid: "CHR 0x00 \<notin> set mid \<and> CHR ''/'' \<notin> set mid"
    using assms(2) digits nat_to_str_digits by (fastforce simp: counter_text_def)
  have stamp: "CHR 0x00 \<notin> set (lib_conflict_stamp L t) \<and> CHR ''/'' \<notin> set (lib_conflict_stamp L t)"
    using assms(1) digits by (fastforce simp: stamp_ok_def)
  have "set x \<subseteq> insert CHR ''.'' (set n)"
    by (cases "name_extension n") (auto simp: x_def dest: name_extension_subset)
  then have "CHR 0x00 \<notin> set x \<and> CHR ''/'' \<notin> set x" using assms(3,4) by (auto simp: seg_ok_def)
  then have "CHR ''/'' \<notin> set c \<and> CHR 0x00 \<notin> set c"
    using assms(3,4) mid stamp by (simp add: c_def seg_ok_def)
  moreover have "length c > 2" by (simp add: c_def)
  ultimately show ?thesis by (auto simp: seg_ok_def)
qed

definition copy_segs :: "string \<Rightarrow> string list \<Rightarrow> string \<Rightarrow> bool" where
  "copy_segs r ks s \<longleftrightarrow> ks = butlast (path_segs_of r) @ [last (path_segs_of r) @ ''.conflict-'' @ s]"

lemma conflict_copy_found:
  assumes "stamp_ok L" and "root_ok root" and "rel_ok r" and "plain d"
    and "length (d_nodes d) + 2 < 2 ^ 32"
  obtains p s cn where "cn = last (path_segs_of r) @ ''.conflict-'' @ s"
    and "seg_ok cn \<and> cn \<noteq> ''..'' \<and> CHR 0x00 \<notin> set cn"
    and "p = \<lparr>p_abs = True, p_segs = p_segs root @ butlast (path_segs_of r) @ [cn]\<rparr>"
    and "conflict_copy_path L (path_join root r) t (std_exists d) = Some p" and "\<not> std_exists d p"
proof -
  let ?k = "file_key root r" and ?ks = "path_segs_of r"
  let ?base = "\<lparr>p_abs = True, p_segs = ?k\<rparr>" and ?n = "last (path_segs_of r)"
  have ks: "?ks \<noteq> []" "clean ?ks" using assms(3) by (auto simp: rel_ok_def)
  have kc: "clean ?k" and kb: "butlast ?k = p_segs root @ butlast ?ks" "last ?k = ?n"
    using file_key_clean [OF assms(2,3)] ks by (auto simp: file_key_def butlast_append)
  have kne: "?k \<noteq> []" using file_key_ne [OF assms(3)] .
  have n: "seg_ok ?n" "?n \<noteq> ''..''" "CHR 0x00 \<notin> set ?n" using last_ok [OF ks(2,1)] by auto
  have name: "file_name ?base = Some ?n"
    using n kne by (auto simp: file_name_def Let_def kb seg_ok_def)
  have dir: "conflict_dir ?base = \<lparr>p_abs = True, p_segs = butlast ?k\<rparr>"
    using kne by (simp add: conflict_dir_def path_parent_def)
  have "segs_clean ?base" using kc by (auto simp: segs_clean_def clean_def seg_ok_def)
  note some = conflict_copy_path_some [OF assms(1) this, of "std_exists d" t]
  have fin: "finite (names_in (std_exists d) (conflict_dir ?base))"
    "card (names_in (std_exists d) (conflict_dir ?base)) < 2 ^ 32"
    using names_in_plain [OF assms(4) clean_butlast [OF kc]] assms(5) unfolding dir by auto
  define x where "x = (case name_extension ?n of Some e \<Rightarrow> ''.'' @ e | None \<Rightarrow> [])"
  have nx: "name_stem ?n @ x = ?n" unfolding x_def by (rule name_stem_ext_text)
  obtain p mid where p: "conflict_copy_path L ?base t (std_exists d) = Some p" "\<not> std_exists d p"
    "counter_text mid" and pe: "p = \<lparr>p_abs = True, p_segs = butlast ?k @
      [conflict_name (name_stem ?n) x (lib_conflict_stamp L t) mid]\<rparr>"
    using some [OF fin] by (auto simp: Let_def dir file_stem_def extension_def name x_def)
  define s where "s = lib_conflict_stamp L t @ mid @ x"
  define cn where "cn = ?n @ ''.conflict-'' @ s"
  have cn: "conflict_name (name_stem ?n) x (lib_conflict_stamp L t) mid = cn"
    unfolding conflict_name_def cn_def s_def using nx by (metis append.assoc)
  have cnok: "seg_ok cn \<and> cn \<noteq> ''..'' \<and> CHR 0x00 \<notin> set cn"
    unfolding cn_def s_def x_def using conflict_segment_ok [OF assms(1) p(3) n(1,3)] by blast
  have pp: "p = \<lparr>p_abs = True, p_segs = p_segs root @ butlast ?ks @ [cn]\<rparr>" using pe cn kb by simp
  show thesis using p(1,2) unfolding join_rel [OF assms(2,3), symmetric] by (rule that [OF cn_def cnok pp])
qed

lemma conflict_paths:
  assumes "stamp_ok L" and "root_ok root" and "rel_ok r" and "plain d"
    and "length (d_nodes d) + 2 < 2 ^ 32"
  shows "\<exists>p. conflict_copy_path L (path_join root r) t (std_exists d) = Some p \<and>
    rel_ok (conflict_rel root p) \<and> lookup_node d (file_key root (conflict_rel root p)) = None \<and>
    file_key root (conflict_rel root p) \<noteq> file_key root r \<and>
    file_key root (conflict_rel root p) \<noteq> tmp_key (file_key root r) \<and>
    tmp_key (file_key root (conflict_rel root p)) \<noteq> file_key root r \<and>
    (\<exists>s. copy_segs r (path_segs_of (conflict_rel root p)) s \<and>
       conflict_rel root p = join_with ''/'' (path_segs_of (conflict_rel root p)))"
proof -
  let ?k = "file_key root r" and ?ks = "path_segs_of r" and ?n = "last (path_segs_of r)"
  have ks: "?ks \<noteq> []" "clean ?ks" using assms(3) by (auto simp: rel_ok_def)
  have n: "seg_ok ?n" using last_ok [OF ks(2,1)] by auto
  obtain p s cn where cn_def: "cn = ?n @ ''.conflict-'' @ s"
    and cnok: "seg_ok cn \<and> cn \<noteq> ''..'' \<and> CHR 0x00 \<notin> set cn"
    and pe: "p = \<lparr>p_abs = True, p_segs = p_segs root @ butlast ?ks @ [cn]\<rparr>"
    and p: "conflict_copy_path L (path_join root r) t (std_exists d) = Some p" "\<not> std_exists d p"
    using assms by (rule conflict_copy_found)
  let ?cs = "butlast ?ks @ [cn]"
  have cs: "clean ?cs" "?cs \<noteq> []" using ks(2) cnok by (auto simp: clean_butlast clean_def dest: in_set_butlastD)
  have pp: "p = \<lparr>p_abs = True, p_segs = p_segs root @ ?cs\<rparr>" using pe by simp
  have kb: "butlast ?k = p_segs root @ butlast ?ks" "last ?k = ?n"
    using ks by (auto simp: file_key_def butlast_append)
  have rel: "rel_ok (conflict_rel root p)" "file_key root (conflict_rel root p) = p_segs root @ ?cs"
    "conflict_rel root p = join_with ''/'' ?cs"
    using rel_of_segs [OF assms(2) cs] unfolding pp by auto
  have "clean (p_segs root @ ?cs)" using assms(2) cs by (simp add: root_ok_def)
  from missing_plain [OF assms(4) this] have none: "lookup_node d (p_segs root @ ?cs) = None"
    using p(2) unfolding pp by simp
  have k: "?k = (p_segs root @ butlast ?ks) @ [?n]" using ks(1) by (simp add: file_key_def)
  have "cn \<noteq> ?n" by (simp add: cn_def)
  then have a: "p_segs root @ ?cs \<noteq> ?k" unfolding k by simp
  have b: "p_segs root @ ?cs \<noteq> tmp_key ?k"
    using conflict_name_not_tmp [of ?n s] by (simp add: tmp_key_def kb cn_def)
  have "name_stem cn @ ''.gds_tmp'' \<noteq> ?n"
  proof
    assume "name_stem cn @ ''.gds_tmp'' = ?n"
    from arg_cong [OF this, of length] long_stem [of ?n s] n show False
      by (auto simp: cn_def seg_ok_def)
  qed
  then have c: "tmp_key (p_segs root @ ?cs) \<noteq> ?k" unfolding k by (simp add: tmp_key_def butlast_append)
  have "path_segs_of (conflict_rel root p) = ?cs" using rel(2) by (simp add: file_key_def)
  then have d: "copy_segs r (path_segs_of (conflict_rel root p)) s \<and>
      conflict_rel root p = join_with ''/'' (path_segs_of (conflict_rel root p))"
    using rel(3) by (simp add: copy_segs_def cn_def)
  show ?thesis
    using p(1) rel(1,2) none a b c d unfolding join_rel [OF assms(2,3)] by auto
qed

section \<open>Conflicts\<close>

lemma read_contents:
  assumes "root_ok root" and "plain d" and "rel_ok r"
  shows "tokio_read_file root r d = (Inr c, d) \<longleftrightarrow> contents d (file_key root r) = Some c"
proof -
  have "root_ok root \<and> plain d" using assms by simp
  from tokio.read_view [OF this assms(3), of c] tokio.read_pure [of root r d] show ?thesis
    by (metis fst_conv prod.collapse)
qed

text \<open>
  How the conflict arm can end, given what is known (\<open>Q\<close>) of the name of the copy: before anything is
  written, at the copy, between the copy and the overwriting, after it, or with everything done.
\<close>

definition conflict_notice :: "sync_executor \<Rightarrow> path \<Rightarrow> string \<Rightarrow> path \<Rightarrow> (string \<times> string) list" where
  "conflict_notice ex root r p =
     (if se_notify ex
      then [(path_show (path_join root r), path_show (path_join root (conflict_rel root p)))] else [])"

inductive conflict_outcome ::
    "'w env \<Rightarrow> libs \<Rightarrow> codecs \<Rightarrow> sync_executor \<Rightarrow> path \<Rightarrow> sync_folder \<Rightarrow> string \<Rightarrow> sync_action \<Rightarrow> string \<Rightarrow>
     (path \<Rightarrow> bool) \<Rightarrow> ('w, disk) world \<Rightarrow> sync_error + unit option \<Rightarrow> ('w, disk) world \<Rightarrow> bool"
  for E L K ex root folder token a old Q t where
  untouched: "conflict_outcome E L K ex root folder token a old Q t (Inl e) t"
| no_copy: "Q p \<Longrightarrow> tokio_write_atomic root (conflict_rel root p) old (w_disk t) = (Inl e', w_disk t') \<Longrightarrow>
    conflict_outcome E L K ex root folder token a old Q t (Inl e) t'"
| copied: "Q p \<Longrightarrow> tokio_write_atomic root (conflict_rel root p) old (w_disk t) = (Inr (), w_disk t') \<Longrightarrow>
    conflict_outcome E L K ex root folder token a old Q t (Inl e) t'"
| overwritten: "Q p \<Longrightarrow> tokio_write_atomic root (conflict_rel root p) old (w_disk t) = (Inr (), d1) \<Longrightarrow>
    tokio_write_atomic root (sa_relative_path a) content d1 = (z, w_disk t') \<Longrightarrow>
    conflict_outcome E L K ex root folder token a old Q t (Inl e) t'"
| resolved: "Q p \<Longrightarrow> tokio_write_atomic root (conflict_rel root p) old (w_disk t) = (Inr (), d1) \<Longrightarrow>
    sa_drive_file a = Some f \<Longrightarrow> remote_content E K ex token f w = (Inr content, w') \<Longrightarrow>
    tokio_write_atomic root (sa_relative_path a) content d1 = (Inr (), w_disk t') \<Longrightarrow>
    file_state_after_download E L (sf_id folder) (sa_relative_path a) f (sa_state a) w3 = (st, w4) \<Longrightarrow>
    fs_upsert L (st\<lparr>fs_sync_state := ss_conflict\<rparr>) (w_db t) = (Inr (), w_db t') \<Longrightarrow>
    w_notices t' = w_notices t @ conflict_notice ex root (sa_relative_path a) p \<Longrightarrow>
    conflict_outcome E L K ex root folder token a old Q t (Inr (Some ())) t'"

text \<open>The arm up to the overwriting of the file, and the rest of it.\<close>

definition conflict_rest ::
    "'w env \<Rightarrow> libs \<Rightarrow> sync_executor \<Rightarrow> path \<Rightarrow> sync_folder \<Rightarrow> sync_action \<Rightarrow> drive_file \<Rightarrow> path \<Rightarrow> string \<Rightarrow>
     (('w, disk) world, sync_error, unit option) proc" where
  "conflict_rest E L ex root folder a f p content =
     seqp (on_disk (tokio_write_atomic root (sa_relative_path a) content)) (\<lambda>_.
     seqp (on_env (okp (file_state_after_download E L (sf_id folder) (sa_relative_path a) f (sa_state a)))) (\<lambda>st.
     seqp (on_db (fs_upsert L (st\<lparr>fs_sync_state := ss_conflict\<rparr>))) (\<lambda>_.
     seqp (modp (\<lambda>s. s\<lparr>w_notices := w_notices s @ conflict_notice ex root (sa_relative_path a) p\<rparr>)) (\<lambda>_.
     retp (Some ())))))"

lemma exec_conflict_start:
  assumes "sa_state a = Some state" and "sa_drive_file a = Some f"
    and "env_now E (w_env t) = (now, w1)"
    and "conflict_copy_path L (path_join root (sa_relative_path a)) now (std_exists (w_disk t)) = Some p"
    and "tokio_read_file root (sa_relative_path a) (w_disk t) = (Inr old, w_disk t)"
    and "tokio_write_atomic root (conflict_rel root p) old (w_disk t) = (x1, d1)"
    and "remote_content E K ex token f w1 = (x2, w2)"
  shows "exec_conflict E (tokio_local_fs L) L K ex root folder token a t =
    (case x1 of Inl e \<Rightarrow> (Inl e, t\<lparr>w_env := w1, w_disk := d1\<rparr>)
     | Inr _ \<Rightarrow> (case x2 of Inl e \<Rightarrow> (Inl e, t\<lparr>w_env := w2, w_disk := d1\<rparr>)
       | Inr content \<Rightarrow>
           conflict_rest E L ex root folder a f p content (t\<lparr>w_env := w2, w_disk := d1\<rparr>)))"
  using assms
  by (auto simp: exec_conflict_def conflict_rest_def conflict_notice_def seqp_def need_def retp_def on_env_def
      on_disk_def okp_def getp_def modp_def Let_def split: sum.splits prod.splits)

lemma conflict_rest_outcome:
  assumes "Q p" and "tokio_write_atomic root (conflict_rel root p) old (w_disk t) = (Inr (), d1)"
    and "sa_drive_file a = Some f" and "remote_content E K ex token f w1 = (Inr content, w2)"
    and "conflict_rest E L ex root folder a f p content (t\<lparr>w_env := w2, w_disk := d1\<rparr>) = (x, t')"
  shows "conflict_outcome E L K ex root folder token a old Q t x t'"
proof -
  let ?r = "sa_relative_path a"
  obtain x3 d3 where c3: "tokio_write_atomic root ?r content d1 = (x3, d3)"
    by (cases "tokio_write_atomic root ?r content d1")
  obtain st w4 where c4: "file_state_after_download E L (sf_id folder) ?r f (sa_state a) w2 = (st, w4)"
    by (cases "file_state_after_download E L (sf_id folder) ?r f (sa_state a) w2")
  obtain x5 db where c5: "fs_upsert L (st\<lparr>fs_sync_state := ss_conflict\<rparr>) (w_db t) = (x5, db)"
    by (cases "fs_upsert L (st\<lparr>fs_sync_state := ss_conflict\<rparr>) (w_db t)")
  show ?thesis
  proof (cases "x3 = Inr () \<and> x5 = Inr ()")
    case True
    with assms(5) have "x = Inr (Some ())" "w_disk t' = d3" "w_db t' = db"
      "w_notices t' = w_notices t @ conflict_notice ex root ?r p"
      by (auto simp: conflict_rest_def seqp_def on_disk_def on_env_def on_db_def okp_def c3 c4 c5 modp_def retp_def)
    then show ?thesis
      using True c3 c5 by (auto intro: conflict_outcome.resolved [where Q = Q and p = p, OF assms(1-4) _ c4])
  next
    case False
    with assms(5) have "\<exists>e. x = Inl e" "w_disk t' = d3"
      by (auto simp: conflict_rest_def seqp_def on_disk_def on_env_def on_db_def okp_def c3 c4 c5 modp_def retp_def
          split: sum.splits)
    then show ?thesis using c3 by (auto intro: conflict_outcome.overwritten [where Q = Q and p = p, OF assms(1,2)])
  qed
qed

lemma exec_conflict_disk:
  fixes t :: "('w, disk) world"
  assumes "exec_conflict E (tokio_local_fs L) L K ex root folder token a t = (x, t')"
    and "tokio_read_file root (sa_relative_path a) (w_disk t) = (Inr old, w_disk t)"
    and "\<And>now. \<exists>p. conflict_copy_path L (path_join root (sa_relative_path a)) now
      (std_exists (w_disk t)) = Some p \<and> Q p"
  shows "conflict_outcome E L K ex root folder token a old Q t x t'"
proof (cases "sa_state a = None \<or> sa_drive_file a = None")
  case True
  then show ?thesis
    using assms(1)
    by (auto simp: exec_conflict_def seqp_def need_def failp_def retp_def
        split: option.splits intro: conflict_outcome.untouched)
next
  case False
  then obtain state f where sf: "sa_state a = Some state" "sa_drive_file a = Some f" by auto
  obtain now w1 where now: "env_now E (w_env t) = (now, w1)" by (cases "env_now E (w_env t)")
  obtain p where p: "conflict_copy_path L (path_join root (sa_relative_path a)) now (std_exists (w_disk t)) = Some p" "Q p"
    using assms(3) by blast
  obtain x1 d1 where c1: "tokio_write_atomic root (conflict_rel root p) old (w_disk t) = (x1, d1)"
    by (cases "tokio_write_atomic root (conflict_rel root p) old (w_disk t)")
  obtain x2 w2 where c2: "remote_content E K ex token f w1 = (x2, w2)"
    by (cases "remote_content E K ex token f w1")
  note run = exec_conflict_start [OF sf now p(1) assms(2) c1 c2, of folder, unfolded assms(1)]
  show ?thesis
  proof (cases x1)
    case (Inl e)
    then show ?thesis using run c1 by (auto intro: conflict_outcome.no_copy [where Q = Q and p = p, OF p(2)])
  next
    case ok: (Inr u)
    show ?thesis
    proof (cases x2)
      case (Inl e)
      then show ?thesis using run c1 ok by (auto intro: conflict_outcome.copied [where Q = Q and p = p, OF p(2)])
    next
      case (Inr content)
      then show ?thesis
        using run c1 c2 ok by (intro conflict_rest_outcome [where Q = Q and p = p, OF p(2) _ sf(2)]) auto
    qed
  qed
qed

text \<open>What is known of the name of the copy.\<close>

definition copy_name_ok :: "path \<Rightarrow> disk \<Rightarrow> string \<Rightarrow> path \<Rightarrow> bool" where
  "copy_name_ok root d r p \<longleftrightarrow> rel_ok (conflict_rel root p) \<and>
     lookup_node d (file_key root (conflict_rel root p)) = None \<and>
     file_key root (conflict_rel root p) \<noteq> file_key root r \<and>
     file_key root (conflict_rel root p) \<noteq> tmp_key (file_key root r) \<and>
     tmp_key (file_key root (conflict_rel root p)) \<noteq> file_key root r \<and>
     (\<exists>s. copy_segs r (path_segs_of (conflict_rel root p)) s \<and>
        conflict_rel root p = join_with ''/'' (path_segs_of (conflict_rel root p)))"

lemma copy_then_overwrite_contents:
  assumes "root_ok root" and "plain d" and "rel_ok r" and "copy_name_ok root d r p"
    and "contents d (file_key root r) = Some old"
    and "tokio_write_atomic root (conflict_rel root p) old d = (Inr (), d1)"
    and "tokio_write_atomic root r content d1 = (z, d2)"
  shows "contents d2 (file_key root (conflict_rel root p)) = Some old"
    and "z = Inr () \<Longrightarrow> contents d2 (file_key root r) = Some content"
proof -
  have rr: "root_ok root \<and> plain d" using assms(1,2) by simp
  have q: "rel_ok (conflict_rel root p)" using assms(4) by (simp add: copy_name_ok_def)
  have rd: "tokio_read_file root r d = (Inr old, d)" using read_contents [OF assms(1-3)] assms(5) by simp
  have d2: "root_ok root \<and> plain d2"
    using tokio.write_wf' [OF tokio.write_wf' [OF rr q assms(6)] assms(3,7)] .
  have "tokio_read_file root (conflict_rel root p) d2 = (Inr old, d2) \<and>
      (z = Inr () \<longrightarrow> tokio_read_file root r d2 = (Inr content, d2))"
    using assms(4)
    by (intro tokio.copy_then_overwrite [OF rr assms(3) q _ _ rd assms(6,7)]) (auto simp: copy_name_ok_def)
  then show "contents d2 (file_key root (conflict_rel root p)) = Some old"
    and "z = Inr () \<Longrightarrow> contents d2 (file_key root r) = Some content"
    using read_contents [of root d2] d2 q assms(3) by auto
qed

text \<open>Where the local content is after each ending.\<close>

lemma conflict_outcome_keeps:
  fixes t :: "('w, disk) world"
  assumes "conflict_outcome E L K ex root folder token a old (copy_name_ok root (w_disk t) (sa_relative_path a)) t x t'"
    and "root_ok root" and "rel_ok (sa_relative_path a)" and "plain (w_disk t)"
    and "contents (w_disk t) (file_key root (sa_relative_path a)) = Some old"
  shows "\<exists>q. contents (w_disk t') (file_key root q) = Some old \<and>
    (q = sa_relative_path a \<or> lookup_node (w_disk t) (file_key root q) = None) \<and>
    (x = Inr (Some ()) \<longrightarrow> lookup_node (w_disk t) (file_key root q) = None \<and>
      (\<exists>f w content w' st w3 w4 db. sa_drive_file a = Some f \<and> remote_content E K ex token f w = (Inr content, w') \<and>
        contents (w_disk t') (file_key root (sa_relative_path a)) = Some content \<and>
        file_state_after_download E L (sf_id folder) (sa_relative_path a) f (sa_state a) w3 = (st, w4) \<and>
        fs_upsert L (st\<lparr>fs_sync_state := ss_conflict\<rparr>) db = (Inr (), w_db t') \<and>
        w_notices t' = w_notices t @ (if se_notify ex
          then [(path_show (path_join root (sa_relative_path a)), path_show (path_join root q))] else [])))"
proof -
  let ?r = "sa_relative_path a"
  have rr: "root_ok root \<and> plain (w_disk t)" using assms(2,4) by simp
  note overwrite = copy_then_overwrite_contents [OF assms(2,4,3) _ assms(5)]
  show ?thesis
    using assms(1)
  proof cases
    case (untouched e)
    then show ?thesis using assms(5) by auto
  next
    case (no_copy p e' e)
    then have "contents (w_disk t') (file_key root ?r) = contents (w_disk t) (file_key root ?r)"
      using tokio.write_fail [OF rr _ no_copy(3), of "file_key root ?r"] by (auto simp: copy_name_ok_def)
    then show ?thesis using no_copy assms(5) by auto
  next
    case (copied p e)
    then have "contents (w_disk t') (file_key root (conflict_rel root p)) = Some old"
      using tokio.write_view [OF rr _ copied(3)] by (auto simp: copy_name_ok_def)
    then show ?thesis using copied by (auto simp: copy_name_ok_def)
  next
    case (overwritten p d1 content z e)
    then show ?thesis using overwrite(1) [OF overwritten(2-4)] by (auto simp: copy_name_ok_def)
  next
    case (resolved p d1 f w content w' w3 st w4)
    have "lookup_node (w_disk t) (file_key root (conflict_rel root p)) = None"
      using resolved(2) by (simp add: copy_name_ok_def)
    then show ?thesis
      using resolved overwrite [OF resolved(2,3,6)] unfolding conflict_notice_def by blast
  qed
qed

lemma conflict_row:
  assumes "file_state_after_download E L (sf_id folder) r f old w = (st, w')"
    and "fs_upsert L (st\<lparr>fs_sync_state := ss_conflict\<rparr>) db = (Inr (), db')"
  shows "row_at db' (sf_id folder) r = Some (row_of_file_state L (st\<lparr>fs_sync_state := ss_conflict\<rparr>)) \<and>
    fs_drive_file_id (st\<lparr>fs_sync_state := ss_conflict\<rparr>) = Some (df_id f) \<and>
    fs_sync_state (st\<lparr>fs_sync_state := ss_conflict\<rparr>) = ss_conflict"
  using row_at_upsert(1) [OF assms(2)] after_download_fields [OF assms(1)] by simp

lemma conflict_run:
  fixes s :: "('w, disk) world"
  assumes "stamp_ok L" and "root_ok root" and "rel_ok (sa_relative_path a)" and "plain (w_disk s)"
    and "length (d_nodes (w_disk s)) + 2 < 2 ^ 32" and "sa_kind a = Conflict"
    and "contents (w_disk s) (file_key root (sa_relative_path a)) = Some old"
    and "execute_one E (tokio_local_fs L) L K ex root folder a s = (x, s')"
  obtains (no_token) e where "x = Inl e" and "w_disk s' = w_disk s"
  | (started) token t where "w_disk t = w_disk s" and "w_db t = w_db s" and "w_notices t = w_notices s"
      and "conflict_outcome E L K ex root folder token a old (copy_name_ok root (w_disk t) (sa_relative_path a)) t x s'"
proof -
  obtain y t where t: "get_valid_access_token E L (se_account_key ex) s = (y, t)"
    by (cases "get_valid_access_token E L (se_account_key ex) s")
  have td: "w_disk t = w_disk s" "w_db t = w_db s" "w_notices t = w_notices s" using token_quiet [OF t] by auto
  show thesis
  proof (cases y)
    case (Inl e)
    then show thesis using assms(6,8) t td by (intro no_token [of e]) (auto simp: execute_one_def seqp_def)
  next
    case (Inr token)
    then have run: "exec_conflict E (tokio_local_fs L) L K ex root folder token a t = (x, s')"
      using assms(6,8) t by (simp add: execute_one_def seqp_def)
    have rd: "tokio_read_file root (sa_relative_path a) (w_disk t) = (Inr old, w_disk t)"
      using read_contents [OF assms(2,4,3)] assms(7) by (simp add: td)
    have "\<exists>p. conflict_copy_path L (path_join root (sa_relative_path a)) now (std_exists (w_disk t)) = Some p \<and>
        copy_name_ok root (w_disk t) (sa_relative_path a) p" for now
      unfolding copy_name_ok_def td by (rule conflict_paths [OF assms(1,2,3,4,5)])
    with exec_conflict_disk [OF run rd this] show thesis by (intro started [OF td])
  qed
qed

text \<open>
  C1: resolving a conflict never loses the local content. However the action ends, also when the
  copy, the download, the overwrite or the database fails, the content the file had is still
  readable in the file itself or in a file that did not exist before. When it succeeds, the file
  has the remote content and the copy the local one, the row says \<open>Conflict\<close>, and the two paths
  are sent to the listener, if there is one. The action always returns.
\<close>

theorem conflict_keeps_local_content:
  fixes s :: "('w, disk) world"
  assumes "stamp_ok L" and "root_ok root" and "rel_ok (sa_relative_path a)" and "plain (w_disk s)"
    and "length (d_nodes (w_disk s)) + 2 < 2 ^ 32" and "sa_kind a = Conflict"
    and "contents (w_disk s) (file_key root (sa_relative_path a)) = Some old"
    and "execute_one E (tokio_local_fs L) L K ex root folder a s = (x, s')"
  shows "x \<noteq> Inr None \<and>
    (\<exists>q. contents (w_disk s') (file_key root q) = Some old \<and>
      (q = sa_relative_path a \<or> lookup_node (w_disk s) (file_key root q) = None) \<and>
      (x = Inr (Some ()) \<longrightarrow> lookup_node (w_disk s) (file_key root q) = None \<and>
        (\<exists>f token content w w' st. sa_drive_file a = Some f \<and>
          remote_content E K ex token f w = (Inr content, w') \<and>
          contents (w_disk s') (file_key root (sa_relative_path a)) = Some content \<and>
          row_at (w_db s') (sf_id folder) (sa_relative_path a) = Some (row_of_file_state L st) \<and>
          fs_sync_state st = ss_conflict \<and> fs_drive_file_id st = Some (df_id f) \<and>
          w_notices s' = w_notices s @ (if se_notify ex
            then [(path_show (path_join root (sa_relative_path a)), path_show (path_join root q))] else []))))"
  using assms
proof (cases rule: conflict_run)
  case (no_token e)
  then show ?thesis using assms(7) by auto
next
  case (started token t)
  note out = started(4) and td = started(1,3)
  have returned: "x \<noteq> Inr None" using out by cases simp_all
  obtain q where q: "contents (w_disk s') (file_key root q) = Some old"
      "q = sa_relative_path a \<or> lookup_node (w_disk s) (file_key root q) = None"
    and res: "x = Inr (Some ()) \<longrightarrow> lookup_node (w_disk s) (file_key root q) = None \<and>
      (\<exists>f w content w' st w3 w4 db. sa_drive_file a = Some f \<and> remote_content E K ex token f w = (Inr content, w') \<and>
        contents (w_disk s') (file_key root (sa_relative_path a)) = Some content \<and>
        file_state_after_download E L (sf_id folder) (sa_relative_path a) f (sa_state a) w3 = (st, w4) \<and>
        fs_upsert L (st\<lparr>fs_sync_state := ss_conflict\<rparr>) db = (Inr (), w_db s') \<and>
        w_notices s' = w_notices s @ (if se_notify ex
          then [(path_show (path_join root (sa_relative_path a)), path_show (path_join root q))] else []))"
    using conflict_outcome_keeps [OF out assms(2,3)] assms(4,7) unfolding td by blast
  show ?thesis
  proof (cases "x = Inr (Some ())")
    case True
    then obtain f w content w' st w3 w4 db where r: "sa_drive_file a = Some f"
        "remote_content E K ex token f w = (Inr content, w')"
        "contents (w_disk s') (file_key root (sa_relative_path a)) = Some content"
        "w_notices s' = w_notices s @ (if se_notify ex
          then [(path_show (path_join root (sa_relative_path a)), path_show (path_join root q))] else [])"
      and up: "file_state_after_download E L (sf_id folder) (sa_relative_path a) f (sa_state a) w3 = (st, w4)"
        "fs_upsert L (st\<lparr>fs_sync_state := ss_conflict\<rparr>) db = (Inr (), w_db s')"
      and none: "lookup_node (w_disk s) (file_key root q) = None"
      using res by blast
    show ?thesis using q(1) True none r conflict_row [OF up] by blast
  next
    case False
    with q returned show ?thesis by blast
  qed
qed

section \<open>Examples\<close>

lemma demo_media: "remote_content token_env demo_codecs demo_executor token demo_drive_file w = (Inr [], w)"
proof -
  have "\<not> is_google_workspace_file ''text/plain''" "export_mime_type ''text/plain'' = None" by code_simp+
  then show ?thesis
    by (simp add: remote_content_def demo_drive_file_def files_get_media_def seqp_def parse_url_def
        demo_codecs_def retp_def execute_stream_to_writer_def http_send_def map_errp_def token_env_def
        is_success_def liftp_def)
qed

lemma demo_writes:
  "fst (tokio_write_atomic demo_root ''a.txt'' [] demo_plain_disk) = Inr ()"
  by code_simp

lemma demo_download:
  "\<exists>s'. execute_one token_env (tokio_local_fs demo_libs) demo_libs demo_codecs demo_executor demo_root
     demo_folder (new_download ''a.txt'' demo_drive_file) demo_world = (Inr (Some ()), s')"
proof -
  obtain d where d: "tokio_write_atomic demo_root ''a.txt'' [] demo_plain_disk = (Inr (), d)"
    using demo_writes by (metis prod.collapse)
  have w: "w_disk demo_world = demo_plain_disk" "w_db demo_world = demo_db" by (simp_all add: demo_world_def)
  have u: "fs_upsert demo_libs st demo_db =
      (Inr (), demo_db\<lparr>db_file_states := [row_of_file_state demo_libs st]\<rparr>)"
    if "fs_sync_folder_id st = ''f1''" for st
    using that by (simp add: fs_upsert_def upsert_row_def id_clash_def stmt_def put_row_def demo_db_def
        fk_ok_def row_of_file_state_def)
  show ?thesis
    by (simp add: u execute_one_def demo_executor_def executor_new_def seqp_def demo_token somep_def
        exec_download_def need_def retp_def on_env_def on_disk_def on_db_def okp_def d w
        demo_media [unfolded demo_executor_def executor_new_def] new_download_def demo_folder_def
        file_state_after_download_def Let_def split: prod.splits)
qed

lemma download_writes_file_and_row_witness:
  "\<exists>s'. execute_one token_env (tokio_local_fs demo_libs) demo_libs demo_codecs demo_executor demo_root
      demo_folder (new_download ''a.txt'' demo_drive_file) demo_world = (Inr (Some ()), s') \<and>
    contents (w_disk s') [''r'', ''a.gds_tmp''] = None \<and> row_at (w_db s') ''f1'' ''a.txt'' \<noteq> None"
proof -
  obtain s' where s': "execute_one token_env (tokio_local_fs demo_libs) demo_libs demo_codecs demo_executor
      demo_root demo_folder (new_download ''a.txt'' demo_drive_file) demo_world = (Inr (Some ()), s')"
    using demo_download by blast
  have k: "rel_ok ''a.txt''" "file_key demo_root ''a.txt'' = [''r'', ''a.txt'']"
    "tmp_key [''r'', ''a.txt''] = [''r'', ''a.gds_tmp'']" by code_simp+
  have w: "w_disk demo_world = demo_plain_disk" by (simp add: demo_world_def)
  have f: "sf_id demo_folder = ''f1''" by (simp add: demo_folder_def)
  from download_writes_file_and_row [OF demo_root_ok, of demo_world "new_download ''a.txt'' demo_drive_file",
      OF _ _ _ s'] show ?thesis
    using s' by (auto simp: w demo_plain k f)
qed

lemma demo_created:
  "files_create_simple token_env demo_codecs c token meta ''old'' m w = (Inr demo_drive_file, w)"
  by (simp add: files_create_simple_def SIMPLE_UPLOAD_MAX_BYTES_def seqp_def parse_mime_def parse_url_def
      demo_codecs_def retp_def http_send_def map_errp_def token_env_def is_success_def liftp_def
      check_response_def decode_body_def)

lemma upload_sends_file_and_records_answer_witness:
  "\<exists>s'. execute_one token_env (tokio_local_fs demo_libs) demo_libs demo_codecs demo_executor demo_root
      demo_folder (new_upload ''a.txt'' None ''m'' 5) demo_world = (Inr (Some ()), s') \<and>
    w_disk s' = demo_plain_disk \<and> row_at (w_db s') ''f1'' ''a.txt'' \<noteq> None"
proof -
  have k: "rel_ok ''a.txt''" "file_key demo_root ''a.txt'' = [''r'', ''a.txt'']" by code_simp+
  have w: "w_disk demo_world = demo_plain_disk" "w_db demo_world = demo_db" by (simp_all add: demo_world_def)
  have f: "sf_id demo_folder = ''f1''" by (simp add: demo_folder_def)
  have "contents demo_plain_disk [''r'', ''a.txt''] = Some ''old''"
    by (simp add: contents_def demo_plain_disk_def lookup_node_def)
  then have rd: "tokio_read_file demo_root ''a.txt'' demo_plain_disk = (Inr ''old'', demo_plain_disk)"
    by (simp add: read_contents [OF demo_root_ok demo_plain k(1)] k(2))
  have u: "fs_upsert demo_libs st demo_db =
      (Inr (), demo_db\<lparr>db_file_states := [row_of_file_state demo_libs st]\<rparr>)"
    if "fs_sync_folder_id st = ''f1''" for st
    using that by (simp add: fs_upsert_def upsert_row_def id_clash_def stmt_def put_row_def demo_db_def
        fk_ok_def row_of_file_state_def)
  have "\<exists>s'. execute_one token_env (tokio_local_fs demo_libs) demo_libs demo_codecs demo_executor demo_root
      demo_folder (new_upload ''a.txt'' None ''m'' 5) demo_world = (Inr (Some ()), s')"
    by (simp add: u execute_one_def demo_executor_def executor_new_def seqp_def demo_token somep_def
        exec_new_upload_def retp_def on_env_def on_disk_def on_db_def okp_def rd w f demo_created
        SIMPLE_UPLOAD_MAX_BYTES_def new_upload_def file_state_after_upload_def Let_def split: prod.splits)
  then obtain s' where s': "execute_one token_env (tokio_local_fs demo_libs) demo_libs demo_codecs
      demo_executor demo_root demo_folder (new_upload ''a.txt'' None ''m'' 5) demo_world = (Inr (Some ()), s')"
    by blast
  from upload_sends_file_and_records_answer [OF demo_root_ok, of demo_world "new_upload ''a.txt'' None ''m'' 5",
      OF _ _ _ s'] show ?thesis
    using s' by (auto simp: w demo_plain k f)
qed

definition demo_conflict :: sync_action where
  "demo_conflict = conflict_action ''a.txt'' demo_known demo_drive_file ''old'' 5000000000"

lemma demo_stamp: "stamp_ok demo_libs"
  using demo_libs_ok by (simp add: libs_ok_def)

lemma conflict_keeps_local_content_witness:
  "\<exists>q. contents (w_disk (snd (execute_one token_env (tokio_local_fs demo_libs) demo_libs demo_codecs
     demo_executor demo_root demo_folder demo_conflict demo_world))) (file_key demo_root q) = Some ''old''"
proof -
  have k: "rel_ok ''a.txt''" "file_key demo_root ''a.txt'' = [''r'', ''a.txt'']" by code_simp+
  have a: "sa_relative_path demo_conflict = ''a.txt''" "sa_kind demo_conflict = Conflict"
    by (simp_all add: demo_conflict_def)
  have w: "w_disk demo_world = demo_plain_disk" by (simp add: demo_world_def)
  have c: "contents demo_plain_disk [''r'', ''a.txt''] = Some ''old''"
    by (simp add: contents_def demo_plain_disk_def lookup_node_def)
  have l: "length (d_nodes demo_plain_disk) = 3" by (simp add: demo_plain_disk_def)
  show ?thesis
    using conflict_keeps_local_content [OF demo_stamp demo_root_ok, of demo_conflict demo_world "''old''"
        token_env demo_codecs demo_executor demo_folder, OF _ _ _ _ _ surjective_pairing]
    by (simp add: a k w c l demo_plain) blast
qed

end
