(* ===== verification/Gds_Rate_Limit.thy ===== *)
theory Gds_Rate_Limit
  imports Gds_Prelude "HOL-Library.Word"
begin

text \<open>
  The scheduler's token bucket (\<open>crates/gds-daemon/src/scheduler/rate_limit.rs\<close>) and the backoff of
  sync errors (\<open>crates/gds-daemon/src/scheduler/retry.rs\<close>). The scheduler is the only caller of the
  bucket, so each compare-and-exchange finds the value it loaded. Times are \<open>u64\<close> nanoseconds of
  a monotonic clock, read by the caller of the model.
\<close>

section \<open>The token bucket\<close>

record token_bucket =
  tb_capacity_per_sec :: "32 word"
  tb_last_refill :: "64 word"
  tb_tokens :: "64 word"

definition bucket_new :: "32 word \<Rightarrow> 64 word \<Rightarrow> token_bucket" where
  "bucket_new capacity_per_sec now =
     \<lparr>tb_capacity_per_sec = capacity_per_sec, tb_last_refill = now, tb_tokens = ucast capacity_per_sec\<rparr>"

definition saturating_sub :: "64 word \<Rightarrow> 64 word \<Rightarrow> 64 word" where
  "saturating_sub a b = (if b \<le> a then a - b else 0)"

text \<open>
  \<open>(elapsed\_secs * capacity as f64).min(capacity as f64) as u64\<close>, computed without rounding. The
  double precision arithmetic gives the same: the result is used only for \<open>elapsed\_secs >= 1.0\<close>,
  where the rounded product is at least the capacity, which is a double, so the minimum is it.
\<close>

definition refill_amount :: "64 word \<Rightarrow> 32 word \<Rightarrow> 64 word" where
  "refill_amount elapsed_nanos capacity =
     of_nat (min (unat elapsed_nanos * unat capacity div 1000000000) (unat capacity))"

definition refill :: "64 word \<Rightarrow> token_bucket \<Rightarrow> token_bucket" where
  "refill now b =
     (let elapsed_nanos = saturating_sub now (tb_last_refill b);
          cap = ucast (tb_capacity_per_sec b) :: 64 word;
          b1 = (if 1000000000 \<le> elapsed_nanos
                then let to_add = refill_amount elapsed_nanos (tb_capacity_per_sec b) in
                     b\<lparr>tb_last_refill := now,
                       tb_tokens := (if to_add > 0 then tb_tokens b + to_add else tb_tokens b)\<rparr>
                else b)
      in b1\<lparr>tb_tokens := min (tb_tokens b1) cap\<rparr>)"

definition try_acquire :: "64 word \<Rightarrow> token_bucket \<Rightarrow> bool \<times> token_bucket" where
  "try_acquire now b =
     (let b1 = refill now b in
      if tb_tokens b1 = 0 then (False, b1) else (True, b1\<lparr>tb_tokens := tb_tokens b1 - 1\<rparr>))"

section \<open>Backoff of sync errors\<close>

text \<open>
  The shift count is \<open>attempt.min(8)\<close> as an \<open>i32\<close>; without overflow checks (the release profile) a
  negative one is reduced modulo 64. Durations are in milliseconds.
\<close>

definition backoff_ms :: "32 word \<Rightarrow> 64 word" where
  "backoff_ms attempt =
     (let shift = (if sint attempt \<le> 8 then sint attempt else 8);
          base_ms = 100 * push_bit (nat (shift mod 64)) 1 :: 64 word
      in min base_ms 32000)"

definition next_retry_at :: "int \<Rightarrow> 32 word \<Rightarrow> int" where
  "next_retry_at occurred_at_ms retry_count = occurred_at_ms + sint (backoff_ms retry_count)"

definition should_retry_now :: "int \<Rightarrow> 32 word \<Rightarrow> int \<Rightarrow> bool" where
  "should_retry_now occurred_at_ms retry_count now_ms \<longleftrightarrow> next_retry_at occurred_at_ms retry_count \<le> now_ms"

section \<open>How many acquisitions succeed\<close>

definition bucket_ok :: "token_bucket \<Rightarrow> bool" where
  "bucket_ok b \<longleftrightarrow> unat (tb_tokens b) \<le> unat (tb_capacity_per_sec b)"

lemma cap_unat: "unat (ucast c :: 64 word) = unat (c :: 32 word)"
proof -
  have "unat c < 2 ^ LENGTH(32)" by (rule unsigned_less)
  then have "unat c < 2 ^ 64" by simp
  then show ?thesis by (simp add: unsigned_ucast_eq take_bit_nat_eq_self)
qed

lemma cap_small: "unat (c :: 32 word) < 2 ^ 32"
  using unsigned_less [of c, where 'a = nat] by simp

lemma refill_amount_cap:
  assumes "1000000000 \<le> elapsed"
  shows "refill_amount elapsed c = ucast c"
proof -
  have "(1000000000 :: nat) \<le> unat elapsed"
    using assms by (simp add: word_le_nat_alt)
  then have "1000000000 * unat c \<le> unat elapsed * unat c" by simp
  then have "unat c \<le> unat elapsed * unat c div 1000000000" by (simp add: less_eq_div_iff_mult_less_eq mult.commute)
  then have "refill_amount elapsed c = of_nat (unat c)" by (simp add: refill_amount_def min_absorb2)
  also have "\<dots> = ucast c" by (simp add: word_unat_eq_iff cap_unat)
  finally show ?thesis .
qed

lemma refill_spec:
  assumes "bucket_ok b"
  shows "refill now b = (if 1000000000 \<le> saturating_sub now (tb_last_refill b)
    then b\<lparr>tb_last_refill := now, tb_tokens := ucast (tb_capacity_per_sec b)\<rparr> else b)"
proof -
  let ?cap = "ucast (tb_capacity_per_sec b) :: 64 word"
  have t: "tb_tokens b \<le> ?cap"
    using assms by (simp add: bucket_ok_def word_le_nat_alt cap_unat)
  have "?cap \<le> tb_tokens b + ?cap"
  proof -
    have "unat (tb_tokens b) + unat ?cap < 2 ^ 64"
      using assms cap_small [of "tb_capacity_per_sec b"] by (simp add: bucket_ok_def cap_unat)
    then have "unat (tb_tokens b + ?cap) = unat (tb_tokens b) + unat ?cap"
      by (subst unat_add_lem [symmetric]) simp
    then show ?thesis by (simp add: word_le_nat_alt)
  qed
  with t show ?thesis
    by (auto simp: refill_def Let_def refill_amount_cap min_def word_gt_0)
qed

text \<open>A sequence of calls at the given times: how many got a token, and the bucket after them.\<close>

fun acquire_all :: "64 word list \<Rightarrow> token_bucket \<Rightarrow> nat \<times> token_bucket" where
  "acquire_all [] b = (0, b)"
| "acquire_all (t # ts) b =
     (let (ok, b1) = try_acquire t b; (n, b2) = acquire_all ts b1 in ((if ok then Suc n else n), b2))"

abbreviation (input) second :: nat where "second \<equiv> 1000000000"

lemma try_acquire_spec:
  assumes "bucket_ok b" and "unat (tb_last_refill b) \<le> unat t"
  defines "full \<equiv> second \<le> unat t - unat (tb_last_refill b)"
  defines "have_n \<equiv> (if full then unat (tb_capacity_per_sec b) else unat (tb_tokens b))"
  shows "fst (try_acquire t b) \<longleftrightarrow> 0 < have_n"
    and "unat (tb_tokens (snd (try_acquire t b))) = have_n - 1"
    and "tb_capacity_per_sec (snd (try_acquire t b)) = tb_capacity_per_sec b"
    and "tb_last_refill (snd (try_acquire t b)) = (if full then t else tb_last_refill b)"
    and "bucket_ok (snd (try_acquire t b))"
proof -
  have le: "tb_last_refill b \<le> t" using assms(2) by (simp add: word_le_nat_alt)
  have "unat (saturating_sub t (tb_last_refill b)) = unat t - unat (tb_last_refill b)"
    using le by (simp add: saturating_sub_def unat_sub)
  then have f: "1000000000 \<le> saturating_sub t (tb_last_refill b) \<longleftrightarrow> full"
    by (simp add: full_def word_le_nat_alt)
  define b1 where "b1 = refill t b"
  have b1: "b1 = (if full then b\<lparr>tb_last_refill := t, tb_tokens := ucast (tb_capacity_per_sec b)\<rparr> else b)"
    unfolding b1_def refill_spec [OF assms(1)] f ..
  then have n: "unat (tb_tokens b1) = have_n" by (simp add: have_n_def cap_unat)
  have hn: "have_n \<le> unat (tb_capacity_per_sec b)" using assms(1) by (simp add: have_n_def bucket_ok_def)
  have z: "tb_tokens b1 = 0 \<longleftrightarrow> have_n = 0" using n by (metis unat_eq_zero)
  have run: "try_acquire t b = (if have_n = 0 then (False, b1) else (True, b1\<lparr>tb_tokens := tb_tokens b1 - 1\<rparr>))"
    unfolding try_acquire_def b1_def [symmetric] Let_def z ..
  have minus: "unat (tb_tokens b1 - 1) = have_n - 1" if "have_n \<noteq> 0"
    using that n z by (metis unat_minus_one)
  show "fst (try_acquire t b) \<longleftrightarrow> 0 < have_n" by (simp add: run)
  show "unat (tb_tokens (snd (try_acquire t b))) = have_n - 1" using n minus by (simp add: run)
  show "tb_capacity_per_sec (snd (try_acquire t b)) = tb_capacity_per_sec b" by (simp add: run b1)
  show "tb_last_refill (snd (try_acquire t b)) = (if full then t else tb_last_refill b)" by (simp add: run b1)
  show "bucket_ok (snd (try_acquire t b))" using hn n minus by (auto simp: run b1 bucket_ok_def)
qed

lemma acquire_after_refill:
  assumes "bucket_ok b" and "sorted (map unat ts)"
    and "\<forall>t \<in> set ts. unat (tb_last_refill b) \<le> unat t \<and> unat t \<le> T"
  shows "fst (acquire_all ts b) \<le> unat (tb_tokens b) +
    unat (tb_capacity_per_sec b) * ((T - unat (tb_last_refill b)) div second)"
  using assms
proof (induction ts arbitrary: b)
  case Nil
  then show ?case by simp
next
  case (Cons t ts)
  let ?c = "unat (tb_capacity_per_sec b)" and ?l = "unat (tb_last_refill b)"
  have tl: "?l \<le> unat t" "unat t \<le> T" using Cons.prems(3) by auto
  note spec = try_acquire_spec [OF Cons.prems(1) tl(1)]
  define b1 where "b1 = snd (try_acquire t b)"
  have b1: "bucket_ok b1" "tb_capacity_per_sec b1 = tb_capacity_per_sec b" using spec by (simp_all add: b1_def)
  have "\<forall>u \<in> set ts. unat (tb_last_refill b1) \<le> unat u \<and> unat u \<le> T"
    using Cons.prems spec(4) by (auto simp: b1_def)
  from Cons.IH [OF b1(1) _ this] Cons.prems(2)
  have IH: "fst (acquire_all ts b1) \<le> unat (tb_tokens b1) + ?c * ((T - unat (tb_last_refill b1)) div second)"
    by (simp add: b1)
  have run: "fst (acquire_all (t # ts) b) = (if fst (try_acquire t b) then 1 else 0) + fst (acquire_all ts b1)"
    by (simp add: b1_def Let_def split: prod.splits)
  show ?case
  proof (cases "second \<le> unat t - ?l")
    case True
    have "second \<le> T - ?l \<and> (T - unat t) \<le> (T - ?l) - second" using True tl by linarith
    then have "(T - unat t) div second \<le> (T - ?l) div second - 1" "1 \<le> (T - ?l) div second"
      by (auto simp: div_le_mono le_div_geq dest!: div_le_mono [of _ _ second])
    then have "(T - unat t) div second + 1 \<le> (T - ?l) div second" by linarith
    then have "?c * ((T - unat t) div second + 1) \<le> ?c * ((T - ?l) div second)" by (rule mult_le_mono2)
    then have "?c + ?c * ((T - unat t) div second) \<le> ?c * ((T - ?l) div second)" by simp
    moreover have "(if fst (try_acquire t b) then 1 else 0) + unat (tb_tokens b1) \<le> ?c"
      using spec(1,2) True by (auto simp: b1_def)
    moreover have "tb_last_refill b1 = t" using spec(4) True by (simp add: b1_def)
    ultimately show ?thesis using IH run by simp
  next
    case False
    have "(if fst (try_acquire t b) then 1 else 0) + unat (tb_tokens b1) \<le> unat (tb_tokens b)"
      using spec(1,2) False by (auto simp: b1_def)
    moreover have "tb_last_refill b1 = tb_last_refill b" using spec(4) False by (simp add: b1_def)
    ultimately show ?thesis using IH run by simp
  qed
qed

lemma acquire_in_window:
  assumes "bucket_ok b" and "sorted (map unat ts)" and "unat (tb_last_refill b) \<le> s"
    and "\<forall>t \<in> set ts. s \<le> unat t \<and> unat t \<le> T"
  shows "fst (acquire_all ts b) \<le> unat (tb_tokens b) +
    unat (tb_capacity_per_sec b) * (1 + (T - s) div second)"
  using assms
proof (induction ts arbitrary: b)
  case Nil
  then show ?case by simp
next
  case (Cons t ts)
  let ?c = "unat (tb_capacity_per_sec b)" and ?l = "unat (tb_last_refill b)"
  have tl: "?l \<le> unat t" "s \<le> unat t" using Cons.prems by auto
  note spec = try_acquire_spec [OF Cons.prems(1) tl(1)]
  define b1 where "b1 = snd (try_acquire t b)"
  have b1: "bucket_ok b1" "tb_capacity_per_sec b1 = tb_capacity_per_sec b" using spec by (simp_all add: b1_def)
  have run: "fst (acquire_all (t # ts) b) = (if fst (try_acquire t b) then 1 else 0) + fst (acquire_all ts b1)"
    by (simp add: b1_def Let_def split: prod.splits)
  show ?case
  proof (cases "second \<le> unat t - ?l")
    case True
    then have l: "tb_last_refill b1 = t" using spec(4) by (simp add: b1_def)
    have "\<forall>u \<in> set ts. unat (tb_last_refill b1) \<le> unat u \<and> unat u \<le> T" using Cons.prems l by auto
    from acquire_after_refill [OF b1(1) _ this] Cons.prems(2)
    have "fst (acquire_all ts b1) \<le> unat (tb_tokens b1) + ?c * ((T - unat t) div second)"
      by (simp add: b1 l)
    moreover have "?c * ((T - unat t) div second) \<le> ?c * ((T - s) div second)"
      using tl(2) by (intro mult_le_mono2 div_le_mono) linarith
    moreover have "(if fst (try_acquire t b) then 1 else 0) + unat (tb_tokens b1) \<le> ?c"
      using spec(1,2) True by (auto simp: b1_def)
    ultimately show ?thesis unfolding run distrib_left by linarith
  next
    case False
    have "tb_last_refill b1 = tb_last_refill b" using spec(4) False by (simp add: b1_def)
    then have "fst (acquire_all ts b1) \<le> unat (tb_tokens b1) + ?c * (1 + (T - s) div second)"
      using Cons.IH [OF b1(1)] Cons.prems by (simp add: b1)
    moreover have "(if fst (try_acquire t b) then 1 else 0) + unat (tb_tokens b1) \<le> unat (tb_tokens b)"
      using spec(1,2) False by (auto simp: b1_def)
    ultimately show ?thesis unfolding run by linarith
  qed
qed

section \<open>Properties\<close>

text \<open>
  C26: among calls made at times \<open>s\<close> to \<open>T\<close> (in nanoseconds), the bucket grants at most its
  capacity times two plus the number of whole seconds in the window. The two are needed: a full
  bucket can be emptied just before and just after a refill, so within one second it can grant
  twice the capacity.
\<close>

theorem bucket_grants_bounded:
  assumes "bucket_ok b" and "sorted (map unat ts)" and "unat (tb_last_refill b) \<le> s"
    and "\<forall>t \<in> set ts. s \<le> unat t \<and> unat t \<le> T"
  shows "fst (acquire_all ts b) \<le> unat (tb_capacity_per_sec b) * (2 + (T - s) div second)"
proof -
  have "unat (tb_tokens b) \<le> unat (tb_capacity_per_sec b)" using assms(1) by (simp add: bucket_ok_def)
  then show ?thesis using acquire_in_window [OF assms] by (simp add: algebra_simps)
qed

definition burst :: "64 word list" where
  "burst = [999999999, 999999999, 1000000000, 1000000000, 1000000000]"

lemma bucket_grants_bounded_witness:
  "fst (acquire_all burst (bucket_new 2 0)) \<le> 4 \<and> fst (acquire_all burst (bucket_new 2 0)) = 4"
proof
  have ok: "bucket_ok (bucket_new 2 0)" and l: "unat (tb_last_refill (bucket_new 2 0)) \<le> 999999999"
    and c: "unat (tb_capacity_per_sec (bucket_new 2 0)) = 2"
    by (simp_all add: bucket_ok_def bucket_new_def)
  have s: "sorted (map unat burst)" and w: "\<forall>t \<in> set burst. 999999999 \<le> unat t \<and> unat t \<le> 1000000000"
    by (simp_all add: burst_def)
  have "(2 :: nat) + (1000000000 - 999999999) div 1000000000 = 2" by simp
  with bucket_grants_bounded [OF ok s l w] show "fst (acquire_all burst (bucket_new 2 0)) \<le> 4"
    unfolding c by simp
  show "fst (acquire_all burst (bucket_new 2 0)) = 4"
    by (simp add: burst_def bucket_new_def try_acquire_def refill_def saturating_sub_def
        refill_amount_def Let_def)
qed

text \<open>
  The backoff after \<open>n\<close> failures (\<open>n\<close> not negative) is 100 ms doubled \<open>n\<close> times, but at most
  25.6 s; the cap of 32 s is never reached. The retry is due exactly that long after the error.
\<close>

theorem retry_backoff_exact:
  assumes "0 \<le> sint n"
  shows "sint (backoff_ms n) = 100 * 2 ^ min (nat (sint n)) 8 \<and>
    sint (backoff_ms n) \<le> 25600 \<and>
    (should_retry_now t n u \<longleftrightarrow> t + 100 * 2 ^ min (nat (sint n)) 8 \<le> u)"
proof -
  define k where "k = min (nat (sint n)) 8"
  have k: "k \<le> 8" by (simp add: k_def)
  have s: "nat ((if sint n \<le> 8 then sint n else 8) mod 64) = k"
    using assms by (auto simp: k_def min_def)
  have "k \<in> set [0, 1, 2, 3, 4, 5, 6, 7, 8]" using k by (auto simp: le_Suc_eq numeral_eq_Suc)
  moreover have "list_all (\<lambda>k. sint (min (100 * push_bit k 1) 32000 :: 64 word) = 100 * 2 ^ k)
      [0, 1, 2, 3, 4, 5, 6, 7, 8]" by code_simp
  ultimately have "sint (min (100 * push_bit k 1) 32000 :: 64 word) = 100 * 2 ^ k"
    unfolding list_all_iff by blast
  then have b: "sint (backoff_ms n) = 100 * 2 ^ k" by (simp add: backoff_ms_def Let_def s)
  have "(2 :: int) ^ k \<le> 2 ^ 8" using k by (intro power_increasing) auto
  then show ?thesis unfolding should_retry_now_def next_retry_at_def b k_def [symmetric] by simp
qed

lemma retry_backoff_exact_witness: "sint (backoff_ms 10) = 25600 \<and> should_retry_now 0 10 25600"
  using retry_backoff_exact [of 10 0 25600] by simp

lemma refused_before_refill:
  assumes "bucket_ok b" and "0 < tb_capacity_per_sec b" and "fst (acquire_all ts b) = 0"
    and "\<forall>t \<in> set ts. unat (tb_last_refill b) \<le> unat t"
  shows "\<forall>t \<in> set ts. unat t < unat (tb_last_refill b) + second"
  using assms
proof (induction ts arbitrary: b)
  case (Cons t ts)
  have tl: "unat (tb_last_refill b) \<le> unat t" using Cons.prems(4) by simp
  note spec = try_acquire_spec [OF Cons.prems(1) tl]
  define b1 where "b1 = snd (try_acquire t b)"
  have no: "\<not> fst (try_acquire t b)" "fst (acquire_all ts b1) = 0"
    using Cons.prems(3) by (auto simp: b1_def Let_def split: prod.splits if_splits)
  have "0 < unat (tb_capacity_per_sec b)" using Cons.prems(2) by (simp add: word_less_nat_alt)
  then have t: "\<not> second \<le> unat t - unat (tb_last_refill b)" using spec(1) no(1) by auto
  then have b1: "tb_last_refill b1 = tb_last_refill b" "tb_capacity_per_sec b1 = tb_capacity_per_sec b" "bucket_ok b1"
    using spec(3-5) by (simp_all add: b1_def)
  have "\<forall>u \<in> set ts. unat u < unat (tb_last_refill b1) + second"
    using Cons.IH [OF b1(3) _ no(2)] Cons.prems(2,4) by (simp add: b1)
  with t tl show ?case by (auto simp: b1)
qed simp

text \<open>
  A caller that tries every 200 ms (or less often), as the scheduler does, is refused at most
  five times in a row: among any six tries one gets a token, when the capacity is not 0.
\<close>

theorem bucket_waits_bounded:
  assumes "bucket_ok b" and "0 < tb_capacity_per_sec b"
    and "\<forall>t \<in> set ts. unat (tb_last_refill b) \<le> unat t"
    and "sorted_wrt (\<lambda>t u. unat t + 200000000 \<le> unat u) ts" and "length ts = 6"
  shows "0 < fst (acquire_all ts b)"
proof (rule ccontr)
  assume "\<not> 0 < fst (acquire_all ts b)"
  then have late: "\<forall>t \<in> set ts. unat t < unat (tb_last_refill b) + second"
    using refused_before_refill [OF assms(1,2) _ assms(3)] by simp
  obtain t0 t1 t2 t3 t4 t5 where ts: "ts = [t0, t1, t2, t3, t4, t5]"
    using assms(5) by (auto simp: length_Suc_conv numeral_eq_Suc)
  have "unat t0 + second \<le> unat t5" using assms(4) unfolding ts by simp
  with late assms(3) show False unfolding ts by simp
qed

lemma bucket_waits_bounded_witness:
  "0 < fst (acquire_all [0, 200000000, 400000000, 600000000, 800000000, 1000000000]
     ((bucket_new 1 0)\<lparr>tb_tokens := 0\<rparr>))"
  by (rule bucket_waits_bounded) (simp_all add: bucket_ok_def bucket_new_def)

end
