(* ===== verification/Gds_Cycle.thy ===== *)
theory Gds_Cycle
  imports Gds_Transfer Gds_Rate_Limit
begin

text \<open>
  One sync cycle of a folder, the first half of the daemon's scheduler
  (\<open>crates/gds-daemon/src/scheduler/mod.rs\<close>): the state the daemon's tasks share, the fetching of
  all pages of changes, and \<open>run_sync_loop\<close>; and what a cycle keeps when it fails.
\<close>

section \<open>The daemon's state\<close>

datatype signal =
    SyncStarted string string
  | SyncCompleted string string "32 word"
  | SyncErrorSignal string string string
  | ConflictDetected string string
  | StatusChanged string

text \<open>
  The signals sent on the bus (a failed emission is ignored by every caller), the counter of
  running syncs, the rate limiter, and the channel of sync requests with the oldest first. The
  conflict notices of the executor are \<open>w\_notices\<close>; a task of its own forwards them as
  \<open>ConflictDetected\<close>.
\<close>

record 'w daemon =
  dm_world :: "('w, disk) world"
  dm_signals :: "signal list"
  dm_syncing :: "32 word"
  dm_bucket :: token_bucket
  dm_requests :: "string list"

text \<open>
  What the daemon's tasks share and do not change. \<open>sv\_fuel\<close> bounds the directories one scan
  visits; \<open>sv\_db\_text\<close> is the text of a database error.
\<close>

record 'w services =
  sv_env :: "'w env"
  sv_libs :: libs
  sv_codecs :: codecs
  sv_drive_client :: drive_client
  sv_config :: config
  sv_db_text :: "db_error \<Rightarrow> string"
  sv_load_shutdown :: "'w \<Rightarrow> bool \<times> 'w"
  sv_store_pause :: "bool \<Rightarrow> 'w \<Rightarrow> 'w"
  sv_clock :: "'w \<Rightarrow> 64 word \<times> 'w"
  sv_fuel :: nat

definition on_world :: "(('w, disk) world, 'e, 'a) proc \<Rightarrow> ('w daemon, 'e, 'a) proc" where
  "on_world m s = (case m (dm_world s) of (r, w) \<Rightarrow> (r, s\<lparr>dm_world := w\<rparr>))"

definition emit :: "signal \<Rightarrow> ('w daemon, 'e, unit) proc" where
  "emit sg = modp (\<lambda>s. s\<lparr>dm_signals := dm_signals s @ [sg]\<rparr>)"

definition add_syncing :: "32 word \<Rightarrow> ('w daemon, 'e, unit) proc" where
  "add_syncing n = modp (\<lambda>s. s\<lparr>dm_syncing := dm_syncing s + n\<rparr>)"

text \<open>The time for a stored time that is out of range (\<open>unwrap_or_else(Utc::now)\<close>).\<close>

definition fallback_now :: "'w env \<Rightarrow> ('w, 'd) world \<Rightarrow> datetime" where
  "fallback_now E s = fst (env_now E (w_env s))"

definition get_account ::
    "'w services \<Rightarrow> string \<Rightarrow> (('w, 'd) world, sync_error, account option) proc" where
  "get_account V i s = on_db (account_get_by_id (sv_libs V) (fallback_now (sv_env V) s) i) s"

fun folders_of :: "libs \<Rightarrow> account list \<Rightarrow> sync_folder list db_proc" where
  "folders_of L [] = retp []"
| "folders_of L (a # as) =
     seqp (folder_list_by_account L (acc_id a)) (\<lambda>f. seqp (folders_of L as) (\<lambda>fs. retp (f @ fs)))"

definition list_all_folders :: "libs \<Rightarrow> datetime \<Rightarrow> sync_folder list db_proc" where
  "list_all_folders L now = seqp (account_list_all L now) (folders_of L)"

section \<open>All pages of changes\<close>

text \<open>
  The page loop; \<open>None\<close> when it does not end, that is, when the server keeps naming a next page.
\<close>

partial_function (option) fetch_from ::
    "'w env \<Rightarrow> codecs \<Rightarrow> drive_client \<Rightarrow> string \<Rightarrow> string \<Rightarrow> drive_change list \<Rightarrow> string option \<Rightarrow>
     'w \<Rightarrow> ((sync_error + change_set) \<times> 'w) option" where
  "fetch_from E K c token page_token all_changes new_start w =
     (case changes_list E K c token page_token None CHANGES_FIELDS False False w of
        (Inl e, w1) \<Rightarrow> Some (Inl e, w1)
      | (Inr cs, w1) \<Rightarrow>
          let all_changes' = all_changes @ cs_changes cs;
              new_start' = (if cs_new_start_page_token cs \<noteq> None then cs_new_start_page_token cs else new_start)
          in case cs_next_page_token cs of
               Some next \<Rightarrow> fetch_from E K c token next all_changes' new_start' w1
             | None \<Rightarrow> Some (Inr \<lparr>cs_next_page_token = None, cs_new_start_page_token = new_start',
                   cs_changes = all_changes'\<rparr>, w1))"

declare fetch_from.simps [code]

definition fetch_all_changes ::
    "'w env \<Rightarrow> codecs \<Rightarrow> drive_client \<Rightarrow> string \<Rightarrow> string \<Rightarrow> ('w, sync_error, change_set option) proc" where
  "fetch_all_changes E K c token start_page_token w =
     (case fetch_from E K c token start_page_token [] None w of
        None \<Rightarrow> (Inr None, w)
      | Some (Inl e, w1) \<Rightarrow> (Inl e, w1)
      | Some (Inr cs, w1) \<Rightarrow> (Inr (Some cs), w1))"

section \<open>One cycle\<close>

definition pause_status :: "'w env \<Rightarrow> ('w daemon, sync_error, string) proc" where
  "pause_status E =
     seqp (on_world (on_env (okp (env_pause E)))) (\<lambda>paused. retp (if paused then ''paused'' else ''idle''))"

text \<open>The end of a sync whose run of the queue failed, and of one that succeeded.\<close>

definition report_failure ::
    "'w services \<Rightarrow> sync_folder \<Rightarrow> sync_error \<Rightarrow> ('w daemon, sync_error, 32 word option) proc" where
  "report_failure V folder e =
     seqp (add_syncing (- 1)) (\<lambda>_.
     seqp (pause_status (sv_env V)) (\<lambda>status.
     seqp (emit (StatusChanged status)) (\<lambda>_.
     seqp (emit (SyncErrorSignal (sf_account_id folder) (sf_local_path folder)
                  (sync_error_display (sv_db_text V) e))) (\<lambda>_.
     failp e))))"

definition report_success ::
    "'w services \<Rightarrow> sync_folder \<Rightarrow> change_set \<Rightarrow> 32 word \<Rightarrow> ('w daemon, sync_error, 32 word option) proc" where
  "report_success V folder merged executed =
     seqp (add_syncing (- 1)) (\<lambda>_.
     seqp (pause_status (sv_env V)) (\<lambda>status.
     seqp (emit (SyncCompleted (sf_account_id folder) (sf_local_path folder) executed)) (\<lambda>_.
     seqp (emit (StatusChanged status)) (\<lambda>_.
     seqp (case cs_new_start_page_token merged of
             Some new_token \<Rightarrow>
               on_world (on_db (folder_update_page_token (sf_id folder) (Some new_token)))
           | None \<Rightarrow> retp ()) (\<lambda>_.
     retp (Some executed))))))"

text \<open>From the executor's run to the end of \<open>run_sync_loop\<close>.\<close>

definition run_and_report ::
    "'w services \<Rightarrow> account \<Rightarrow> sync_folder \<Rightarrow> change_set \<Rightarrow> sync_queue \<Rightarrow>
     ('w daemon, sync_error, 32 word option) proc" where
  "run_and_report V account folder merged queue s =
     (let executor = with_conflict_notifier
            (executor_new (sv_drive_client V) (acc_keyring_key account) (sv_config V));
          (r, q, w) = run_queue (sv_env V) (tokio_local_fs (sv_libs V)) (sv_libs V) (sv_codecs V)
            executor folder queue (dm_world s);
          s1 = s\<lparr>dm_world := w\<rparr>
      in case r of
           Inl e \<Rightarrow> report_failure V folder e s1
         | Inr None \<Rightarrow> (Inr None, s1)
         | Inr (Some executed) \<Rightarrow> report_success V folder merged executed s1)"

definition ensure_start_token ::
    "'w services \<Rightarrow> string \<Rightarrow> sync_folder \<Rightarrow> ('w daemon, sync_error, sync_folder) proc" where
  "ensure_start_token V token folder =
     (case sf_start_page_token folder of
        Some _ \<Rightarrow> retp folder
      | None \<Rightarrow>
          seqp (on_world (on_env (changes_get_start_page_token (sv_env V) (sv_codecs V)
                  (sv_drive_client V) token None))) (\<lambda>start.
          seqp (on_world (on_db (folder_update_page_token (sf_id folder) (Some start)))) (\<lambda>_.
          retp (folder\<lparr>sf_start_page_token := Some start\<rparr>))))"

text \<open>
  From the page token on, and the whole cycle. The result is \<open>None\<close> when one of the loops inside
  does not end.
\<close>

definition sync_from_token ::
    "'w services \<Rightarrow> account \<Rightarrow> string \<Rightarrow> sync_folder \<Rightarrow> ('w daemon, sync_error, 32 word option) proc" where
  "sync_from_token V account token folder =
     (let E = sv_env V; L = sv_libs V; K = sv_codecs V; c = sv_drive_client V in
      seqp (need ''missing start_page_token'' (sf_start_page_token folder)) (\<lambda>page_token.
      seqp (on_world (on_env (fetch_all_changes E K c token page_token))) (\<lambda>fetched.
      case fetched of
        None \<Rightarrow> retp None
      | Some merged \<Rightarrow>
          seqp (on_world (compute_local_changes (sv_fuel V) (tokio_local_fs L) L
                  (path_of (sf_local_path folder)) folder)) (\<lambda>scanned.
          case scanned of
            None \<Rightarrow> retp None
          | Some local_actions \<Rightarrow>
              seqp (on_world (compute_remote_changes L folder merged)) (\<lambda>remote_actions.
              seqp (add_syncing 1) (\<lambda>_.
              seqp (emit (SyncStarted (sf_account_id folder) (sf_local_path folder))) (\<lambda>_.
              seqp (emit (StatusChanged ''syncing'')) (\<lambda>_.
              run_and_report V account folder merged
                (from_actions (merge_actions local_actions remote_actions))))))))))"

definition run_sync_loop ::
    "'w services \<Rightarrow> sync_folder \<Rightarrow> ('w daemon, sync_error, 32 word option) proc" where
  "run_sync_loop V sync_folder =
     seqp (on_world (get_account V (sf_account_id sync_folder))) (\<lambda>found.
     case found of
       None \<Rightarrow> failp (AuthError (''account '' @ sf_account_id sync_folder @ '' not found''))
     | Some account \<Rightarrow>
         seqp (on_world (get_valid_access_token (sv_env V) (sv_libs V) (acc_keyring_key account))) (\<lambda>token.
         seqp (ensure_start_token V token sync_folder) (\<lambda>folder.
         sync_from_token V account token folder)))"

section \<open>The pages of changes\<close>

text \<open>The answers of a run of \<open>changes_list\<close> calls, each for the token the one before named as next.\<close>

inductive page_chain ::
    "'w env \<Rightarrow> codecs \<Rightarrow> drive_client \<Rightarrow> string \<Rightarrow> string \<Rightarrow> 'w \<Rightarrow> change_set list \<Rightarrow> 'w \<Rightarrow> bool"
  for E K c token where
  last: "changes_list E K c token p None CHANGES_FIELDS False False w = (Inr cs, w1) \<Longrightarrow>
    cs_next_page_token cs = None \<Longrightarrow> page_chain E K c token p w [cs] w1"
| more: "changes_list E K c token p None CHANGES_FIELDS False False w = (Inr cs, w1) \<Longrightarrow>
    cs_next_page_token cs = Some q \<Longrightarrow> page_chain E K c token q w1 css w2 \<Longrightarrow>
    page_chain E K c token p w (cs # css) w2"

text \<open>The last new start token the pages carry.\<close>

definition last_start :: "string option \<Rightarrow> change_set list \<Rightarrow> string option" where
  "last_start t css = foldl (\<lambda>t cs. if cs_new_start_page_token cs \<noteq> None
     then cs_new_start_page_token cs else t) t css"

definition merged_pages :: "drive_change list \<Rightarrow> string option \<Rightarrow> change_set list \<Rightarrow> change_set" where
  "merged_pages earlier t css = \<lparr>cs_next_page_token = None, cs_new_start_page_token = last_start t css,
     cs_changes = earlier @ concat (map cs_changes css)\<rparr>"

lemma fetch_of_chain:
  assumes "page_chain E K c token p w css w'"
  shows "fetch_from E K c token p before t w = Some (Inr (merged_pages before t css), w')"
  using assms
proof (induction arbitrary: before t rule: page_chain.induct)
  case (last p w cs w1)
  then show ?case by (subst fetch_from.simps) (simp add: merged_pages_def last_start_def Let_def)
next
  case (more p w cs w1 q css w2)
  show ?case
    by (subst fetch_from.simps)
      (simp add: more.hyps(1,2) more.IH Let_def, simp add: merged_pages_def last_start_def)
qed

lemma chain_of_fetch:
  assumes "fetch_from E K c token p before t w = Some (Inr r, w')"
  shows "\<exists>css. page_chain E K c token p w css w' \<and> r = merged_pages before t css"
proof -
  have "\<forall>r'. fst y = Inr r' \<longrightarrow>
      (\<exists>css. page_chain E K c token p w css (snd y) \<and> r' = merged_pages before t css)"
    if "fetch_from E K c token p before t w = Some y" for y
    using that
  proof (induction rule: fetch_from.raw_induct [rotated, consumes 1, case_names step])
    case (step fetch E K c token p before t w y)
    note IH = step(1) and body = step(2)
    obtain x w1 where call: "changes_list E K c token p None CHANGES_FIELDS False False w = (x, w1)"
      by (cases "changes_list E K c token p None CHANGES_FIELDS False False w")
    show ?case
    proof (cases x)
      case (Inl e)
      with body call show ?thesis by auto
    next
      case (Inr cs)
      show ?thesis
      proof (cases "cs_next_page_token cs")
        case None
        then have "page_chain E K c token p w [cs] w1" using call Inr by (auto intro: page_chain.last)
        with body call Inr None show ?thesis
          by (auto simp: Let_def merged_pages_def last_start_def intro!: exI [of _ "[cs]"])
      next
        case (Some q)
        let ?t = "if cs_new_start_page_token cs \<noteq> None then cs_new_start_page_token cs else t"
        from body call Inr Some have "fetch E K c token q (before @ cs_changes cs) ?t w1 = Some y"
          by (simp add: Let_def)
        from IH [OF this] show ?thesis
          using page_chain.more [of E K c token p w cs w1 q, OF _ Some] call Inr
          by (fastforce simp: merged_pages_def last_start_def)
      qed
    qed
  qed
  from this [OF assms] show ?thesis by simp
qed

section \<open>What a cycle keeps\<close>

lemma pres_on_world [proc_pres]: "pres I m \<Longrightarrow> pres (\<lambda>s. I (dm_world s)) (on_world m)"
  by (fastforce simp: pres_def on_world_def split: prod.splits)

lemma pres_syncing_on_world [proc_pres]: "pres (\<lambda>s. I (dm_syncing s)) (on_world m)"
  by (simp add: pres_def on_world_def split: prod.splits)

lemma pres_emit [proc_pres]:
  "pres (\<lambda>s. I (dm_world s)) (emit sg)" "pres (\<lambda>s. J (dm_syncing s)) (emit sg)"
  by (simp_all add: pres_def emit_def modp_def)

lemma pres_add_syncing [proc_pres]: "pres (\<lambda>s. I (dm_world s)) (add_syncing n)"
  by (simp add: pres_def add_syncing_def modp_def)

lemma pres_pause_status [proc_pres]:
  "pres (\<lambda>s. I (w_db (dm_world s))) (pause_status E)" "pres (\<lambda>s. J (dm_syncing s)) (pause_status E)"
  unfolding pause_status_def
  by (intro pres_seqp pres_on_world [where I = "\<lambda>w. I (w_db w)"] pres_syncing_on_world proc_pres)+

lemma pres_db_read: "(\<And>db. snd (m db) = db) \<Longrightarrow> pres (\<lambda>s. I (w_db s)) (on_db m)"
  by (simp add: pres_def on_db_apply)

lemma pres_get_account [proc_pres]: "pres (\<lambda>s. I (w_db s)) (get_account V i)"
  by (simp add: pres_def get_account_def on_db_apply account_get_by_id_def getp_def)

lemma pres_local_changes [proc_pres]: "pres (\<lambda>s. I (w_db s)) (compute_local_changes fuel FS L root folder)"
  unfolding compute_local_changes_def Let_def
  by (intro proc_pres pres_db_read) (simp add: fs_list_by_folder_def)

lemma pres_consp: "pres I m \<Longrightarrow> pres I (consp x m)"
  unfolding consp_def by (intro proc_pres)

lemma pres_remote_steps: "pres (\<lambda>s. I (w_db s)) (remote_changes L folder by_id paths changes)"
proof (induction changes arbitrary: paths)
  case Nil
  show ?case unfolding remote_changes.simps by (rule pres_retp)
next
  case (Cons change changes)
  have read: "pres (\<lambda>s. I (w_db s)) (on_db (fs_get_by_path L f p))" for f p
    by (rule pres_db_read) (simp add: fs_get_by_path_def split: option.splits)
  show ?case
    unfolding remote_changes.simps by (intro proc_pres pres_consp read Cons.IH)
qed

lemma pres_remote_changes [proc_pres]: "pres (\<lambda>s. I (w_db s)) (compute_remote_changes L folder cs)"
  unfolding compute_remote_changes_def Let_def
  by (intro proc_pres pres_remote_steps pres_db_read) (simp add: fs_list_by_folder_def)

text \<open>The rows of synced folders, and how many syncs run.\<close>

abbreviation folder_rows :: "'w daemon \<Rightarrow> sync_folder_row list" where
  "folder_rows s \<equiv> db_sync_folders (w_db (dm_world s))"

lemma keeps_page_token [fail_rules]:
  "keeps (\<lambda>s. I (w_db (dm_world s))) isl (on_world (on_db (folder_update_page_token i t)))"
  by (auto simp: keeps_def on_world_def on_db_apply folder_update_page_token_def folder_update_def
      stmt_def split: if_splits)

lemma pres_page_token_file_states:
  "pres (\<lambda>s. I (db_file_states (w_db (dm_world s)))) (on_world (on_db (folder_update_page_token i t)))"
  by (simp add: pres_def on_world_def on_db_apply folder_update_page_token_def folder_update_def stmt_def)

lemma pres_rows_statements:
  "pres (\<lambda>db. I (db_sync_folders db)) (fs_upsert L st)" "pres (\<lambda>db. I (db_sync_folders db)) (fs_delete i)"
  by (simp_all add: pres_def fs_upsert_def upsert_row_def fs_delete_def stmt_def)

lemma run_queue_rows:
  assumes "run_queue E FS L K ex folder q s = (r, q', s')"
  shows "db_sync_folders (w_db s') = db_sync_folders (w_db s)"
  using run_loop_pres [where I = "\<lambda>db. db_sync_folders db = db_sync_folders (w_db s)",
      OF pres_rows_statements refl assms [unfolded run_queue_def]] .

lemma report_rows [fail_rules]:
  "keeps (\<lambda>s. I (w_db (dm_world s))) isl (report_failure V folder e)"
  "keeps (\<lambda>s. I (w_db (dm_world s))) isl (report_success V folder merged n)"
proof -
  note pres = pres_pause_status pres_emit(1) pres_add_syncing
  show "keeps (\<lambda>s. I (w_db (dm_world s))) isl (report_failure V folder e)"
    unfolding report_failure_def by (intro fail_rules pres)
  have tok: "keeps (\<lambda>s. I (w_db (dm_world s))) isl (seqp (case t of
      Some tok \<Rightarrow> on_world (on_db (folder_update_page_token i (Some tok))) | None \<Rightarrow> retp ()) (\<lambda>_. retp (Some n)))"
    for t i
    by (rule keeps_then, intro fail_rules, simp add: retp_def)
  show "keeps (\<lambda>s. I (w_db (dm_world s))) isl (report_success V folder merged n)"
    unfolding report_success_def by (rule keeps_seqp pres tok)+
qed

lemma run_and_report_cases:
  assumes "run_and_report V account folder merged queue s = (r, t)"
  obtains (failure) w e where "db_sync_folders (w_db w) = folder_rows s"
      and "report_failure V folder e (s\<lparr>dm_world := w\<rparr>) = (r, t)"
  | (stuck) "r = Inr None"
  | (success) w n where "db_sync_folders (w_db w) = folder_rows s"
      and "report_success V folder merged n (s\<lparr>dm_world := w\<rparr>) = (r, t)"
proof -
  let ?ex = "with_conflict_notifier (executor_new (sv_drive_client V) (acc_keyring_key account) (sv_config V))"
  obtain x q w where q: "run_queue (sv_env V) (tokio_local_fs (sv_libs V)) (sv_libs V) (sv_codecs V) ?ex
      folder queue (dm_world s) = (x, q, w)" by (metis prod_cases3)
  show thesis
  proof (cases x)
    case (Inl e)
    then show thesis using assms run_queue_rows [OF q] by (intro failure) (auto simp: run_and_report_def Let_def q)
  next
    case (Inr n)
    show thesis
    proof (cases n)
      case None
      then show thesis using assms Inr by (intro stuck) (simp add: run_and_report_def Let_def q)
    next
      case (Some k)
      then show thesis using assms Inr run_queue_rows [OF q]
        by (intro success) (auto simp: run_and_report_def Let_def q)
    qed
  qed
qed

lemma keeps_report [fail_rules]:
  "keeps (\<lambda>s. folder_rows s = rows) isl (run_and_report V account folder merged queue)"
  unfolding keeps_def
proof (intro allI impI)
  fix s r t
  assume J: "folder_rows s = rows" and run: "run_and_report V account folder merged queue s = (r, t)" and e: "isl r"
  note I = report_rows [where I = "\<lambda>db. db_sync_folders db = rows" and V = V and folder = folder]
  from run show "folder_rows t = rows"
  proof (cases rule: run_and_report_cases)
    case (failure w err)
    have "folder_rows (s\<lparr>dm_world := w\<rparr>) = rows" using failure(1) J by simp
    then show ?thesis by (rule keepsD [OF I(1) _ failure(2) e])
  next
    case stuck
    with e show ?thesis by simp
  next
    case (success w n)
    have "folder_rows (s\<lparr>dm_world := w\<rparr>) = rows" using success(1) J by simp
    then show ?thesis by (rule keepsD [OF I(2) _ success(2) e])
  qed
qed

lemma reports_syncing:
  "report_failure V folder e s = (r, t) \<Longrightarrow> dm_syncing t = dm_syncing s - 1"
  "report_success V folder merged n s = (r, t) \<Longrightarrow> dm_syncing t = dm_syncing s - 1"
proof -
  let ?J = "\<lambda>s' :: 'a daemon. dm_syncing s' = dm_syncing s - 1"
  have J0: "?J (s\<lparr>dm_syncing := dm_syncing s - 1\<rparr>)" by simp
  have sub: "seqp (add_syncing (- 1)) f s = f () (s\<lparr>dm_syncing := dm_syncing s - 1\<rparr>)"
    for f :: "unit \<Rightarrow> ('a daemon, sync_error, 32 word option) proc"
    by (simp add: seqp_def add_syncing_def modp_def)
  note J = pres_pause_status(2) pres_emit(2) pres_syncing_on_world pres_retp pres_failp pres_case_option
  show "report_failure V folder e s = (r, t) \<Longrightarrow> dm_syncing t = dm_syncing s - 1"
    unfolding report_failure_def sub by (erule presD [where I = ?J, OF _ J0, rotated]) (rule pres_seqp J)+
  show "report_success V folder merged n s = (r, t) \<Longrightarrow> dm_syncing t = dm_syncing s - 1"
    unfolding report_success_def sub by (erule presD [where I = ?J, OF _ J0, rotated]) (rule pres_seqp J)+
qed

lemma report_syncing:
  assumes "run_and_report V account folder merged queue s = (r, t)" and "r \<noteq> Inr None"
  shows "dm_syncing t = dm_syncing s - 1"
  using assms(1) by (cases rule: run_and_report_cases) (use assms(2) in \<open>auto dest: reports_syncing\<close>)

lemma sync_from_token_rows [fail_rules]:
  "keeps (\<lambda>s. folder_rows s = rows) isl (sync_from_token V account token folder)"
  unfolding sync_from_token_def Let_def
  by (intro fail_rules pres_need pres_add_syncing pres_emit(1)
      pres_on_world [where I = "\<lambda>w. db_sync_folders (w_db w) = rows"] pres_on_env
      pres_local_changes [where I = "\<lambda>db. db_sync_folders db = rows"]
      pres_remote_changes [where I = "\<lambda>db. db_sync_folders db = rows"])

text \<open>The rows with the start token of one folder replaced.\<close>

definition with_start_token :: "string \<Rightarrow> string option \<Rightarrow> sync_folder_row list \<Rightarrow> sync_folder_row list" where
  "with_start_token i t rows = map (\<lambda>r. if sr_id r = i then r\<lparr>sr_start_page_token := t\<rparr> else r) rows"

lemma update_page_token_rows:
  "on_world (on_db (folder_update_page_token i t)) s = (Inr x, s') \<Longrightarrow>
   folder_rows s' = with_start_token i t (folder_rows s) \<and>
   db_file_states (w_db (dm_world s')) = db_file_states (w_db (dm_world s))"
  by (auto simp: on_world_def on_db_apply folder_update_page_token_def folder_update_def stmt_def
      with_start_token_def split: if_splits)

lemma ensure_start_token_rows:
  assumes "ensure_start_token V token folder s = (r, s')"
  shows "folder_rows s' = folder_rows s \<or> (\<exists>start f. sf_start_page_token folder = None \<and> r = Inr f \<and>
    folder_rows s' = with_start_token (sf_id folder) (Some start) (folder_rows s))"
proof (cases "sf_start_page_token folder")
  case (Some t)
  with assms show ?thesis by (simp add: ensure_start_token_def retp_def)
next
  case None
  let ?m = "\<lambda>start. seqp (on_world (on_db (folder_update_page_token (sf_id folder) (Some start))))
    (\<lambda>_. retp (folder\<lparr>sf_start_page_token := Some start\<rparr>))"
  have env: "folder_rows u = folder_rows s" if "on_world (on_env m) s = (x, u)"
    for m :: "('a, sync_error, string) proc" and x u
    using that by (auto simp: on_world_def on_env_apply)
  show ?thesis
  proof (cases r)
    case (Inl e)
    have "keeps (\<lambda>u. folder_rows u = folder_rows s) isl (ensure_start_token V token folder)"
      unfolding ensure_start_token_def None option.case
      by (rule keeps_seqp, rule pres_on_world [where I = "\<lambda>w. db_sync_folders (w_db w) = folder_rows s"],
          rule pres_on_env, rule keeps_then, rule keeps_page_token) (simp add: retp_def)
    from keepsD [OF this refl assms] show ?thesis by (simp add: Inl)
  next
    case (Inr f)
    from assms obtain start u where "on_world (on_env (changes_get_start_page_token (sv_env V) (sv_codecs V)
        (sv_drive_client V) token None)) s = (Inr start, u)" and "?m start u = (Inr f, s')"
      unfolding ensure_start_token_def None option.case Inr by (rule seqp_InrE)
    from env [OF this(1)] this(2) show ?thesis
      using None Inr by (auto elim!: seqp_InrE dest!: update_page_token_rows simp: retp_def)
  qed
qed

lemma with_start_token_twice [simp]:
  "with_start_token i t (with_start_token i u rows) = with_start_token i t rows"
  by (simp add: with_start_token_def)

lemma paused_run:
  assumes "\<And>w. env_pause E w = (True, w)" and "run_queue E FS L K ex folder q s = (r, q', s')"
  shows "r = Inr (Some 0) \<and> s' = s"
  using assms
  by (auto simp: run_queue_def run_loop.simps [where queue = q] queue_pop_def split: list.splits)

lemma failed_sync_rows:
  assumes "run_sync_loop V folder s = (Inl e, s')"
  shows "folder_rows s' = folder_rows s \<or>
    sf_start_page_token folder = None \<and>
      (\<exists>start. folder_rows s' = with_start_token (sf_id folder) (Some start) (folder_rows s))"
proof -
  let ?P = "\<lambda>rows. rows = folder_rows s \<or> sf_start_page_token folder = None \<and>
      (\<exists>start. rows = with_start_token (sf_id folder) (Some start) (folder_rows s))"
  have start: "pres (\<lambda>s. ?P (folder_rows s)) (ensure_start_token V token folder)" for token
  proof (rule presI)
    fix u :: "'a daemon"
    assume P: "?P (folder_rows u)"
    obtain r u' where e: "ensure_start_token V token folder u = (r, u')" by (metis surj_pair)
    show "?P (folder_rows (snd (ensure_start_token V token folder u)))"
      using ensure_start_token_rows [OF e] P unfolding e snd_conv by (elim disjE exE conjE) auto
  qed
  have rest: "keeps (\<lambda>s. ?P (folder_rows s)) isl (sync_from_token V account token f)" for account token f
    by (rule keeps_value [where I = ?P]) (rule sync_from_token_rows)
  have "keeps (\<lambda>s. ?P (folder_rows s)) isl (run_sync_loop V folder)"
    unfolding run_sync_loop_def
    by (intro fail_rules rest start pres_on_world [where I = "\<lambda>w. ?P (db_sync_folders (w_db w))"]
        pres_get_account [where I = "\<lambda>db. ?P (db_sync_folders db)"]
        pres_access_token [where I = "\<lambda>db. ?P (db_sync_folders db)"])
  from keepsD [OF this _ assms] show ?thesis by simp
qed

lemma cycle_syncing:
  assumes "run_sync_loop V folder s = (r, s')" and "r \<noteq> Inr None"
  shows "dm_syncing s' = dm_syncing s"
proof -
  let ?J = "\<lambda>s' :: 'a daemon. dm_syncing s' = dm_syncing s" and ?K = "\<lambda>r. r \<noteq> Inr None"
  have run: "keeps ?J ?K (seqp (add_syncing 1) (\<lambda>_. seqp (emit a) (\<lambda>_. seqp (emit b) (\<lambda>_.
      run_and_report V account f merged q))))" for a b account f merged q
    unfolding keeps_def
    by (auto simp: seqp_def add_syncing_def emit_def modp_def dest!: report_syncing)
  have world: "pres ?J (on_world m)" for m :: "(('a, disk) world, sync_error, 'b) proc"
    by (rule pres_syncing_on_world)
  have need: "pres ?J (need msg z)" for msg and z :: "string option" by (rule pres_need)
  have start: "pres ?J (ensure_start_token V token f)" for token f
    unfolding ensure_start_token_def by (intro proc_pres world)
  have "keeps ?J ?K (run_sync_loop V folder)"
    unfolding run_sync_loop_def sync_from_token_def Let_def
    by (intro run fail_rules world need start)
  from keepsD [OF this refl assms(1)] assms(2) show ?thesis by simp
qed

section \<open>Properties\<close>

text \<open>
  C27: fetching all changes returns a change set exactly when the server's answers form a finite
  chain of pages, each asked for with the token the one before named; the set holds the changes of
  all pages in order, none dropped or repeated, and the last new start token among them.
\<close>

theorem fetch_all_changes_exact:
  "fetch_all_changes E K c token p w = (Inr (Some r), w') \<longleftrightarrow>
   (\<exists>css. page_chain E K c token p w css w' \<and>
      r = \<lparr>cs_next_page_token = None, cs_new_start_page_token = last_start None css,
           cs_changes = concat (map cs_changes css)\<rparr>)"
proof -
  have "fetch_all_changes E K c token p w = (Inr (Some r), w') \<longleftrightarrow>
      fetch_from E K c token p [] None w = Some (Inr r, w')"
    by (auto simp: fetch_all_changes_def split: option.splits sum.splits)
  also have "\<dots> \<longleftrightarrow> (\<exists>css. page_chain E K c token p w css w' \<and> r = merged_pages [] None css)"
    by (auto dest: chain_of_fetch intro: fetch_of_chain)
  finally show ?thesis by (simp add: merged_pages_def)
qed

text \<open>
  C28: a cycle that fails, at whatever step, leaves the rows of the synced folders as they were, so
  the next cycle reads the changes from the same page token again, from the first page, also when
  several pages were fetched or some actions executed before the failure. The one exception is a folder that
  had no page token yet: it may have got its first one.
\<close>

theorem failed_sync_keeps_page_token:
  assumes "run_sync_loop V folder s = (Inl e, s')"
  shows "folder_rows s' = folder_rows s \<or>
    sf_start_page_token folder = None \<and>
      (\<exists>start. folder_rows s' = with_start_token (sf_id folder) (Some start) (folder_rows s))"
  using assms by (rule failed_sync_rows)

text \<open>
  The counter of running syncs comes back to its value whenever a cycle returns, also with an
  error at any step.
\<close>

theorem sync_counter_balanced:
  assumes "run_sync_loop V folder s = (r, s')" and "r \<noteq> Inr None"
  shows "dm_syncing s' = dm_syncing s"
  using assms by (rule cycle_syncing)

text \<open>The steps of a cycle before and after its queue that leave the database alone.\<close>

definition db_is :: "db \<Rightarrow> 'w daemon \<Rightarrow> bool" where
  "db_is db s \<longleftrightarrow> w_db (dm_world s) = db"

lemma pres_db_is:
  "pres (db_is db) (on_world (get_account V i))"
  "pres (db_is db) (on_world (get_valid_access_token E L key))"
  "pres (db_is db) (on_world (on_env m))"
  "pres (db_is db) (on_world (compute_local_changes fuel FS L root folder))"
  "pres (db_is db) (on_world (compute_remote_changes L folder cs))"
  "pres (db_is db) (emit sg)" "pres (db_is db) (add_syncing n)" "pres (db_is db) (pause_status E)"
  unfolding db_is_def
  by (rule pres_on_world [where I = "\<lambda>w. w_db w = db"] pres_emit(1) pres_add_syncing pres_pause_status(1)
      pres_get_account pres_access_token pres_on_env pres_local_changes pres_remote_changes)+

lemma report_success_rows:
  assumes "report_success V folder merged n s = (Inr x, s')"
  shows "x = Some n \<and> db_file_states (w_db (dm_world s')) = db_file_states (w_db (dm_world s)) \<and>
    folder_rows s' = (case cs_new_start_page_token merged of None \<Rightarrow> folder_rows s
      | Some t \<Rightarrow> with_start_token (sf_id folder) (Some t) (folder_rows s))"
proof -
  have J: "db_is (w_db (dm_world s)) s" by (simp add: db_is_def)
  from assms [unfolded report_success_def] obtain u y where u: "db_is (w_db (dm_world s)) u"
    and y: "(case cs_new_start_page_token merged of
         Some new_token \<Rightarrow> on_world (on_db (folder_update_page_token (sf_id folder) (Some new_token)))
       | None \<Rightarrow> retp ()) u = (Inr y, s')" and x: "x = Some n"
    by (elim seqp_presE [OF _ pres_db_is(7) J] seqp_presE [OF _ pres_db_is(8)]
        seqp_presE [OF _ pres_db_is(6)] seqp_InrE) (auto simp: retp_def)
  from y show ?thesis
    using u x by (auto simp: retp_def db_is_def dest!: update_page_token_rows split: option.splits)
qed

text \<open>What the steps before the scan keep of a world, and the reads of the database.\<close>

definition still :: "disk \<Rightarrow> db \<Rightarrow> (string \<times> string) list \<Rightarrow> ('w, disk) world \<Rightarrow> bool" where
  "still d db notices u \<longleftrightarrow> w_disk u = d \<and> w_db u = db \<and> w_notices u = notices"

lemma pres_still:
  "pres (still d db notices) (get_account V i)"
  "pres (still d db notices) (get_valid_access_token E L key)"
  "pres (still d db notices) (on_env m)"
proof -
  show "pres (still d db notices) (get_account V i)"
    by (simp add: pres_def still_def get_account_def on_db_apply account_get_by_id_def getp_def)
  show "pres (still d db notices) (on_env m)"
    by (simp add: pres_def still_def on_env_apply)
  show "pres (still d db notices) (get_valid_access_token E L key)"
    unfolding pres_def still_def by (metis prod.collapse token_quiet)
qed

lemma pres_any_read: "(\<And>db. snd (m db) = db) \<Longrightarrow> pres I (on_db m)"
  by (simp add: pres_def on_db_apply)

lemma pres_remote_any: "pres I (remote_changes L folder known paths changes)"
proof (induction changes arbitrary: paths)
  case Nil
  show ?case unfolding remote_changes.simps by (rule pres_retp)
next
  case (Cons change changes)
  have read: "pres I (on_db (fs_get_by_path L f p))" for f p
    by (rule pres_any_read) (simp add: fs_get_by_path_def split: option.splits)
  show ?case
    unfolding remote_changes.simps by (intro proc_pres pres_consp read Cons.IH)
qed

lemma remote_changes_read_only:
  assumes "compute_remote_changes L folder cs s = (r, s')"
  shows "s' = s"
proof -
  have "pres (\<lambda>u. u = s) (compute_remote_changes L folder cs)"
    unfolding compute_remote_changes_def Let_def
    by (intro proc_pres pres_remote_any pres_any_read) (simp add: fs_list_by_folder_def)
  from presD [OF this refl assms] show ?thesis .
qed

lemma on_worldD: "on_world m s = (r, s') \<Longrightarrow> \<exists>w. m (dm_world s) = (r, w) \<and> s' = s\<lparr>dm_world := w\<rparr>"
  by (auto simp: on_world_def split: prod.splits)

lemma signalsD:
  "emit sg s = (r, s') \<Longrightarrow> dm_world s' = dm_world s"
  "add_syncing n s = (r, s') \<Longrightarrow> dm_world s' = dm_world s"
  by (auto simp: emit_def add_syncing_def modp_def)

text \<open>The steps of a cycle of a folder with a page token that returned a number.\<close>

lemma cycle_steps:
  assumes run: "run_sync_loop V folder s = (Inr (Some n), s')" and tok: "sf_start_page_token folder = Some p"
  obtains account token w w' merged u la v ra t
  where "fetch_all_changes (sv_env V) (sv_codecs V) (sv_drive_client V) token p w = (Inr (Some merged), w')"
    and "still (w_disk (dm_world s)) (w_db (dm_world s)) (w_notices (dm_world s)) u"
    and "compute_local_changes (sv_fuel V) (tokio_local_fs (sv_libs V)) (sv_libs V)
      (path_of (sf_local_path folder)) folder u = (Inr (Some la), v)"
    and "compute_remote_changes (sv_libs V) folder merged v = (Inr ra, v)" and "dm_world t = v"
    and "run_and_report V account folder merged (from_actions (merge_actions la ra)) t = (Inr (Some n), s')"
proof -
  let ?J = "\<lambda>u :: 'a daemon. still (w_disk (dm_world s)) (w_db (dm_world s)) (w_notices (dm_world s)) (dm_world u)"
  have J: "?J s" by (simp add: still_def)
  note quiet = pres_still [THEN pres_on_world]
  obtain account token v where J2: "?J v"
    and v: "sync_from_token V account token folder v = (Inr (Some n), s')"
    using run unfolding run_sync_loop_def ensure_start_token_def tok option.case seqp_retp
    by (elim seqp_presE [OF _ quiet(1) J])
      (auto simp: failp_def split: option.splits elim!: seqp_presE [OF _ quiet(2)])
  have "need ''missing start_page_token'' (sf_start_page_token folder) = retp p"
    by (simp add: need_def tok)
  note v = v [unfolded sync_from_token_def Let_def this seqp_retp]
  from v obtain fetched u where u: "on_world (on_env (fetch_all_changes (sv_env V) (sv_codecs V)
      (sv_drive_client V) token p)) v = (Inr fetched, u)" and Ju: "?J u"
    and rest: "(case fetched of None \<Rightarrow> retp None | Some merged \<Rightarrow>
        seqp (on_world (compute_local_changes (sv_fuel V) (tokio_local_fs (sv_libs V)) (sv_libs V)
          (path_of (sf_local_path folder)) folder)) (\<lambda>scanned. case scanned of None \<Rightarrow> retp None
        | Some local_actions \<Rightarrow> seqp (on_world (compute_remote_changes (sv_libs V) folder merged)) (\<lambda>remote_actions.
            seqp (add_syncing 1) (\<lambda>_. seqp (emit (SyncStarted (sf_account_id folder) (sf_local_path folder))) (\<lambda>_.
            seqp (emit (StatusChanged ''syncing'')) (\<lambda>_. run_and_report V account folder merged
              (from_actions (merge_actions local_actions remote_actions)))))))) u = (Inr (Some n), s')"
    by (rule seqp_presE [OF _ quiet(3) J2])
  obtain merged where f: "fetched = Some merged" using rest by (cases fetched) (auto simp: retp_def)
  have fetch: "fetch_all_changes (sv_env V) (sv_codecs V) (sv_drive_client V) token p (w_env (dm_world v)) =
      (Inr (Some merged), w_env (dm_world u))"
    using u f by (auto simp: on_world_def on_env_def split: prod.splits)
  from rest [unfolded f option.case] obtain scanned x where
    x: "on_world (compute_local_changes (sv_fuel V) (tokio_local_fs (sv_libs V)) (sv_libs V)
      (path_of (sf_local_path folder)) folder) u = (Inr scanned, x)"
    and rest2: "(case scanned of None \<Rightarrow> retp None
        | Some local_actions \<Rightarrow> seqp (on_world (compute_remote_changes (sv_libs V) folder merged)) (\<lambda>remote_actions.
            seqp (add_syncing 1) (\<lambda>_. seqp (emit (SyncStarted (sf_account_id folder) (sf_local_path folder))) (\<lambda>_.
            seqp (emit (StatusChanged ''syncing'')) (\<lambda>_. run_and_report V account folder merged
              (from_actions (merge_actions local_actions remote_actions))))))) x = (Inr (Some n), s')"
    by (rule seqp_InrE)
  obtain la where la: "scanned = Some la" using rest2 by (cases scanned) (auto simp: retp_def)
  from rest2 [unfolded la option.case] obtain ra y t where
    y: "on_world (compute_remote_changes (sv_libs V) folder merged) x = (Inr ra, y)"
    and t: "dm_world t = dm_world y" "run_and_report V account folder merged (from_actions (merge_actions la ra)) t =
      (Inr (Some n), s')"
    by (elim seqp_InrE) (metis signalsD)
  have yx: "compute_remote_changes (sv_libs V) folder merged (dm_world x) = (Inr ra, dm_world y)"
    and xu: "compute_local_changes (sv_fuel V) (tokio_local_fs (sv_libs V)) (sv_libs V)
      (path_of (sf_local_path folder)) folder (dm_world u) = (Inr (Some la), dm_world x)"
    using on_worldD [OF y] on_worldD [OF x] la by auto
  have "dm_world y = dm_world x" by (rule remote_changes_read_only [OF yx])
  with yx t(1) show thesis using that [OF fetch Ju xu _ _ t(2)] by simp
qed

text \<open>What remains of the steps when only the database matters.\<close>

lemma sync_loop_returned:
  assumes "run_sync_loop V folder s = (Inr (Some n), s')" and "sf_start_page_token folder = Some p"
  obtains account token w w' merged q t
  where "fetch_all_changes (sv_env V) (sv_codecs V) (sv_drive_client V) token p w = (Inr (Some merged), w')"
    and "db_is (w_db (dm_world s)) t" and "run_and_report V account folder merged q t = (Inr (Some n), s')"
proof -
  obtain account token w w' merged u la v ra t
  where f: "fetch_all_changes (sv_env V) (sv_codecs V) (sv_drive_client V) token p w = (Inr (Some merged), w')"
    and u: "still (w_disk (dm_world s)) (w_db (dm_world s)) (w_notices (dm_world s)) u"
    and v: "compute_local_changes (sv_fuel V) (tokio_local_fs (sv_libs V)) (sv_libs V)
      (path_of (sf_local_path folder)) folder u = (Inr (Some la), v)"
    and t: "dm_world t = v"
      "run_and_report V account folder merged (from_actions (merge_actions la ra)) t = (Inr (Some n), s')"
    using assms by (rule cycle_steps)
  have "w_db v = w_db (dm_world s)"
    using presD [OF pres_local_changes [where I = "\<lambda>db. db = w_db (dm_world s)"] _ v] u by (simp add: still_def)
  then show thesis using that [OF f _ t(2)] t(1) by (simp add: db_is_def)
qed

text \<open>
  C29: a cycle that runs while the pause flag is set still succeeds: it executes nothing and writes
  no file state, and yet it moves the folder's page token past every change it fetched, so these
  changes are not seen again.
\<close>

theorem paused_sync_skips_changes:
  assumes pause: "\<And>w. env_pause (sv_env V) w = (True, w)" and tok: "sf_start_page_token folder = Some p"
    and run: "run_sync_loop V folder s = (Inr (Some n), s')"
  shows "n = 0 \<and> db_file_states (w_db (dm_world s')) = db_file_states (w_db (dm_world s)) \<and>
    (\<exists>token w w' merged. fetch_all_changes (sv_env V) (sv_codecs V) (sv_drive_client V) token p w =
         (Inr (Some merged), w') \<and>
       folder_rows s' = (case cs_new_start_page_token merged of None \<Rightarrow> folder_rows s
         | Some t \<Rightarrow> with_start_token (sf_id folder) (Some t) (folder_rows s)))"
proof -
  from run tok obtain account token w0 w1 merged q t where f: "fetch_all_changes (sv_env V) (sv_codecs V)
      (sv_drive_client V) token p w0 = (Inr (Some merged), w1)"
    and t: "db_is (w_db (dm_world s)) t" "run_and_report V account folder merged q t = (Inr (Some n), s')"
    by (rule sync_loop_returned)
  let ?ex = "with_conflict_notifier (executor_new (sv_drive_client V) (acc_keyring_key account) (sv_config V))"
  obtain x q' w where q: "run_queue (sv_env V) (tokio_local_fs (sv_libs V)) (sv_libs V) (sv_codecs V) ?ex
      folder q (dm_world t) = (x, q', w)" by (metis prod_cases3)
  have "x = Inr (Some 0)" "w = dm_world t" using paused_run [OF pause q] by auto
  then have "report_success V folder merged 0 t = (Inr (Some n), s')"
    using t(2) by (simp add: run_and_report_def Let_def q)
  note r = report_success_rows [OF this]
  show ?thesis
  proof (intro conjI)
    show "n = 0" using r by simp
    show "db_file_states (w_db (dm_world s')) = db_file_states (w_db (dm_world s))"
      using r t(1) by (simp add: db_is_def)
    show "\<exists>token w w' merged. fetch_all_changes (sv_env V) (sv_codecs V) (sv_drive_client V) token p w =
         (Inr (Some merged), w') \<and>
       folder_rows s' = (case cs_new_start_page_token merged of None \<Rightarrow> folder_rows s
         | Some t \<Rightarrow> with_start_token (sf_id folder) (Some t) (folder_rows s))"
      by (rule exI [of _ token], rule exI [of _ w0], rule exI [of _ w1], rule exI [of _ merged])
        (use f r t(1) in \<open>simp add: db_is_def split: option.split\<close>)
  qed
qed

section \<open>Examples\<close>

text \<open>A folder with nothing in it, and a server with no changes; the page token moves from 1 to 2.\<close>

definition quiet_disk :: disk where
  "quiet_disk = \<lparr>d_nodes = [([''r''], Dir 0)], d_now = 0\<rparr>"

definition demo_services :: "token_map services" where
  "demo_services = \<lparr>sv_env = token_env, sv_libs = demo_libs, sv_codecs = demo_codecs,
     sv_drive_client = demo_client, sv_config = config_default, sv_db_text = (\<lambda>_. ''database error''),
     sv_load_shutdown = (\<lambda>w. (False, w)), sv_store_pause = (\<lambda>_ w. w), sv_clock = (\<lambda>w. (0, w)), sv_fuel = 8\<rparr>"

definition demo_cycle_folder :: sync_folder where
  "demo_cycle_folder = demo_folder\<lparr>sf_start_page_token := Some ''1''\<rparr>"

definition demo_cycle_db :: db where
  "demo_cycle_db = demo_db\<lparr>db_accounts := [\<lparr>ar_id = ''a1'', ar_email = [], ar_display_name = None,
     ar_keyring_key = ''acc'', ar_created_at = 0\<rparr>]\<rparr>"

definition demo_daemon :: "token_map daemon" where
  "demo_daemon = \<lparr>dm_world = demo_world\<lparr>w_disk := quiet_disk, w_db := demo_cycle_db\<rparr>,
     dm_signals = [], dm_syncing = 0, dm_bucket = bucket_new 2 0, dm_requests = []\<rparr>"

lemma quiet_list: "tokio_list_dir (path_of ''/r'') [] quiet_disk = (Inr [], quiet_disk)"
proof -
  have "fst (tokio_list_dir (path_of ''/r'') [] quiet_disk) = Inr []" by code_simp
  moreover have "snd (tokio_list_dir (path_of ''/r'') [] quiet_disk) = quiet_disk" by code_simp
  ultimately show ?thesis by (metis prod.collapse)
qed

lemma demo_changes:
  assumes "E = token_env \<or> E = paused_env"
  shows "fetch_all_changes E demo_codecs demo_client token p w =
    (Inr (Some \<lparr>cs_next_page_token = None, cs_new_start_page_token = Some ''2'', cs_changes = []\<rparr>), w)"
proof -
  have "changes_list E demo_codecs demo_client token p None CHANGES_FIELDS False False w =
      (Inr \<lparr>cs_next_page_token = None, cs_new_start_page_token = Some ''2'', cs_changes = []\<rparr>, w)"
    using assms by (auto simp: changes_list_def seqp_def parse_url_def demo_codecs_def retp_def
        execute_json_def execute_with_retry_def retry_from.simps http_send_def map_errp_def token_env_def
        paused_env_def check_response_def is_success_def decode_body_def liftp_def)
  then show ?thesis by (simp add: fetch_all_changes_def fetch_from.simps)
qed

lemma demo_cycle_of:
  assumes E: "E = token_env \<or> E = paused_env"
    and scan: "compute_local_changes 8 (tokio_local_fs demo_libs) demo_libs (path_of ''/r'') demo_cycle_folder
      (demo_world\<lparr>w_disk := d, w_db := demo_cycle_db\<lparr>db_file_states := rows\<rparr>\<rparr>) =
      (Inr (Some []), demo_world\<lparr>w_disk := d, w_db := demo_cycle_db\<lparr>db_file_states := rows\<rparr>\<rparr>)"
    and states: "fs_list_by_folder demo_libs ''f1'' (demo_cycle_db\<lparr>db_file_states := rows\<rparr>) =
      (Inr states, demo_cycle_db\<lparr>db_file_states := rows\<rparr>)"
    and folders: "\<forall>r \<in> set rows. fr_sync_folder_id r = ''f1''"
  shows "\<exists>s'. run_sync_loop (demo_services\<lparr>sv_env := E\<rparr>) demo_cycle_folder
    (demo_daemon\<lparr>dm_world := demo_world\<lparr>w_disk := d, w_db := demo_cycle_db\<lparr>db_file_states := rows\<rparr>\<rparr>\<rparr>) =
    (Inr (Some 0), s')"
proof -
  define V where "V = demo_services\<lparr>sv_env := E\<rparr>"
  have V: "sv_env V = E" "sv_libs V = demo_libs" "sv_codecs V = demo_codecs" "sv_drive_client V = demo_client"
    "sv_fuel V = 8" by (simp_all add: V_def demo_services_def)
  let ?db = "demo_cycle_db\<lparr>db_file_states := rows\<rparr>"
  let ?w = "demo_world\<lparr>w_disk := d, w_db := ?db\<rparr>" and ?D = "demo_daemon\<lparr>dm_world := demo_world\<lparr>w_disk := d, w_db := demo_cycle_db\<lparr>db_file_states := rows\<rparr>\<rparr>\<rparr>"
  define a where "a = account_of_row demo_libs (fallback_now E ?w) (hd (db_accounts demo_cycle_db))"
  have key: "acc_keyring_key a = ''acc''" by (simp add: a_def account_of_row_def demo_cycle_db_def)
  have tok: "get_valid_access_token E demo_libs ''acc'' ?w = (Inr ''at'', ?w)"
    using E by (auto simp: get_valid_access_token_def seqp_def on_env_def okp_def token_env_def paused_env_def
        demo_world_def demo_libs_def getp_def retp_def REFRESH_BUFFER_SECS_def Let_def)
  have acc: "get_account V ''a1'' ?w = (Inr (Some a), ?w)"
    by (simp add: a_def get_account_def on_db_def account_get_by_id_def getp_def V demo_cycle_db_def)
  have remote: "compute_remote_changes demo_libs demo_cycle_folder
      \<lparr>cs_next_page_token = None, cs_new_start_page_token = Some ''2'', cs_changes = []\<rparr> ?w = (Inr [], ?w)"
    by (simp add: compute_remote_changes_def seqp_def on_db_def states demo_cycle_folder_def demo_folder_def retp_def)
  have queue: "run_queue E (tokio_local_fs demo_libs) demo_libs demo_codecs ex demo_cycle_folder
      (from_actions (merge_actions [] [])) ?w = (Inr (Some 0), from_actions (merge_actions [] []), ?w)" for ex
    by (simp add: run_queue_def run_loop.simps merge_actions_def from_actions_def queue_pop_def collect_map_def)
  have w: "dm_world ?D = ?w" "?D\<lparr>dm_world := ?w\<rparr> = ?D" by simp_all
  have F: "sf_account_id demo_cycle_folder = ''a1''" "sf_start_page_token demo_cycle_folder = Some ''1''"
    "sf_local_path demo_cycle_folder = ''/r''" "sf_id demo_cycle_folder = ''f1''" by (simp_all add: demo_cycle_folder_def demo_folder_def)
  have "run_sync_loop V demo_cycle_folder ?D = sync_from_token V a ''at'' demo_cycle_folder ?D"
    by (simp add: run_sync_loop_def seqp_def on_world_def w F acc
        key V tok ensure_start_token_def retp_def)
  moreover have pause0: "env_pause E w = (fst (env_pause E []), w)" for w
    using E by (auto simp: token_env_def paused_env_def)
  have upd: "folder_update_page_token ''f1'' (Some ''2'') ?db = (Inr (), ?db\<lparr>db_sync_folders :=
      with_start_token ''f1'' (Some ''2'') (db_sync_folders ?db)\<rparr>)"
    using folders by (simp add: folder_update_page_token_def folder_update_def stmt_def with_start_token_def fk_ok_def
        demo_cycle_db_def demo_db_def)
  obtain b where pause: "\<And>w. env_pause E w = (b, w)" using pause0 by blast
  have "\<exists>s'. sync_from_token V a ''at'' demo_cycle_folder ?D = (Inr (Some 0), s')"
    by (simp add: sync_from_token_def seqp_def need_def retp_def on_world_def on_env_def w V F
        demo_changes [OF E] scan remote add_syncing_def emit_def modp_def run_and_report_def queue
        report_success_def pause_status_def okp_def pause on_db_def upd Let_def)
  ultimately show ?thesis by (simp add: V_def)
qed

lemma demo_cycle:
  assumes "E = token_env \<or> E = paused_env"
  shows "\<exists>s'. run_sync_loop (demo_services\<lparr>sv_env := E\<rparr>) demo_cycle_folder demo_daemon = (Inr (Some 0), s')"
proof -
  let ?db = "demo_cycle_db\<lparr>db_file_states := []\<rparr>"
  have db: "?db = demo_cycle_db" by (simp add: demo_cycle_db_def demo_db_def)
  have states: "fs_list_by_folder demo_libs ''f1'' ?db = (Inr [], ?db)"
    by (simp add: fs_list_by_folder_def)
  have "walk 8 (tokio_local_fs demo_libs) (path_of ''/r'') [] [[]] quiet_disk = (Inr (Some []), quiet_disk)"
    by (simp add: numeral_eq_Suc seqp_def tokio_local_fs_def quiet_list retp_def)
  then have scan: "compute_local_changes 8 (tokio_local_fs demo_libs) demo_libs (path_of ''/r'') demo_cycle_folder
      (demo_world\<lparr>w_disk := quiet_disk, w_db := ?db\<rparr>) =
      (Inr (Some []), demo_world\<lparr>w_disk := quiet_disk, w_db := ?db\<rparr>)"
    by (simp add: compute_local_changes_def seqp_def on_db_def states demo_cycle_folder_def demo_folder_def
        collect_map_def on_disk_def retp_def)
  have "demo_daemon\<lparr>dm_world := demo_world\<lparr>w_disk := quiet_disk, w_db := ?db\<rparr>\<rparr> = demo_daemon"
    unfolding db by (simp add: demo_daemon_def)
  with demo_cycle_of [OF assms scan states] show ?thesis by simp
qed

lemma failed_sync_keeps_page_token_witness:
  "folder_rows (snd (run_sync_loop demo_services demo_cycle_folder
     (demo_daemon\<lparr>dm_world := demo_world\<lparr>w_db := demo_db\<rparr>\<rparr>))) = db_sync_folders demo_db"
proof -
  let ?d = "demo_daemon\<lparr>dm_world := demo_world\<lparr>w_db := demo_db\<rparr>\<rparr>"
  have run: "run_sync_loop demo_services demo_cycle_folder ?d = (Inl AuthExpired, ?d)"
    by (simp add: run_sync_loop_def seqp_def on_world_def get_account_def on_db_def account_get_by_id_def getp_def
        demo_services_def demo_db_def demo_cycle_folder_def demo_folder_def account_of_row_def get_valid_access_token_def on_env_def okp_def
        token_env_def demo_world_def Let_def refresh_and_cache_def in_memory_token_store_def mem_get_def
        retp_def failp_def)
  from failed_sync_keeps_page_token [OF run] show ?thesis
    by (simp add: run)
qed

lemma sync_counter_balanced_witness:
  "dm_syncing (snd (run_sync_loop demo_services demo_cycle_folder demo_daemon)) = 0"
proof -
  obtain s' where run: "run_sync_loop (demo_services\<lparr>sv_env := token_env\<rparr>) demo_cycle_folder demo_daemon =
      (Inr (Some 0), s')" using demo_cycle by blast
  have "demo_services\<lparr>sv_env := token_env\<rparr> = demo_services" by (simp add: demo_services_def)
  then show ?thesis using sync_counter_balanced [OF run] run by (simp add: demo_daemon_def)
qed

lemma paused_sync_skips_changes_witness:
  "\<exists>s'. run_sync_loop (demo_services\<lparr>sv_env := paused_env\<rparr>) demo_cycle_folder demo_daemon = (Inr (Some 0), s') \<and>
     map sr_start_page_token (folder_rows s') = [Some ''2'']"
proof -
  let ?V = "demo_services\<lparr>sv_env := paused_env\<rparr>"
  obtain s' where run: "run_sync_loop ?V demo_cycle_folder demo_daemon = (Inr (Some 0), s')"
    using demo_cycle by blast
  have p: "env_pause (sv_env ?V) w = (True, w)" for w by (simp add: paused_env_def)
  have t: "sf_start_page_token demo_cycle_folder = Some ''1''" by (simp add: demo_cycle_folder_def)
  have V: "sv_env ?V = paused_env" "sv_codecs ?V = demo_codecs" "sv_drive_client ?V = demo_client"
    by (simp_all add: demo_services_def)
  have "folder_rows s' = with_start_token ''f1'' (Some ''2'') (db_sync_folders demo_cycle_db)"
    using paused_sync_skips_changes [OF p t run]
    by (auto simp: V demo_changes demo_daemon_def demo_cycle_folder_def demo_folder_def)
  then show ?thesis using run by (simp add: with_start_token_def demo_cycle_db_def demo_db_def)
qed

end
