(* ===== verification/Gds_Scheduler.thy ===== *)
theory Gds_Scheduler
  imports Gds_Cycle
begin

text \<open>
  The scheduler loop (\<open>crates/gds-daemon/src/scheduler/mod.rs\<close>): its queue of folders, the poll, the
  rate limit and the re-queueing of failed folders, as a step relation; and what holds in every
  reachable state.
\<close>

section \<open>The scheduler loop\<close>

record 'w scheduler =
  sch_pending :: "string list"
  sch_poll_tick :: int
  sch_draining :: bool
  sch_stopped :: bool
  sch_daemon :: "'w daemon"

definition push_pending :: "string \<Rightarrow> string list \<Rightarrow> string list" where
  "push_pending i pending = (if List.member pending i then pending else pending @ [i])"

text \<open>What a poll adds: every folder that is not paused and not queued.\<close>

definition push_folders :: "sync_folder list \<Rightarrow> string list \<Rightarrow> string list" where
  "push_folders fs pending = foldl (\<lambda>p f. if \<not> sf_paused f then push_pending (sf_id f) p else p) pending fs"

text \<open>The row that is inserted for a failed cycle; whether the insertion fails is ignored.\<close>

definition record_failure :: "'w services \<Rightarrow> sync_error \<Rightarrow> ('w daemon, sync_error, sync_error + unit) proc" where
  "record_failure V e =
     seqp (on_world (on_env (okp (env_uuid (sv_env V))))) (\<lambda>err_id.
     seqp (on_world (on_env (okp (env_now (sv_env V))))) (\<lambda>now.
     tryp (on_world (on_db (error_insert (sv_libs V) err_id None (sync_error_display (sv_db_text V) e) now 0)))))"

text \<open>A folder that has been read for its id: nothing when it is paused, else one cycle.\<close>

definition drain_folder ::
    "'w services \<Rightarrow> string \<Rightarrow> string list \<Rightarrow> sync_folder \<Rightarrow> 'w daemon \<Rightarrow> (string list \<times> bool \<times> 'w daemon) option" where
  "drain_folder V folder_id rest folder s =
     (if sf_paused folder then Some (rest, False, s)
      else (case run_sync_loop V folder s of
          (Inr None, s1) \<Rightarrow> None
        | (Inr (Some n), s1) \<Rightarrow> Some (rest, False, s1)
        | (Inl e, s1) \<Rightarrow> (case record_failure V e s1 of (r, s2) \<Rightarrow> Some (rest @ [folder_id], False, s2))))"

text \<open>
  One round of the inner \<open>while let\<close> for the folder at the front: the remaining queue, whether the
  inner loop is left, and the daemon; \<open>None\<close> when the sync does not return.
\<close>

definition drain_one ::
    "'w services \<Rightarrow> string \<Rightarrow> string list \<Rightarrow> 'w daemon \<Rightarrow> (string list \<times> bool \<times> 'w daemon) option" where
  "drain_one V folder_id rest s0 =
     (let E = sv_env V;
          (down, w) = sv_load_shutdown V (w_env (dm_world s0))
      in if down then Some (rest, True, s0\<lparr>dm_world := (dm_world s0)\<lparr>w_env := w\<rparr>\<rparr>)
         else
           let (t, w1) = sv_clock V w; (ok, b) = try_acquire t (dm_bucket s0);
               s1 = s0\<lparr>dm_world := (dm_world s0)\<lparr>w_env := w1\<rparr>, dm_bucket := b\<rparr>
           in if \<not> ok then
                Some (folder_id # rest, False,
                  s1\<lparr>dm_world := (dm_world s1)\<lparr>w_env := env_sleep E 200000000 (w_env (dm_world s1))\<rparr>\<rparr>)
              else
                (case on_world (on_db (folder_get_by_id (sv_libs V) folder_id)) s1 of
                   (Inl e, s2) \<Rightarrow> Some (rest, False, s2)
                 | (Inr None, s2) \<Rightarrow> Some (rest, False, s2)
                 | (Inr (Some folder), s2) \<Rightarrow> drain_folder V folder_id rest folder s2))"

text \<open>
  The loop: it looks at the shutdown flag, waits for a request or the poll tick (whichever comes;
  the rest of the daemon runs meanwhile, \<open>others\<close>), and drains the queue.
\<close>

inductive sched_step :: "'w services \<Rightarrow> ('w daemon \<Rightarrow> 'w daemon \<Rightarrow> bool) \<Rightarrow> 'w scheduler \<Rightarrow> 'w scheduler \<Rightarrow> bool"
  for V others where
  shutdown: "\<not> sch_draining s \<Longrightarrow> \<not> sch_stopped s \<Longrightarrow>
    sv_load_shutdown V (w_env (dm_world (sch_daemon s))) = (True, w) \<Longrightarrow>
    sched_step V others s (s\<lparr>sch_stopped := True,
      sch_daemon := (sch_daemon s)\<lparr>dm_world := (dm_world (sch_daemon s))\<lparr>w_env := w\<rparr>\<rparr>\<rparr>)"
| request: "\<not> sch_draining s \<Longrightarrow> \<not> sch_stopped s \<Longrightarrow>
    sv_load_shutdown V (w_env (dm_world (sch_daemon s))) = (False, w) \<Longrightarrow>
    others ((sch_daemon s)\<lparr>dm_world := (dm_world (sch_daemon s))\<lparr>w_env := w\<rparr>\<rparr>) d \<Longrightarrow>
    dm_requests d = i # is \<Longrightarrow>
    sched_step V others s (s\<lparr>sch_draining := True, sch_daemon := d\<lparr>dm_requests := is\<rparr>,
      sch_pending := push_pending i (sch_pending s)\<rparr>)"
| tick: "\<not> sch_draining s \<Longrightarrow> \<not> sch_stopped s \<Longrightarrow>
    sv_load_shutdown V (w_env (dm_world (sch_daemon s))) = (False, w) \<Longrightarrow>
    others ((sch_daemon s)\<lparr>dm_world := (dm_world (sch_daemon s))\<lparr>w_env := w\<rparr>\<rparr>) d \<Longrightarrow>
    list_all_folders (sv_libs V) (fallback_now (sv_env V) (dm_world d)) (w_db (dm_world d)) = (r, db) \<Longrightarrow>
    sched_step V others s (s\<lparr>sch_daemon := d\<lparr>dm_world := (dm_world d)\<lparr>w_db := db\<rparr>\<rparr>,
      sch_poll_tick := sch_poll_tick s + int (sc_poll_interval_secs (cfg_sync (sv_config V))) * 1000000000,
      sch_draining := (case r of Inl _ \<Rightarrow> False | Inr _ \<Rightarrow> True),
      sch_pending := (case r of Inl _ \<Rightarrow> sch_pending s | Inr fs \<Rightarrow> push_folders fs (sch_pending s))\<rparr>)"
| drain: "sch_draining s \<Longrightarrow> sch_pending s = i # rest \<Longrightarrow> others (sch_daemon s) d \<Longrightarrow>
    drain_one V i rest d = Some (pending, leave, d') \<Longrightarrow>
    sched_step V others s (s\<lparr>sch_pending := pending, sch_draining := \<not> leave, sch_daemon := d'\<rparr>)"
| drained: "sch_draining s \<Longrightarrow> sch_pending s = [] \<Longrightarrow>
    sched_step V others s (s\<lparr>sch_draining := False\<rparr>)"

inductive_cases sched_stepE [consumes 1, case_names shutdown request tick drain drained]:
  "sched_step V others s s'"

section \<open>Steps\<close>

text \<open>What one round of the inner loop does to the queue, and what it keeps.\<close>

lemma record_failure_keeps:
  assumes "record_failure V e s = (r, s')"
  shows "dm_syncing s' = dm_syncing s" and "folder_rows s' = folder_rows s"
  using assms
  by (auto simp: record_failure_def seqp_def on_world_def on_env_def tryp_def on_db_def error_insert_def stmt_def
      split: prod.splits sum.splits if_splits)

lemma drain_folder_cases:
  assumes "drain_folder V i rest folder s = Some (pending, leave, s')"
  obtains (paused) "sf_paused folder" and "pending = rest" and "\<not> leave" and "s' = s"
  | (synced) n where "\<not> sf_paused folder" and "run_sync_loop V folder s = (Inr (Some n), s')"
      and "pending = rest" and "\<not> leave"
  | (failed) e s1 where "\<not> sf_paused folder" and "run_sync_loop V folder s = (Inl e, s1)"
      and "pending = rest @ [i]" and "\<not> leave"
      and "dm_syncing s' = dm_syncing s1" and "folder_rows s' = folder_rows s1"
proof (cases "sf_paused folder")
  case True
  with assms show thesis by (intro paused) (auto simp: drain_folder_def)
next
  case False
  obtain x s1 where x: "run_sync_loop V folder s = (x, s1)" by (cases "run_sync_loop V folder s")
  show thesis
  proof (cases x)
    case (Inl e)
    obtain y s2 where y: "record_failure V e s1 = (y, s2)" by (cases "record_failure V e s1")
    with assms False x Inl have "pending = rest @ [i]" "\<not> leave" "s' = s2" by (auto simp: drain_folder_def)
    with False x Inl record_failure_keeps [OF y] show thesis by (intro failed [of e s1]) auto
  next
    case (Inr n)
    with assms False x show thesis by (cases n) (auto simp: drain_folder_def intro: synced)
  qed
qed

lemma drain_one_cases:
  assumes "drain_one V i rest s = Some (pending, leave, s')"
  obtains (down) "fst (sv_load_shutdown V (w_env (dm_world s)))" and "pending = rest" and "leave"
      and "dm_syncing s' = dm_syncing s"
      and "w_db (dm_world s') = w_db (dm_world s)" and "w_disk (dm_world s') = w_disk (dm_world s)"
  | (refused) "pending = i # rest" and "\<not> leave" and "dm_syncing s' = dm_syncing s"
      and "w_db (dm_world s') = w_db (dm_world s)" and "w_disk (dm_world s') = w_disk (dm_world s)"
  | (skipped) "pending = rest" and "\<not> leave" and "dm_syncing s' = dm_syncing s"
      and "w_db (dm_world s') = w_db (dm_world s)" and "w_disk (dm_world s') = w_disk (dm_world s)"
      and "\<forall>r. find (\<lambda>r. sr_id r = i) (folder_rows s) = Some r \<longrightarrow> sr_paused r \<noteq> 0"
  | (synced) folder n s1 where "run_sync_loop V folder s1 = (Inr (Some n), s')" and "pending = rest" and "\<not> leave"
      and "dm_syncing s1 = dm_syncing s" and "folder_rows s1 = folder_rows s" and "sf_id folder = i"
      and "\<exists>r. find (\<lambda>r. sr_id r = i) (folder_rows s) = Some r \<and> sr_paused r = 0"
  | (failed) folder e s1 s2 where "run_sync_loop V folder s1 = (Inl e, s2)" and "pending = rest @ [i]" and "\<not> leave"
      and "dm_syncing s1 = dm_syncing s" and "folder_rows s1 = folder_rows s" and "sf_id folder = i"
      and "\<exists>r. find (\<lambda>r. sr_id r = i) (folder_rows s) = Some r \<and> sr_paused r = 0"
      and "dm_syncing s' = dm_syncing s2" and "folder_rows s' = folder_rows s2"
proof -
  obtain down w where d: "sv_load_shutdown V (w_env (dm_world s)) = (down, w)"
    by (cases "sv_load_shutdown V (w_env (dm_world s))")
  obtain t w1 where t: "sv_clock V w = (t, w1)" by (cases "sv_clock V w")
  obtain ok b where b: "try_acquire t (dm_bucket s) = (ok, b)" by (cases "try_acquire t (dm_bucket s)")
  let ?s1 = "s\<lparr>dm_world := (dm_world s)\<lparr>w_env := w1\<rparr>, dm_bucket := b\<rparr>"
  show thesis
  proof (cases "down \<or> \<not> ok")
    case True
    with assms d t b show thesis
      by (cases down) (auto simp: drain_one_def Let_def intro: down refused)
  next
    case False
    note run = assms [unfolded drain_one_def Let_def d t b prod.case]
    have get: "on_world (on_db (folder_get_by_id (sv_libs V) i)) ?s1 = (Inr (map_option (folder_of_row (sv_libs V))
        (find (\<lambda>r. sr_id r = i) (folder_rows s))), ?s1)"
      by (simp add: on_world_def on_db_def folder_get_by_id_def getp_def)
    have same: "dm_syncing ?s1 = dm_syncing s" "folder_rows ?s1 = folder_rows s" by simp_all
    show thesis
    proof (cases "find (\<lambda>r. sr_id r = i) (folder_rows s)")
      case None
      have "Some (rest, False, ?s1) = Some (pending, leave, s')"
        using run False get by (simp add: None)
      then show thesis by (intro skipped) (auto simp: None)
    next
      case (Some row)
      let ?f = "folder_of_row (sv_libs V) row"
      have i: "sf_id ?f = i" using Some by (auto simp: folder_of_row_def find_Some_iff)
      have p: "sf_paused ?f \<longleftrightarrow> sr_paused row \<noteq> 0" by (simp add: folder_of_row_def)
      have act: "\<exists>r. find (\<lambda>r. sr_id r = i) (folder_rows s) = Some r \<and> sr_paused r = 0" if "\<not> sf_paused ?f"
        using that Some by (simp add: p)
      have "drain_folder V i rest ?f ?s1 = Some (pending, leave, s')"
        using run False get by (simp add: Some)
      then show thesis
      proof (cases rule: drain_folder_cases)
        case paused
        then show thesis by (intro skipped) (auto simp: Some p)
      next
        case (synced n)
        show thesis by (rule that(4) [OF synced(2-4) same i act [OF synced(1)]])
      next
        case (failed e s1)
        show thesis by (rule that(5) [OF failed(2-4) same i act [OF failed(1)] failed(5,6)])
      qed
    qed
  qed
qed

lemma drain_one_syncing:
  assumes "drain_one V i rest s = Some (pending, leave, s')"
  shows "dm_syncing s' = dm_syncing s"
  using assms by (cases rule: drain_one_cases) (auto dest: cycle_syncing)

lemma push_pending_distinct: "distinct p \<Longrightarrow> distinct (push_pending i p)"
  by (simp add: push_pending_def)

lemma push_folders_distinct: "distinct p \<Longrightarrow> distinct (push_folders fs p)"
  unfolding push_folders_def by (induction fs arbitrary: p) (simp_all add: push_pending_distinct)

section \<open>While requests fail\<close>

text \<open>No request gets an answer: the machine is offline, say.\<close>

definition offline :: "'w env \<Rightarrow> bool" where
  "offline E \<longleftrightarrow> (\<forall>rq. fails (env_http E rq))"

lemma retry_fails: "fails m \<Longrightarrow> fails (retry_from E p m n)"
proof (unfold fails_def, intro allI, goal_cases)
  case (1 w)
  then show ?case
  proof (induction "bp_max_attempts p - n" arbitrary: n w rule: less_induct)
    case less
    obtain e t where m: "m w = (Inl e, t)" using less.prems by blast
    show ?case
    proof (cases "is_retryable_error e \<and> n < bp_max_attempts p")
      case True
      then have "bp_max_attempts p - (n + 1) < bp_max_attempts p - n" by linarith
      then have "\<And>w. \<exists>e t. retry_from E p m (n + 1) w = (Inl e, t)" using less.hyps less.prems by blast
      with True show ?thesis by (subst retry_from.simps) (simp add: m Let_def split: prod.splits)
    next
      case False
      then show ?thesis by (subst retry_from.simps) (auto simp: m)
    qed
  qed
qed

lemma json_fails: "offline E \<Longrightarrow> fails (execute_json E c dec method url query token timeout body)"
  unfolding execute_json_def execute_with_retry_def http_send_def
  by (intro retry_fails fails_first fail_rules) (simp add: offline_def)

lemma changes_fail: "offline E \<Longrightarrow> fails (fetch_all_changes E K c token p)"
proof -
  assume "offline E"
  then have "fails (changes_list E K c token p None CHANGES_FIELDS False False)"
    unfolding changes_list_def by (intro fails_rest json_fails)
  then have "\<exists>e t. changes_list E K c token p None CHANGES_FIELDS False False w = (Inl e, t)" for w
    by (simp add: fails_def)
  note call = this
  show ?thesis
    unfolding fails_def
  proof
    fix w
    obtain e t where "changes_list E K c token p None CHANGES_FIELDS False False w = (Inl e, t)" using call by blast
    then show "\<exists>e t. fetch_all_changes E K c token p w = (Inl e, t)"
      by (simp add: fetch_all_changes_def fetch_from.simps)
  qed
qed

lemma on_parts_fail: "fails m \<Longrightarrow> fails (on_env m)" "fails n \<Longrightarrow> fails (on_world n)"
  unfolding fails_def on_env_def on_world_def by (metis (mono_tags, lifting) case_prod_conv)+

lemma cycle_fails: "offline (sv_env V) \<Longrightarrow> fails (run_sync_loop V folder)"
proof -
  assume "offline (sv_env V)"
  then have "fails (sync_from_token V account token f)" for account token f
    unfolding sync_from_token_def Let_def
    by (intro fails_rest [where m = "need _ _"] fails_first on_parts_fail changes_fail)
  then show ?thesis
    unfolding run_sync_loop_def by (intro fails_rest fail_rules)
qed

text \<open>The row of a folder that is there and not paused.\<close>

definition folder_active :: "string \<Rightarrow> 'w daemon \<Rightarrow> bool" where
  "folder_active i s \<longleftrightarrow> (\<exists>r. find (\<lambda>r. sr_id r = i) (folder_rows s) = Some r \<and> sr_paused r = 0)"

lemma active_with_start_token:
  "find (\<lambda>r. sr_id r = i) (with_start_token j t rows) =
   map_option (\<lambda>r. if i = j then r\<lparr>sr_start_page_token := t\<rparr> else r) (find (\<lambda>r. sr_id r = i) rows)"
  unfolding with_start_token_def by (induction rows) auto

lemma failed_sync_active:
  assumes "run_sync_loop V folder s = (Inl e, s')" and "folder_active i s"
  shows "folder_active i s'"
  using failed_sync_rows [OF assms(1)] assms(2)
  by (auto simp: folder_active_def active_with_start_token)

lemma drain_offline:
  assumes "offline (sv_env V)" and "\<And>w. \<not> fst (sv_load_shutdown V w)"
    and "drain_one V j rest s = Some (pending, leave, s')"
    and "folder_active i s" and "i \<in> set (j # rest)"
  shows "\<not> leave \<and> i \<in> set pending \<and> folder_active i s'"
  using assms(3)
proof (cases rule: drain_one_cases)
  case down
  with assms(2) show ?thesis by blast
next
  case refused
  with assms(4,5) show ?thesis by (simp add: folder_active_def)
next
  case skipped
  with assms(4,5) show ?thesis by (auto simp: folder_active_def)
next
  case (synced folder n s1)
  with failsD [OF cycle_fails [OF assms(1)] synced(1)] show ?thesis by simp
next
  case (failed folder e s1 s2)
  have "folder_active i s1" using assms(4) failed(5) by (simp add: folder_active_def)
  from failed_sync_active [OF failed(1) this] show ?thesis
    using failed assms(5) by (auto simp: folder_active_def)
qed

section \<open>Properties\<close>

lemma scheduler_keeps:
  assumes "(sched_step V others)\<^sup>*\<^sup>* s s'" and "\<And>d d'. others d d' \<Longrightarrow> dm_syncing d' = dm_syncing d"
    and "distinct (sch_pending s)" and "dm_syncing (sch_daemon s) = 0"
  shows "distinct (sch_pending s') \<and> dm_syncing (sch_daemon s') = 0"
  using assms(1)
proof (induction rule: rtranclp_induct)
  case base
  with assms(3,4) show ?case by simp
next
  case (step u v)
  from step.hyps(2) show ?case
  proof (cases rule: sched_stepE)
    case (drain i rest d pending leave d')
    have "distinct pending"
      using drain(5) step.IH drain(3) by (cases rule: drain_one_cases) auto
    with drain step.IH drain_one_syncing [OF drain(5)] assms(2) show ?thesis by simp
  qed (use step.IH assms(2) in \<open>auto simp: push_pending_distinct push_folders_distinct split: sum.splits\<close>)
qed

text \<open>
  In every state the scheduler reaches, no folder is queued twice and no sync is left counted
  as running (provided that the rest of the daemon does not touch the counter).
\<close>

theorem scheduler_invariant:
  assumes "(sched_step V others)\<^sup>*\<^sup>* s s'" and "\<And>d d'. others d d' \<Longrightarrow> dm_syncing d' = dm_syncing d"
    and "distinct (sch_pending s)" and "dm_syncing (sch_daemon s) = 0"
  shows "distinct (sch_pending s') \<and> dm_syncing (sch_daemon s') = 0"
  using assms by (rule scheduler_keeps)

text \<open>
  C30: while no request gets an answer, a queued folder that is not paused keeps the scheduler in
  its inner loop: a failed folder goes back to the queue at once, so the loop never returns to
  waiting, no poll takes place and no sync request of the daemon is received until the network
  answers again.
\<close>

theorem offline_scheduler_starves:
  assumes "offline (sv_env V)" and "\<And>w. \<not> fst (sv_load_shutdown V w)"
    and "\<And>d d'. others d d' \<Longrightarrow> folder_active i d \<Longrightarrow> folder_active i d'"
    and "(sched_step V others)\<^sup>*\<^sup>* s s'"
    and "sch_draining s" and "i \<in> set (sch_pending s)" and "folder_active i (sch_daemon s)"
  shows "sch_draining s' \<and> i \<in> set (sch_pending s') \<and> sch_poll_tick s' = sch_poll_tick s"
proof -
  have "sch_draining s' \<and> i \<in> set (sch_pending s') \<and> sch_poll_tick s' = sch_poll_tick s \<and>
      folder_active i (sch_daemon s')"
    using assms(4)
  proof (induction rule: rtranclp_induct)
    case base
    with assms show ?case by simp
  next
    case (step u v)
    from step.hyps(2) show ?case
    proof (cases rule: sched_stepE)
      case (drain j rest d pending leave d')
      have "folder_active i d" using assms(3) drain(4) step.IH by blast
      from drain_offline [OF assms(1,2) drain(5) this] drain step.IH show ?thesis by auto
    qed (use step.IH in auto)
  qed
  then show ?thesis by blast
qed

text \<open>The scheduler at its start, and one with the folder queued and the network down.\<close>

definition demo_scheduler :: "token_map scheduler" where
  "demo_scheduler = \<lparr>sch_pending = [''f1''], sch_poll_tick = 0, sch_draining = True, sch_stopped = False,
     sch_daemon = demo_daemon\<rparr>"

definition offline_services :: "token_map services" where
  "offline_services = demo_services\<lparr>sv_env := token_env\<lparr>env_http := (\<lambda>_. failp ''offline'')\<rparr>\<rparr>"

lemma drain_offline_returns:
  assumes "offline (sv_env V)"
  shows "drain_one V i rest s \<noteq> None"
proof
  assume n: "drain_one V i rest s = None"
  have sync: "run_sync_loop V f u \<noteq> (Inr x, t)" for f u x t
    using failsD [OF cycle_fails [OF assms]] by fastforce
  from n show False
    by (auto simp: drain_one_def drain_folder_def Let_def sync split: prod.splits if_splits sum.splits option.splits)
qed

lemma demo_offline: "offline (sv_env offline_services)"
  by (simp add: offline_def offline_services_def fails_failp)

lemma demo_drain_step: "\<exists>s'. sched_step offline_services (=) demo_scheduler s'"
proof -
  obtain p l d where r: "drain_one offline_services ''f1'' [] demo_daemon = Some (p, l, d)"
    using drain_offline_returns [OF demo_offline] by (metis option.exhaust prod_cases3)
  have "sched_step offline_services (=) demo_scheduler
      (demo_scheduler\<lparr>sch_pending := p, sch_draining := \<not> l, sch_daemon := d\<rparr>)"
    by (rule sched_step.drain [where i = "''f1''" and rest = "[]" and d = demo_daemon])
      (simp_all add: demo_scheduler_def r)
  then show ?thesis ..
qed

lemma scheduler_invariant_witness:
  "\<exists>s'. sched_step offline_services (=) demo_scheduler s' \<and> distinct (sch_pending s') \<and>
     dm_syncing (sch_daemon s') = 0"
proof -
  obtain s' where s': "sched_step offline_services (=) demo_scheduler s'" using demo_drain_step by blast
  have "distinct (sch_pending demo_scheduler)" "dm_syncing (sch_daemon demo_scheduler) = 0"
    by (simp_all add: demo_scheduler_def demo_daemon_def)
  from scheduler_invariant [OF r_into_rtranclp [of "sched_step offline_services (=)", OF s'] _ this] s'
  show ?thesis by blast
qed

lemma offline_scheduler_starves_witness:
  "\<exists>s'. sched_step offline_services (=) demo_scheduler s' \<and> sch_draining s' \<and> ''f1'' \<in> set (sch_pending s')"
proof -
  obtain s' where s': "sched_step offline_services (=) demo_scheduler s'" using demo_drain_step by blast
  have up: "\<not> fst (sv_load_shutdown offline_services w)" for w
    by (simp add: offline_services_def demo_services_def)
  have start: "sch_draining demo_scheduler" "''f1'' \<in> set (sch_pending demo_scheduler)"
    "folder_active ''f1'' (sch_daemon demo_scheduler)"
    by (simp_all add: demo_scheduler_def folder_active_def demo_daemon_def demo_cycle_db_def demo_db_def)
  from offline_scheduler_starves [OF demo_offline up _ r_into_rtranclp [of "sched_step offline_services (=)", OF s']
      start] s'
  show ?thesis by blast
qed

end
