(* ===== verification/Gds_Service.thy ===== *)
theory Gds_Service
  imports Gds_Scheduler
begin

text \<open>
  The D-Bus methods of the daemon (\<open>crates/gds-daemon/src/dbus/service.rs\<close>, their result types in
  \<open>crates/gds-daemon/src/dbus/types.rs\<close>). A method returns a value or the message of
  \<open>zbus::fdo::Error::Failed\<close>.
\<close>

section \<open>State and result types\<close>

text \<open>
  \<open>DaemonState\<close>: what the methods share with the scheduler is \<open>services\<close> and \<open>daemon\<close>; the rest is
  here. \<open>ds_receiver\<close>: whether the scheduler still holds the receiver of sync requests.
\<close>

record 'w daemon_state =
  ds_services :: "'w services"
  ds_oauth :: "'w oauth_ops"
  ds_resolved_client_id :: string
  ds_resolved_client_secret :: "string option"
  ds_receiver :: "'w \<Rightarrow> bool"

record account_info =
  ai_id :: string
  ai_email :: string
  ai_display_name :: string

record sync_folder_info =
  fi_id :: string
  fi_account_id :: string
  fi_local_path :: string
  fi_drive_folder_id :: string
  fi_start_page_token :: string
  fi_last_sync_at :: int
  fi_paused :: bool

record sync_error_info =
  ei_id :: string
  ei_file_state_id :: string
  ei_error_message :: string
  ei_occurred_at :: int
  ei_retry_count :: int

record quota_info =
  qi_limit :: string
  qi_usage :: string
  qi_usage_in_drive :: string

type_synonym ('w, 'a) bus_method = "('w daemon, string, 'a) proc"

section \<open>Calls\<close>

definition on_db_raw :: "'a db_proc \<Rightarrow> ('w daemon, db_error, 'a) proc" where
  "on_db_raw m s = (case m (w_db (dm_world s)) of
     (r, db) \<Rightarrow> (r, s\<lparr>dm_world := (dm_world s)\<lparr>w_db := db\<rparr>\<rparr>))"

text \<open>A repository call whose error becomes \<open>Failed(format!("what: \{\}", e))\<close>.\<close>

definition db_call :: "'w daemon_state \<Rightarrow> string \<Rightarrow> 'a db_proc \<Rightarrow> ('w, 'a) bus_method" where
  "db_call D what m =
     map_errp (\<lambda>e. what @ '': '' @ sv_db_text (ds_services D) e) (on_db_raw m)"

definition failed_text :: "'w daemon_state \<Rightarrow> sync_error \<Rightarrow> string" where
  "failed_text D e = sync_error_display (sv_db_text (ds_services D)) e"

text \<open>A database call that reads the clock for times out of range.\<close>

definition with_now :: "'w daemon_state \<Rightarrow> (datetime \<Rightarrow> ('w, 'a) bus_method) \<Rightarrow> ('w, 'a) bus_method" where
  "with_now D f s = f (fallback_now (sv_env (ds_services D)) (dm_world s)) s"

definition all_folders :: "'w daemon_state \<Rightarrow> ('w, sync_folder list) bus_method" where
  "all_folders D = with_now D (\<lambda>now. db_call D ''list folders'' (list_all_folders (sv_libs (ds_services D)) now))"

text \<open>\<open>sync_request_tx.send\<close>: fails when the receiver is gone.\<close>

definition send_request :: "'w daemon_state \<Rightarrow> string \<Rightarrow> ('w, unit) bus_method" where
  "send_request D i s =
     (if ds_receiver D (w_env (dm_world s)) then (Inr (), s\<lparr>dm_requests := dm_requests s @ [i]\<rparr>)
      else (Inl ''channel closed'', s))"

definition ignorep :: "('s, 'e, 'a) proc \<Rightarrow> ('s, 'f, unit) proc" where
  "ignorep m = seqp (tryp m) (\<lambda>_. retp ())"

section \<open>The methods\<close>

definition get_status :: "'w daemon_state \<Rightarrow> ('w, string \<times> 32 word) bus_method" where
  "get_status D =
     seqp (on_world (on_env (okp (env_pause (sv_env (ds_services D)))))) (\<lambda>paused.
     seqp (getp dm_syncing) (\<lambda>count.
     retp (if paused then ''paused'' else if count > 0 then ''syncing'' else ''idle'', count)))"

text \<open>
  What a client may rely on of \<open>GetStatus\<close>: it answers, with the number of running syncs and a word that
  the pause flag and this number determine.
\<close>

definition status_word :: "bool \<Rightarrow> 32 word \<Rightarrow> string" where
  "status_word paused running =
     (if paused then ''paused'' else if running > 0 then ''syncing'' else ''idle'')"

locale status_bus =
  fixes status :: "('c, string, string \<times> 32 word) proc"
    and paused :: "'c \<Rightarrow> bool"
    and running :: "'c \<Rightarrow> 32 word"
  assumes answers: "fst (status k) = Inr (status_word (paused k) (running k), running k)"
begin

lemma answersD: "\<exists>k'. status k = (Inr (status_word (paused k) (running k), running k), k')"
  by (metis answers prod.collapse)

end

interpretation own: status_bus "get_status D"
    "\<lambda>k. fst (env_pause (sv_env (ds_services D)) (w_env (dm_world k)))" dm_syncing for D
  by unfold_locales
    (simp add: get_status_def status_word_def proc_simps on_world_def on_env_def split: prod.split)

definition set_pause :: "'w daemon_state \<Rightarrow> bool \<Rightarrow> ('w, unit) bus_method" where
  "set_pause D p =
     seqp (modp (\<lambda>s. s\<lparr>dm_world := (dm_world s)\<lparr>w_env := sv_store_pause (ds_services D) p (w_env (dm_world s))\<rparr>\<rparr>)) (\<lambda>_.
     seqp (all_folders D) (\<lambda>folders.
     for_each (\<lambda>f. ignorep (on_db_raw (folder_set_paused (sf_id f) p))) folders))"

definition pause_sync :: "'w daemon_state \<Rightarrow> ('w, unit) bus_method" where
  "pause_sync D = set_pause D True"

definition resume_sync :: "'w daemon_state \<Rightarrow> ('w, unit) bus_method" where
  "resume_sync D = set_pause D False"

definition force_sync :: "'w daemon_state \<Rightarrow> string \<Rightarrow> ('w, unit) bus_method" where
  "force_sync D path =
     seqp (all_folders D) (\<lambda>folders.
     case find (\<lambda>f. path = [] \<or> path = sf_local_path f \<or> starts_with (sf_local_path f) path) folders of
       Some f \<Rightarrow> map_errp (\<lambda>m. ''send sync request: '' @ m) (send_request D (sf_id f))
     | None \<Rightarrow> if path = [] then for_each (\<lambda>f. ignorep (send_request D (sf_id f))) folders else retp ())"

definition text_of :: "string option \<Rightarrow> string" where
  "text_of x = (case x of Some s \<Rightarrow> s | None \<Rightarrow> [])"

definition account_info_of :: "account \<Rightarrow> account_info" where
  "account_info_of a = \<lparr>ai_id = acc_id a, ai_email = acc_email a, ai_display_name = text_of (acc_display_name a)\<rparr>"

definition get_accounts :: "'w daemon_state \<Rightarrow> ('w, account_info list) bus_method" where
  "get_accounts D =
     seqp (with_now D (\<lambda>now. db_call D ''list accounts'' (account_list_all (sv_libs (ds_services D)) now))) (\<lambda>accounts.
     retp (map account_info_of accounts))"

text \<open>Who the token belongs to: Drive's \<open>about.get\<close>, and when that gives no address the userinfo endpoint.\<close>

definition account_identity :: "'w daemon_state \<Rightarrow> string \<Rightarrow> ('w, string \<times> string option) bus_method" where
  "account_identity D access_token =
     (let V = ds_services D in
      seqp (tryp (on_world (on_env (about_get (sv_env V) (sv_codecs V) (sv_drive_client V) access_token
              ''user(displayName,emailAddress)'')))) (\<lambda>about.
      let (email, display_name) =
            (case about of
               Inl (_ :: sync_error) \<Rightarrow> ([], None)
             | Inr a \<Rightarrow> (case ab_user a of
                 Some u \<Rightarrow> (text_of (au_email_address u), au_display_name u)
               | None \<Rightarrow> ([], None)))
      in if email = [] then
           seqp (tryp (on_world (on_env (fetch_google_userinfo (sv_env V) (sv_codecs V) access_token)))) (\<lambda>info.
           retp (case info of Inr en \<Rightarrow> en | Inl (_ :: sync_error) \<Rightarrow> (email, display_name)))
         else retp (email, display_name)))"

definition NOT_CONFIGURED :: string where
  "NOT_CONFIGURED = ''OAuth credentials not configured. Run '' @ [CHR 0x27] @ ''gdrivesync configure'' @ [CHR 0x27]
     @ '' to set Client ID and Client Secret, then restart the daemon.''"

definition add_account :: "'w daemon_state \<Rightarrow> ('w, unit) bus_method" where
  "add_account D =
     (let V = ds_services D; E = sv_env V in
      if ds_resolved_client_id D = [] \<or> ds_resolved_client_secret D = None then failp NOT_CONFIGURED
      else
        seqp (on_world (on_env (okp (env_uuid E)))) (\<lambda>account_id.
        let keyring_key = ''gds:'' @ account_id in
        seqp (map_errp (failed_text D) (on_world (on_env (authorize_flow E (ds_oauth D) (ds_resolved_client_id D)
                (ds_resolved_client_secret D) (oc_redirect_port (cfg_oauth (sv_config V))) keyring_key)))) (\<lambda>(access_token, expires_in).
        seqp (map_errp (failed_text D) (on_world (cache_insert E (sv_libs V) keyring_key access_token expires_in))) (\<lambda>_.
        seqp (account_identity D access_token) (\<lambda>(email, display_name).
        seqp (on_world (on_env (okp (env_now E)))) (\<lambda>now.
        db_call D ''insert account'' (account_insert (sv_libs V)
          \<lparr>acc_id = account_id, acc_email = email, acc_display_name = display_name,
           acc_keyring_key = keyring_key, acc_created_at = now\<rparr>)))))))"

definition need_account :: "'w daemon_state \<Rightarrow> string \<Rightarrow> ('w, account) bus_method" where
  "need_account D i =
     seqp (with_now D (\<lambda>now. db_call D ''get account'' (account_get_by_id (sv_libs (ds_services D)) now i))) (\<lambda>found.
     case found of Some a \<Rightarrow> retp a | None \<Rightarrow> failp ''account not found'')"

definition remove_account :: "'w daemon_state \<Rightarrow> string \<Rightarrow> ('w, unit) bus_method" where
  "remove_account D i =
     seqp (need_account D i) (\<lambda>account.
     seqp (ignorep (on_world (revoke_and_remove (sv_env (ds_services D)) (sv_codecs (ds_services D))
             (acc_keyring_key account)))) (\<lambda>_.
     db_call D ''delete account'' (account_delete_cascade i)))"

definition folder_info_of :: "libs \<Rightarrow> sync_folder \<Rightarrow> sync_folder_info" where
  "folder_info_of L f =
     \<lparr>fi_id = sf_id f, fi_account_id = sf_account_id f, fi_local_path = sf_local_path f,
      fi_drive_folder_id = sf_drive_folder_id f, fi_start_page_token = text_of (sf_start_page_token f),
      fi_last_sync_at = (case sf_last_sync_at f of Some t \<Rightarrow> lib_timestamp L t | None \<Rightarrow> - 1),
      fi_paused = sf_paused f\<rparr>"

definition get_sync_folders :: "'w daemon_state \<Rightarrow> ('w, sync_folder_info list) bus_method" where
  "get_sync_folders D =
     seqp (all_folders D) (\<lambda>folders. retp (map (folder_info_of (sv_libs (ds_services D))) folders))"

definition add_sync_folder :: "'w daemon_state \<Rightarrow> string \<Rightarrow> string \<Rightarrow> ('w, unit) bus_method" where
  "add_sync_folder D local_path drive_folder_id =
     (let V = ds_services D; L = sv_libs V in
      seqp (map_errp (\<lambda>e. ''invalid path: '' @ failed_text D e) (askp (\<lambda>s.
              let d = w_disk (dm_world s) in
              safe_local_path (std_exists d) (std_canonicalize d) (path_of local_path) []))) (\<lambda>_.
      seqp (with_now D (\<lambda>now. db_call D ''list accounts'' (account_list_all L now))) (\<lambda>accounts.
      case accounts of
        [] \<Rightarrow> failp ''no account; add an account first''
      | a # _ \<Rightarrow>
          seqp (on_world (on_env (okp (env_uuid (sv_env V))))) (\<lambda>folder_id.
          seqp (db_call D ''insert folder'' (folder_insert L
            \<lparr>sf_id = folder_id, sf_account_id = acc_id a, sf_local_path = local_path,
             sf_drive_folder_id = drive_folder_id, sf_start_page_token = None,
             sf_last_sync_at = None, sf_paused = False\<rparr>)) (\<lambda>_.
          ignorep (send_request D folder_id))))))"

definition remove_sync_folder :: "'w daemon_state \<Rightarrow> string \<Rightarrow> ('w, unit) bus_method" where
  "remove_sync_folder D i = db_call D ''delete folder'' (folder_delete i)"

definition error_info_of :: "libs \<Rightarrow> sync_error_record \<Rightarrow> sync_error_info" where
  "error_info_of L r =
     \<lparr>ei_id = ser_id r, ei_file_state_id = text_of (ser_file_state_id r), ei_error_message = ser_error_message r,
      ei_occurred_at = lib_timestamp L (ser_occurred_at r), ei_retry_count = ser_retry_count r\<rparr>"

definition get_sync_errors :: "'w daemon_state \<Rightarrow> ('w, sync_error_info list) bus_method" where
  "get_sync_errors D =
     seqp (with_now D (\<lambda>now. db_call D ''get errors''
             (error_get_recent (sv_libs (ds_services D)) now None 100))) (\<lambda>records.
     retp (map (error_info_of (sv_libs (ds_services D))) records))"

definition quota_of :: "about_response \<Rightarrow> quota_info" where
  "quota_of about =
     (case ab_storage_quota about of
        Some q \<Rightarrow> \<lparr>qi_limit = text_of (sq_limit q), qi_usage = text_of (sq_usage q),
                    qi_usage_in_drive = text_of (sq_usage_in_drive q)\<rparr>
      | None \<Rightarrow> \<lparr>qi_limit = [], qi_usage = [], qi_usage_in_drive = []\<rparr>)"

definition get_about_info :: "'w daemon_state \<Rightarrow> string \<Rightarrow> ('w, quota_info) bus_method" where
  "get_about_info D account_id =
     (let V = ds_services D; E = sv_env V in
      seqp (need_account D account_id) (\<lambda>account.
      seqp (map_errp (failed_text D) (on_world (get_valid_access_token E (sv_libs V) (acc_keyring_key account)))) (\<lambda>token.
      seqp (map_errp (failed_text D) (on_world (on_env (about_get E (sv_codecs V) (sv_drive_client V) token
              ''user,storageQuota'')))) (\<lambda>about.
      retp (quota_of about)))))"

section \<open>What the methods do\<close>

lemma folders_of_eq:
  "folders_of L as db = (Inr (concat (map (\<lambda>a. map (folder_of_row L)
     (sort_key sr_id (filter (\<lambda>r. sr_account_id r = acc_id a) (db_sync_folders db)))) as)), db)"
  by (induction as) (simp_all add: proc_simps folder_list_by_account_def)

text \<open>The folders in the order the listing gives them: by account, then by id.\<close>

definition listed_rows :: "db \<Rightarrow> sync_folder_row list" where
  "listed_rows db = concat (map (\<lambda>a. sort_key sr_id (filter (\<lambda>r. sr_account_id r = ar_id a) (db_sync_folders db)))
     (sort_key ar_created_at (db_accounts db)))"

lemma list_all_folders_eq: "list_all_folders L now db = (Inr (map (folder_of_row L) (listed_rows db)), db)"
  by (simp add: list_all_folders_def proc_simps account_list_all_def folders_of_eq listed_rows_def
      map_concat o_def account_of_row_def)

lemma set_listed_rows: "fk_ok db \<Longrightarrow> set (listed_rows db) = set (db_sync_folders db)"
  by (auto simp: listed_rows_def fk_ok_def)

lemma all_folders_eq:
  "all_folders D s = (Inr (map (folder_of_row (sv_libs (ds_services D))) (listed_rows (w_db (dm_world s)))), s)"
  by (simp add: all_folders_def with_now_def db_call_def map_errp_def on_db_raw_def list_all_folders_eq)

definition with_paused :: "bool \<Rightarrow> string set \<Rightarrow> db \<Rightarrow> db" where
  "with_paused p I db = db\<lparr>db_sync_folders :=
     map (\<lambda>r. if sr_id r \<in> I then r\<lparr>sr_paused := (if p then 1 else 0)\<rparr> else r) (db_sync_folders db)\<rparr>"

text \<open>The keys of the schema read ids and account ids only.\<close>

lemma same_keys:
  assumes "map sr_id (db_sync_folders db') = map sr_id (db_sync_folders db)"
    and "map sr_account_id (db_sync_folders db') = map sr_account_id (db_sync_folders db)"
    and "db_accounts db' = db_accounts db" and "db_file_states db' = db_file_states db"
    and "db_sync_errors db' = db_sync_errors db"
  shows "fk_ok db' = fk_ok db" and "db_wf db' = db_wf db"
proof -
  have "sr_id ` set (db_sync_folders db') = sr_id ` set (db_sync_folders db)"
    "sr_account_id ` set (db_sync_folders db') = sr_account_id ` set (db_sync_folders db)"
    using assms(1,2) by (metis set_map)+
  moreover have "(\<forall>r \<in> X. f r \<in> A) \<longleftrightarrow> f ` X \<subseteq> A" for f :: "sync_folder_row \<Rightarrow> string" and X A by auto
  ultimately show "fk_ok db' = fk_ok db"
    unfolding fk_ok_def assms(3-5) by simp
  then show "db_wf db' = db_wf db" unfolding db_wf_def assms by simp
qed

lemma with_paused_keys:
  "map sr_id (db_sync_folders (with_paused p I db)) = map sr_id (db_sync_folders db)"
  "map sr_account_id (db_sync_folders (with_paused p I db)) = map sr_account_id (db_sync_folders db)"
  "db_accounts (with_paused p I db) = db_accounts db" "db_file_states (with_paused p I db) = db_file_states db"
  "db_sync_errors (with_paused p I db) = db_sync_errors db"
  by (simp_all add: with_paused_def)

lemmas wf_with_paused [simp] = same_keys [OF with_paused_keys]

lemma with_paused_empty [simp]: "with_paused p {} db = db"
  by (simp add: with_paused_def)

lemma with_paused_more: "with_paused p J (with_paused p I db) = with_paused p (I \<union> J) db"
  by (auto simp: with_paused_def)

lemma set_paused_eq: "fk_ok db \<Longrightarrow> folder_set_paused i p db = (Inr (), with_paused p {i} db)"
  using wf_with_paused(1) [of p "{i}" db]
  by (simp add: folder_set_paused_def folder_update_def stmt_def with_paused_def cong: if_cong)

lemma set_paused_loop:
  "fk_ok (w_db (dm_world s)) \<Longrightarrow> for_each (\<lambda>f. ignorep (on_db_raw (folder_set_paused (sf_id f) p))) fs s =
     (Inr () :: string + unit, s\<lparr>dm_world := (dm_world s)\<lparr>w_db := with_paused p (sf_id ` set fs) (w_db (dm_world s))\<rparr>\<rparr>)"
proof (induction fs arbitrary: s)
  case Nil
  then show ?case by (simp add: retp_def)
next
  case (Cons f fs)
  let ?s = "s\<lparr>dm_world := (dm_world s)\<lparr>w_db := with_paused p {sf_id f} (w_db (dm_world s))\<rparr>\<rparr>"
  have "ignorep (on_db_raw (folder_set_paused (sf_id f) p)) s = (Inr () :: string + unit, ?s)"
    by (simp add: ignorep_def proc_simps on_db_raw_def set_paused_eq [OF Cons.prems])
  with Cons.IH [of ?s] Cons.prems show ?case by (simp add: proc_simps with_paused_more)
qed

lemma set_pause_eq:
  assumes "db_wf (w_db (dm_world s))"
  shows "set_pause D p s = (Inr (), s\<lparr>dm_world := (dm_world s)
    \<lparr>w_env := sv_store_pause (ds_services D) p (w_env (dm_world s)),
     w_db := with_paused p UNIV (w_db (dm_world s))\<rparr>\<rparr>)"
proof -
  let ?db = "w_db (dm_world s)"
  have fk: "fk_ok ?db" using assms by (simp add: db_wf_def)
  have "with_paused p (sf_id ` set (map (folder_of_row (sv_libs (ds_services D))) (listed_rows ?db))) ?db =
      with_paused p UNIV ?db"
    by (auto simp: with_paused_def set_listed_rows [OF fk] image_image folder_of_row_def)
  then show ?thesis
    by (simp add: set_pause_def proc_simps all_folders_eq set_paused_loop fk)
qed

lemma push_no_folders: "\<forall>f \<in> set fs. sf_paused f \<Longrightarrow> push_folders fs p = p"
  unfolding push_folders_def by (induction fs) simp_all

section \<open>Properties\<close>

text \<open>
  C39: \<open>PauseSync\<close> on a well-formed database succeeds, and in the state it leaves no sync starts: a poll queues no
  folder, and a folder that is queued already is taken off the queue (or waits for the rate limiter)
  with the disk and the database untouched.
\<close>

theorem pause_stops_scheduling:
  assumes "db_wf (w_db (dm_world s))" and "pause_sync D s = (r, s')"
  shows "r = Inr () \<and>
    (\<forall>L now fs db q. list_all_folders L now (w_db (dm_world s')) = (Inr fs, db) \<longrightarrow> push_folders fs q = q) \<and>
    (\<forall>V i rest q leave s''. drain_one V i rest s' = Some (q, leave, s'') \<longrightarrow>
       q \<in> {rest, i # rest} \<and> w_db (dm_world s'') = w_db (dm_world s') \<and> w_disk (dm_world s'') = w_disk (dm_world s'))"
proof -
  have s': "r = Inr ()" "w_db (dm_world s') = with_paused True UNIV (w_db (dm_world s))"
    using assms(2) by (auto simp: pause_sync_def set_pause_eq [OF assms(1)])
  have all: "sr_paused x = 1" if "x \<in> set (db_sync_folders (w_db (dm_world s')))" for x
    using that by (auto simp: s' with_paused_def)
  have poll: "push_folders fs q = q" if "list_all_folders L now (w_db (dm_world s')) = (Inr fs, db)" for L now fs db q
  proof (rule push_no_folders)
    have "set (listed_rows (w_db (dm_world s'))) = set (folder_rows s')"
      by (rule set_listed_rows) (use assms(1) in \<open>simp add: s' db_wf_def\<close>)
    then show "\<forall>f \<in> set fs. sf_paused f"
      using that all by (auto simp: list_all_folders_eq folder_of_row_def)
  qed
  have "q \<in> {rest, i # rest} \<and> w_db (dm_world s'') = w_db (dm_world s') \<and> w_disk (dm_world s'') = w_disk (dm_world s')"
    if "drain_one V i rest s' = Some (q, leave, s'')" for V i rest q leave s''
    using that
  proof (cases rule: drain_one_cases)
    case (synced f n s1)
    with all show ?thesis by (auto simp: find_Some_iff)
  next
    case (failed f e s1 s2)
    with all show ?thesis by (auto simp: find_Some_iff)
  qed auto
  with s' poll show ?thesis by blast
qed

text \<open>
  \<open>ResumeSync\<close> after \<open>PauseSync\<close> gives back the database when no folder was paused before; in any
  case it leaves every folder unpaused, also one whose row was paused before the pause.
\<close>

theorem pause_resume_roundtrip:
  assumes "db_wf (w_db (dm_world s))" and "pause_sync D s = (r, s1)" and "resume_sync D s1 = (r', s2)"
  shows "r' = Inr () \<and> (\<forall>f \<in> set (db_sync_folders (w_db (dm_world s2))). sr_paused f = 0) \<and>
    ((\<forall>f \<in> set (db_sync_folders (w_db (dm_world s))). sr_paused f = 0) \<longrightarrow> w_db (dm_world s2) = w_db (dm_world s))"
proof -
  have s1: "w_db (dm_world s1) = with_paused True UNIV (w_db (dm_world s))"
    using assms(2) by (auto simp: pause_sync_def set_pause_eq [OF assms(1)])
  then have wf: "db_wf (w_db (dm_world s1))" using assms(1) by simp
  have s2: "r' = Inr ()" "w_db (dm_world s2) = with_paused False UNIV (w_db (dm_world s1))"
    using assms(3) by (auto simp: resume_sync_def set_pause_eq [OF wf])
  have db: "w_db (dm_world s2) = with_paused False UNIV (w_db (dm_world s))"
    by (simp add: s1 s2 with_paused_def o_def)
  moreover have "with_paused False UNIV d = d" if "\<forall>f \<in> set (db_sync_folders d). sr_paused f = 0" for d
  proof -
    have "map (sr_paused_update (\<lambda>_. 0)) (db_sync_folders d) = db_sync_folders d"
      using that by (intro map_idI) simp
    then show ?thesis by (simp add: with_paused_def)
  qed
  ultimately show ?thesis using s2 by (auto simp: with_paused_def)
qed

text \<open>
  \<open>ForceSync\<close> asks for at most one sync: that of the first listed folder whose local path is, or
  starts with, the given text. With the empty text, meant for all folders, it is the first folder
  alone; the loop over all folders runs only when there is none.
\<close>

theorem force_sync_requests_one:
  assumes "ds_receiver D (w_env (dm_world s))" and "force_sync D path s = (r, s')"
  shows "r = Inr () \<and> dm_world s' = dm_world s \<and>
    dm_requests s' = dm_requests s @
      (case find (\<lambda>f. path = [] \<or> path = sr_local_path f \<or> starts_with (sr_local_path f) path)
              (listed_rows (w_db (dm_world s))) of
         Some f \<Rightarrow> [sr_id f] | None \<Rightarrow> [])"
proof -
  let ?P = "\<lambda>f. path = [] \<or> path = sf_local_path f \<or> starts_with (sf_local_path f) path"
  let ?Q = "\<lambda>f. path = [] \<or> path = sr_local_path f \<or> starts_with (sr_local_path f) path"
  let ?L = "sv_libs (ds_services D)" and ?rows = "listed_rows (w_db (dm_world s))"
  have row_path: "sf_local_path (folder_of_row ?L f) = sr_local_path f" for f by (simp add: folder_of_row_def)
  have "find ?P (map (folder_of_row ?L) rows) = map_option (folder_of_row ?L) (find ?Q rows)" for rows
    by (simp only: find_map row_path)
  note run = assms(2) [unfolded force_sync_def seqp_def all_folders_eq, simplified, unfolded this]
  show ?thesis
  proof (cases "find ?Q ?rows")
    case None
    have "r = Inr () \<and> s' = s"
    proof (cases "path = []")
      case True
      with None have "?rows = []" by (cases ?rows) auto
      with run None True show ?thesis by (auto simp: retp_def)
    next
      case False
      with run None show ?thesis by (auto simp: retp_def)
    qed
    with None show ?thesis by simp
  next
    case (Some f)
    with run assms(1) show ?thesis by (auto simp: send_request_def map_errp_def folder_of_row_def)
  qed
qed

text \<open>
  C40: \<open>RemoveAccount\<close> of an account in a well-formed database succeeds even when revoking its token
  or deleting it from the keyring fails; afterwards the database has no row of the account, of its
  folders or of their files, and is still well-formed. An unknown account changes nothing.
\<close>

theorem remove_account_complete:
  assumes "db_wf (w_db (dm_world s))" and "remove_account D i s = (r, s')"
  shows "if i \<in> ar_id ` set (db_accounts (w_db (dm_world s)))
    then r = Inr () \<and> db_wf (w_db (dm_world s')) \<and> i \<notin> ar_id ` set (db_accounts (w_db (dm_world s'))) \<and>
      (\<forall>f \<in> set (db_sync_folders (w_db (dm_world s'))). sr_account_id f \<noteq> i) \<and>
      (\<forall>x \<in> set (db_file_states (w_db (dm_world s'))).
         fr_sync_folder_id x \<notin> account_folders (w_db (dm_world s)) i)
    else r = Inl ''account not found'' \<and> s' = s"
proof (cases "find (\<lambda>a. ar_id a = i) (db_accounts (w_db (dm_world s)))")
  case None
  then have "i \<notin> ar_id ` set (db_accounts (w_db (dm_world s)))" by (auto simp: find_None_iff)
  with assms(2) None show ?thesis
    by (simp add: remove_account_def need_account_def seqp_def with_now_def db_call_def map_errp_def on_db_raw_def
        account_get_by_id_def getp_def failp_def)
next
  case (Some row)
  let ?db = "w_db (dm_world s)" and ?V = "ds_services D"
  have i: "i \<in> ar_id ` set (db_accounts ?db)" using Some by (auto simp: find_Some_iff)
  define a where "a = account_of_row (sv_libs ?V) (fallback_now (sv_env ?V) (dm_world s)) row"
  have acc: "need_account D i s = (Inr a, s)"
    by (simp add: need_account_def seqp_def with_now_def db_call_def map_errp_def on_db_raw_def
        account_get_by_id_def getp_def Some retp_def a_def)
  obtain x u where u: "on_world (revoke_and_remove (sv_env ?V) (sv_codecs ?V) (acc_keyring_key a)) s = (x, u)"
    by (metis surj_pair)
  have quiet: "w_db (dm_world u) = ?db"
  proof -
    have "pres (\<lambda>w. w_db w = ?db) (revoke_and_remove (sv_env ?V) (sv_codecs ?V) (acc_keyring_key a))"
      unfolding revoke_and_remove_def by (intro proc_pres pres_on_env [where I = "\<lambda>d. d = ?db"] pres_modp) simp
    from presD [OF pres_on_world [OF this] refl u] show ?thesis by simp
  qed
  obtain db' where db': "account_delete_cascade i ?db = (Inr (), db')"
    using delete_cascade_result [OF assms(1), of i] by blast
  have "(r, s') = (Inr (), u\<lparr>dm_world := (dm_world u)\<lparr>w_db := db'\<rparr>\<rparr>)"
    using assms(2) u db'
    by (simp add: remove_account_def seqp_def acc ignorep_def tryp_def retp_def db_call_def map_errp_def on_db_raw_def
        quiet split: prod.splits)
  moreover have "db_wf db'" using presD [OF pres_delete_cascade assms(1) db'] .
  moreover have "db' = snd (account_delete_cascade i ?db)" using db' by simp
  ultimately show ?thesis
    using i by (auto simp: delete_cascade_result [OF assms(1), of i] purge_def)
qed

section \<open>Examples\<close>

definition demo_state_bus :: "token_map daemon_state" where
  "demo_state_bus = \<lparr>ds_services = demo_services, ds_oauth = demo_oauth, ds_resolved_client_id = ''id'',
     ds_resolved_client_secret = Some ''secret'', ds_receiver = (\<lambda>_. True)\<rparr>"

lemma demo_cycle_wf: "db_wf (w_db (dm_world demo_daemon))"
  by (simp add: demo_daemon_def demo_cycle_db_def demo_db_def db_wf_def fk_ok_def)

lemma pause_stops_scheduling_witness:
  "fst (pause_sync demo_state_bus demo_daemon) = Inr ()"
  using pause_stops_scheduling [OF demo_cycle_wf surjective_pairing, of demo_state_bus] by blast

lemma pause_resume_roundtrip_witness:
  "w_db (dm_world (snd (resume_sync demo_state_bus (snd (pause_sync demo_state_bus demo_daemon))))) = demo_cycle_db"
proof -
  have "\<forall>f \<in> set (db_sync_folders (w_db (dm_world demo_daemon))). sr_paused f = 0"
    by (simp add: demo_daemon_def demo_cycle_db_def demo_db_def)
  then show ?thesis
    using pause_resume_roundtrip [OF demo_cycle_wf surjective_pairing surjective_pairing, of demo_state_bus]
    by (simp add: demo_daemon_def)
qed

lemma force_sync_requests_one_witness:
  "dm_requests (snd (force_sync demo_state_bus [] (demo_daemon\<lparr>dm_world := (dm_world demo_daemon)\<lparr>w_db :=
     demo_cycle_db\<lparr>db_sync_folders := db_sync_folders demo_cycle_db @
       map (sr_id_update (\<lambda>_. ''f2'')) (db_sync_folders demo_cycle_db)\<rparr>\<rparr>\<rparr>))) = [''f1'']"
proof -
  let ?s = "demo_daemon\<lparr>dm_world := (dm_world demo_daemon)\<lparr>w_db :=
     demo_cycle_db\<lparr>db_sync_folders := db_sync_folders demo_cycle_db @
       map (sr_id_update (\<lambda>_. ''f2'')) (db_sync_folders demo_cycle_db)\<rparr>\<rparr>\<rparr>"
  have rx: "ds_receiver demo_state_bus (w_env (dm_world ?s))" by (simp add: demo_state_bus_def)
  have "map sr_id (listed_rows (w_db (dm_world ?s))) = [''f1'', ''f2'']"
    by (simp add: listed_rows_def demo_cycle_db_def demo_db_def)
  then obtain f fs where "listed_rows (w_db (dm_world ?s)) = f # fs" "sr_id f = ''f1''"
    by (cases "listed_rows (w_db (dm_world ?s))") auto
  with force_sync_requests_one [OF rx surjective_pairing, of "[]"] show ?thesis
    by (simp add: demo_daemon_def)
qed

lemma remove_account_complete_witness:
  "fst (remove_account demo_state_bus ''a1'' demo_daemon) = Inr ()"
  using remove_account_complete [OF demo_cycle_wf surjective_pairing, of "''a1''" demo_state_bus]
  by (simp add: demo_daemon_def demo_cycle_db_def split: if_splits)

end
