(* ===== verification/Gds_Remote.thy ===== *)
theory Gds_Remote
  imports Gds_Transfer
begin

text \<open>
  What \<open>compute_remote_changes\<close> of \<open>sync/diff.rs\<close> makes of a list of Drive changes: each change
  gives at most one action, described without the maps that the code threads through its loop. The
  name of a new file is taken as Drive has it, and the last section follows such a name to the disk.
\<close>

section \<open>The actions of one change\<close>

definition first_parent :: "drive_file \<Rightarrow> string option" where
  "first_parent f = Option.bind (df_parents f) (\<lambda>ps. case ps of [] \<Rightarrow> None | p # _ \<Rightarrow> Some p)"

text \<open>The download of a file to a path, when the recorded state calls it changed.\<close>

definition download_piece ::
    "libs \<Rightarrow> sync_folder \<Rightarrow> db \<Rightarrow> string \<Rightarrow> file_state option \<Rightarrow> drive_file \<Rightarrow> sync_action list" where
  "download_piece L folder db path known f =
     (case (case fst (fs_get_by_path L (sf_id folder) path db) of Inr (Some s) \<Rightarrow> Some s | _ \<Rightarrow> known) of
        Some state \<Rightarrow>
          if remote_changed state (df_md5_checksum f) (parse_drive_modified L (df_modified_time f))
          then [update_download path state f] else []
      | None \<Rightarrow> [new_download path f])"

text \<open>
  The path of a file that the database does not know: its name below the path of its first parent, when
  that has one, its bare name in the synced folder itself, and no path elsewhere.
\<close>

definition place :: "string \<Rightarrow> (string \<Rightarrow> string option) \<Rightarrow> drive_file \<Rightarrow> string option" where
  "place root path f =
     (case Option.bind (first_parent f) path of
        Some (c # cs) \<Rightarrow> Some ((c # cs) @ ''/'' @ df_name f)
      | _ \<Rightarrow> if first_parent f = Some root then Some (df_name f) else None)"

definition new_place ::
    "string \<Rightarrow> (string \<times> file_state) list \<Rightarrow> (string \<Rightarrow> string option) \<Rightarrow> drive_change \<Rightarrow> string option" where
  "new_place root known path ch =
     (if ch_removed ch = Some True \<or> map_of known (ch_file_id ch) \<noteq> None then None
      else case ch_file ch of None \<Rightarrow> None | Some f \<Rightarrow> if is_trashed f then None else place root path f)"

text \<open>
  The path of a Drive id after some changes, the latest first: that of the latest change that gave it
  one, else the recorded one.
\<close>

fun path_after ::
    "string \<Rightarrow> (string \<times> file_state) list \<Rightarrow> drive_change list \<Rightarrow> string \<Rightarrow> string option" where
  "path_after root known [] i = map_option fs_relative_path (map_of known i)"
| "path_after root known (ch # earlier) i =
     (case new_place root known (path_after root known earlier) ch of
        Some p \<Rightarrow> if i = ch_file_id ch then Some p else path_after root known earlier i
      | None \<Rightarrow> path_after root known earlier i)"

text \<open>The actions of one change, given the paths of the Drive ids before it.\<close>

definition remote_piece ::
    "libs \<Rightarrow> sync_folder \<Rightarrow> db \<Rightarrow> (string \<times> file_state) list \<Rightarrow> (string \<Rightarrow> string option) \<Rightarrow>
     drive_change \<Rightarrow> sync_action list" where
  "remote_piece L folder db known path ch =
     (if ch_removed ch = Some True then
        (case map_of known (ch_file_id ch) of
           Some st \<Rightarrow> [delete_local (fs_relative_path st) st] | None \<Rightarrow> [])
      else case ch_file ch of
        None \<Rightarrow> []
      | Some f \<Rightarrow>
          if is_trashed f then []
          else case map_of known (ch_file_id ch) of
            Some st \<Rightarrow> download_piece L folder db (fs_relative_path st) (Some st) f
          | None \<Rightarrow> (case place (sf_drive_folder_id folder) path f of
              None \<Rightarrow> [] | Some p \<Rightarrow> download_piece L folder db p None f))"

lemma remote_path_unknown:
  assumes "map_of known i = None"
  shows "remote_path root known paths i f =
    map_option (\<lambda>p. (p, AList.update i p paths)) (place root (map_of paths) f)"
  using assms
  by (auto simp: remote_path_def first_parent_def place_def join_rel_path_def Let_def
      split: option.splits list.splits)

lemma remote_path_known:
  "map_of known i = Some st \<Longrightarrow> remote_path root known paths i f = Some (fs_relative_path st, paths)"
  by (simp add: remote_path_def)

lemma lookup_world:
  "on_db (fs_get_by_path L i p) s =
     (case fst (fs_get_by_path L i p (w_db s)) of
        Inl e \<Rightarrow> (Inl (DatabaseError e), s) | Inr x \<Rightarrow> (Inr x, s))"
  by (auto simp: on_db_def fs_get_by_path_def split: option.splits sum.splits)

lemma consp_InrE:
  assumes "consp x m s = (Inr ys, s')"
  obtains xs where "m s = (Inr xs, s')" "ys = x # xs"
  using assms by (auto simp: consp_def retp_def elim: seqp_InrE)

text \<open>One change in front of the loop.\<close>

lemma remote_step:
  assumes "remote_changes L folder known paths (ch # chs) s = (Inr acts, s')"
  obtains rest paths' where "acts = remote_piece L folder (w_db s) known (map_of paths) ch @ rest"
    and "remote_changes L folder known paths' chs s = (Inr rest, s')"
    and "map_of paths' = (case new_place (sf_drive_folder_id folder) known (map_of paths) ch of
      Some p \<Rightarrow> (map_of paths)(ch_file_id ch \<mapsto> p) | None \<Rightarrow> map_of paths)"
proof (cases "ch_removed ch = Some True")
  case True
  with assms show ?thesis
    by (cases "map_of known (ch_file_id ch)")
      (auto simp: remote_piece_def new_place_def elim!: consp_InrE intro: that)
next
  case rm: False
  show ?thesis
  proof (cases "\<exists>f. ch_file ch = Some f \<and> \<not> is_trashed f")
    case False
    with rm assms show ?thesis
      by (cases "ch_file ch") (auto simp: remote_piece_def new_place_def intro: that)
  next
    case True
    then obtain f where f: "ch_file ch = Some f" "\<not> is_trashed f" by blast
    let ?known = "map_of known (ch_file_id ch)" and ?root = "sf_drive_folder_id folder"
    show ?thesis
    proof (cases "remote_path ?root known paths (ch_file_id ch) f")
      case None
      then have u: "?known = None" by (auto simp: remote_path_def split: option.splits)
      with None have "place ?root (map_of paths) f = None" by (simp add: remote_path_unknown)
      with u None rm f assms show ?thesis
        by (intro that [of acts paths]) (auto simp: remote_piece_def new_place_def)
    next
      case (Some pp)
      obtain p paths' where pp: "pp = (p, paths')" by (cases pp)
      have ok: "remote_piece L folder (w_db s) known (map_of paths) ch = download_piece L folder (w_db s) p ?known f"
        and paths': "map_of paths' = (case new_place ?root known (map_of paths) ch of
          Some p \<Rightarrow> (map_of paths)(ch_file_id ch \<mapsto> p) | None \<Rightarrow> map_of paths)"
        using Some rm f
        by (cases ?known; auto simp: remote_piece_def pp remote_path_known remote_path_unknown new_place_def map_of_update)+
      have "\<exists>rest. acts = download_piece L folder (w_db s) p ?known f @ rest \<and>
          remote_changes L folder known paths' chs s = (Inr rest, s')"
        using assms rm f Some
        by (auto simp: pp seqp_def lookup_world download_piece_def elim!: consp_InrE
            split: sum.splits option.splits if_splits)
      with ok paths' show ?thesis using that by metis
    qed
  qed
qed

lemma remote_changes_pieces:
  assumes "remote_changes L folder known paths chs s = (Inr acts, s')"
    and "map_of paths = path_after (sf_drive_folder_id folder) known earlier"
  shows "s' = s \<and> acts = concat (map (\<lambda>k. remote_piece L folder (w_db s) known
    (path_after (sf_drive_folder_id folder) known (rev (take k chs) @ earlier)) (chs ! k)) [0..<length chs])"
  using assms
proof (induction chs arbitrary: paths acts earlier)
  case Nil
  then show ?case by (simp add: retp_def)
next
  case (Cons ch chs)
  obtain rest paths' where step: "acts = remote_piece L folder (w_db s) known (map_of paths) ch @ rest"
    "remote_changes L folder known paths' chs s = (Inr rest, s')"
    and paths: "map_of paths' = (case new_place (sf_drive_folder_id folder) known (map_of paths) ch of
      Some p \<Rightarrow> (map_of paths)(ch_file_id ch \<mapsto> p) | None \<Rightarrow> map_of paths)"
    using Cons.prems(1) by (rule remote_step)
  have "map_of paths' = path_after (sf_drive_folder_id folder) known (ch # earlier)"
    unfolding paths Cons.prems(2) by (rule ext) (auto split: option.split)
  from Cons.IH [OF step(2) this] show ?case
    using step(1) Cons.prems(2) by (simp add: map_upt_Suc del: upt_Suc path_after.simps)
qed

text \<open>
  C4: \<open>compute_remote_changes\<close> leaves the database as it is and gives, in the order of the changes,
  exactly the actions of each change, at most one. A removed file gives a local deletion exactly when the
  database knows its Drive id; a trashed file and a removed unknown one give nothing. A known file keeps its
  recorded path, also when Drive has renamed or moved it, and is downloaded exactly when its digest or time
  differs from the recorded ones. An unknown file gets its name below the path of its first parent, as it is
  after the changes before it, or its bare name when the parent is the synced folder, and is passed over when
  the parent is neither; at that path it is downloaded, unless a state recorded there calls it unchanged.
\<close>

theorem remote_changes_exact:
  assumes run: "compute_remote_changes L folder cs s = (Inr acts, s')"
    and states: "fst (fs_list_by_folder L (sf_id folder) (w_db s)) = Inr states"
  defines "known \<equiv> states_by_drive_id states"
  shows "s' = s \<and> acts = concat (map (\<lambda>k. remote_piece L folder (w_db s) known
    (path_after (sf_drive_folder_id folder) known (rev (take k (cs_changes cs)))) (cs_changes cs ! k))
    [0..<length (cs_changes cs)])"
proof -
  have "on_db (fs_list_by_folder L (sf_id folder)) s = (Inr states, s)"
    using states by (simp add: on_db_apply)
  then have "remote_changes L folder known (map (\<lambda>(i, s). (i, fs_relative_path s)) known) (cs_changes cs) s =
      (Inr acts, s')"
    using run by (simp add: compute_remote_changes_def seqp_def Let_def known_def)
  moreover have "map_of (map (\<lambda>(i, s). (i, fs_relative_path s)) known) =
      path_after (sf_drive_folder_id folder) known []"
    by (rule ext) (simp add: map_of_map)
  ultimately show ?thesis using remote_changes_pieces [where earlier = "[]"] by simp
qed

section \<open>The name of a file is not checked\<close>

definition escaping_file :: drive_file where
  "escaping_file = demo_drive_file\<lparr>df_name := ''../x'', df_parents := Some [''root'']\<rparr>"

definition escaping_changes :: change_set where
  "escaping_changes = \<lparr>cs_next_page_token = None, cs_new_start_page_token = None,
     cs_changes = [\<lparr>ch_change_type = ''file'', ch_file_id = ''d9'', ch_file = Some escaping_file,
       ch_removed = None\<rparr>]\<rparr>"

lemma demo_no_states: "fs_list_by_folder L i demo_db = (Inr [], demo_db)"
  by (simp add: fs_list_by_folder_def demo_db_def)

lemma demo_escaping_changes:
  "compute_remote_changes demo_libs demo_folder escaping_changes demo_world =
     (Inr [new_download ''../x'' escaping_file], demo_world)"
proof -
  have w: "w_db demo_world = demo_db" "w_env demo_world = [(''acc'', ''rt'')]" by (simp_all add: demo_world_def)
  have "fst (fs_get_by_path demo_libs ''f1'' p demo_db) = Inr None" for p
    by (simp add: fs_get_by_path_def demo_db_def)
  then show ?thesis
    by (simp add: compute_remote_changes_def seqp_def on_db_apply demo_no_states w states_by_drive_id_def
        collect_map_def escaping_changes_def is_trashed_def escaping_file_def demo_drive_file_def
        remote_path_def demo_folder_def join_rel_path_def consp_def retp_def Let_def)
qed

text \<open>A new directory, a file in it, a file elsewhere, and one whose directory comes later.\<close>

definition nested_changes :: change_set where
  "nested_changes = \<lparr>cs_next_page_token = None, cs_new_start_page_token = None,
     cs_changes = map (\<lambda>(i, p, n). \<lparr>ch_change_type = ''file'', ch_file_id = i,
         ch_file = Some (demo_drive_file\<lparr>df_id := i, df_name := n, df_parents := Some [p]\<rparr>), ch_removed = None\<rparr>)
       [(''d8'', ''d9'', ''early''), (''d9'', ''root'', ''sub''), (''d10'', ''d9'', ''x''), (''d11'', ''other'', ''y'')]\<rparr>"

lemma demo_no_row: "fst (fs_get_by_path L f p demo_db) = Inr None"
  by (simp add: fs_get_by_path_def demo_db_def)

lemma demo_nested_run:
  "\<exists>acts. compute_remote_changes demo_libs demo_folder nested_changes demo_world = (Inr acts, demo_world)"
proof -
  have w: "w_db demo_world = demo_db" by (simp add: demo_world_def)
  show ?thesis
    by (simp add: compute_remote_changes_def seqp_def on_db_apply demo_no_states demo_no_row w states_by_drive_id_def
        collect_map_def nested_changes_def is_trashed_def demo_drive_file_def
        remote_path_def demo_folder_def join_rel_path_def consp_def retp_def Let_def)
qed

lemma remote_changes_exact_witness:
  "map sa_relative_path (case fst (compute_remote_changes demo_libs demo_folder nested_changes demo_world) of
     Inr acts \<Rightarrow> acts | Inl _ \<Rightarrow> []) = [''sub'', ''sub/x'']"
proof -
  obtain acts where run: "compute_remote_changes demo_libs demo_folder nested_changes demo_world = (Inr acts, demo_world)"
    using demo_nested_run by blast
  have w: "w_db demo_world = demo_db" by (simp add: demo_world_def)
  have "fst (fs_list_by_folder demo_libs (sf_id demo_folder) (w_db demo_world)) = Inr []"
    by (simp add: w demo_no_states)
  from remote_changes_exact [OF run this] have "acts =
      [new_download ''sub'' (demo_drive_file\<lparr>df_id := ''d9'', df_name := ''sub'', df_parents := Some [''root'']\<rparr>),
       new_download ''sub/x'' (demo_drive_file\<lparr>df_id := ''d10'', df_name := ''x'', df_parents := Some [''d9'']\<rparr>)]"
    by (simp add: upt_rec [of _ 4] upt_rec [of _ 3] nested_changes_def remote_piece_def download_piece_def states_by_drive_id_def
        collect_map_def w demo_no_row new_place_def place_def first_parent_def is_trashed_def demo_drive_file_def
        demo_folder_def numeral_eq_Suc)
  with run show ?thesis by (simp add: new_download_def)
qed

text \<open>
  A file that Drive calls \<open>../x\<close> is downloaded by the next cycle to \<open>/x\<close>, outside the synced
  directory \<open>/r\<close>: neither the diff engine nor the executor checks the path.
\<close>

lemma demo_escaping_write:
  "fst (tokio_write_atomic demo_root ''../x'' [] demo_plain_disk) = Inr ()"
  "contents (snd (tokio_write_atomic demo_root ''../x'' [] demo_plain_disk)) [''x''] = Some []"
  by code_simp+

theorem remote_name_escapes_root:
  "\<exists>acts s'. compute_remote_changes demo_libs demo_folder escaping_changes demo_world = (Inr acts, demo_world) \<and>
     execute_one token_env (tokio_local_fs demo_libs) demo_libs demo_codecs demo_executor demo_root
       demo_folder (hd acts) demo_world = (Inr (Some ()), s') \<and>
     contents demo_plain_disk [''x''] = None \<and> contents (w_disk s') [''x''] = Some []"
proof -
  obtain d where d: "tokio_write_atomic demo_root ''../x'' [] demo_plain_disk = (Inr (), d)"
      "contents d [''x''] = Some []"
    using demo_escaping_write by (metis prod.collapse)
  have w: "w_disk demo_world = demo_plain_disk" "w_db demo_world = demo_db" by (simp_all add: demo_world_def)
  have c: "contents demo_plain_disk [''x''] = None"
    by (simp add: contents_def demo_plain_disk_def lookup_node_def)
  have m: "remote_content token_env demo_codecs demo_executor token escaping_file w = (Inr [], w)" for token w
    by (rule trans [OF _ demo_media [of token w]]) (simp add: remote_content_def escaping_file_def cong: option.case_cong)
  have u: "fs_upsert demo_libs st demo_db =
      (Inr (), demo_db\<lparr>db_file_states := [row_of_file_state demo_libs st]\<rparr>)"
    if "fs_sync_folder_id st = ''f1''" for st
    using that by (simp add: fs_upsert_def upsert_row_def id_clash_def stmt_def put_row_def demo_db_def
        fk_ok_def row_of_file_state_def)
  have "\<exists>s'. execute_one token_env (tokio_local_fs demo_libs) demo_libs demo_codecs demo_executor demo_root
      demo_folder (new_download ''../x'' escaping_file) demo_world = (Inr (Some ()), s') \<and> w_disk s' = d"
    by (simp add: u execute_one_def demo_executor_def executor_new_def seqp_def demo_token somep_def
        exec_download_def need_def retp_def on_env_def on_disk_def on_db_def okp_def d w
        m [unfolded demo_executor_def executor_new_def] new_download_def demo_folder_def
        file_state_after_download_def Let_def split: prod.splits)
  then show ?thesis using demo_escaping_changes d(2) c by (metis list.sel(1))
qed

end
