(* ===== verification/Gds_File_Map.thy ===== *)
theory Gds_File_Map
  imports Gds_Database
begin

text \<open>
  The table \<open>file_states\<close> as an abstract data type. The diff engine and the executor use it as a
  map from a folder and a path to the recorded state; here the repository's operations of
  \<open>db/file_state.rs\<close> are shown to refine such a map, over whole histories of calls, where a call
  that fails is one that does nothing.
\<close>

section \<open>Histories of a store that refines an abstract state\<close>

text \<open>A list of calls, each made whether or not the one before it failed; which ones succeeded.\<close>

fun history :: "('op \<Rightarrow> ('s, 'e, unit) proc) \<Rightarrow> 'op list \<Rightarrow> 's \<Rightarrow> bool list \<times> 's" where
  "history exec [] s = ([], s)"
| "history exec (op # ops) s =
     (case exec op s of
        (Inl e, s') \<Rightarrow> map_prod ((#) False) id (history exec ops s')
      | (Inr u, s') \<Rightarrow> map_prod ((#) True) id (history exec ops s'))"

definition succeeded :: "'op list \<Rightarrow> bool list \<Rightarrow> 'op list" where
  "succeeded ops oks = map fst (filter snd (zip ops oks))"

lemma succeeded_simps [simp]:
  "succeeded [] oks = []"
  "succeeded (op # ops) (ok # oks) = (if ok then op # succeeded ops oks else succeeded ops oks)"
  by (simp_all add: succeeded_def)

locale abstraction =
  fixes exec :: "'op \<Rightarrow> ('s, 'e, unit) proc"
    and valid :: "'s \<Rightarrow> bool"
    and abs :: "'s \<Rightarrow> 'm"
    and abs_step :: "'m \<Rightarrow> 'op \<Rightarrow> 'm"
  assumes valid_step: "valid s \<Longrightarrow> valid (snd (exec op s))"
    and success: "valid s \<Longrightarrow> exec op s = (Inr u, s') \<Longrightarrow> abs s' = abs_step (abs s) op"
    and failure: "exec op s = (Inl e, s') \<Longrightarrow> s' = s"
begin

lemma simulates:
  assumes "valid s" and "history exec ops s = (oks, s')"
  shows "valid s' \<and> length oks = length ops \<and> abs s' = foldl abs_step (abs s) (succeeded ops oks)"
  using assms
proof (induction ops arbitrary: s oks)
  case Nil
  then show ?case by simp
next
  case (Cons op ops)
  obtain r s1 where r: "exec op s = (r, s1)" by force
  have v: "valid s1" using valid_step [OF Cons.prems(1), of op] r by simp
  obtain oks1 where h: "history exec ops s1 = (oks1, s')" "oks = (case r of Inl _ \<Rightarrow> False | Inr _ \<Rightarrow> True) # oks1"
    using Cons.prems(2) r by (cases "history exec ops s1") (auto split: sum.splits)
  then show ?case
    using Cons.IH [OF v h(1)] success [OF Cons.prems(1)] r by (cases r) (auto dest: failure)
qed

end

section \<open>The table as a map\<close>

definition file_map :: "db \<Rightarrow> string \<times> string \<Rightarrow> file_state_row option" where
  "file_map db = (\<lambda>k. find (\<lambda>r. fs_key r = k) (db_file_states db))"

datatype store_op = Upsert file_state | BulkUpsert "file_state list" | Delete string

fun store_exec :: "libs \<Rightarrow> store_op \<Rightarrow> unit db_proc" where
  "store_exec L (Upsert s) = fs_upsert L s"
| "store_exec L (BulkUpsert ss) = fs_bulk_upsert L ss"
| "store_exec L (Delete i) = fs_delete i"

definition map_put ::
    "libs \<Rightarrow> (string \<times> string \<Rightarrow> file_state_row option) \<Rightarrow> file_state \<Rightarrow> string \<times> string \<Rightarrow> file_state_row option"
  where "map_put L m s = m(fs_path_key s \<mapsto> row_of_file_state L s)"

fun map_step ::
    "libs \<Rightarrow> (string \<times> string \<Rightarrow> file_state_row option) \<Rightarrow> store_op \<Rightarrow> string \<times> string \<Rightarrow> file_state_row option"
  where
  "map_step L m (Upsert s) = map_put L m s"
| "map_step L m (BulkUpsert ss) = foldl (map_put L) m ss"
| "map_step L m (Delete i) = m |` {k. \<forall>r. m k = Some r \<longrightarrow> fr_id r \<noteq> i}"

lemma file_map_upsert: "fs_upsert L s db = (Inr u, db') \<Longrightarrow> file_map db' = map_put L (file_map db) s"
  using upsert_row_find [of "row_of_file_state L s" db db']
  by (auto simp: file_map_def map_put_def fs_upsert_def)

lemma file_map_upserts:
  "for_each (fs_upsert L) ss db = (Inr u, db') \<Longrightarrow> file_map db' = foldl (map_put L) (file_map db) ss"
proof (induction ss arbitrary: db)
  case Nil
  then show ?case by (simp add: retp_def)
next
  case (Cons s ss)
  from Cons.prems obtain v db1 where
    "fs_upsert L s db = (Inr v, db1)" "for_each (fs_upsert L) ss db1 = (Inr u, db')"
    by (auto elim: seqp_InrE)
  then show ?case using Cons.IH file_map_upsert by simp
qed

lemma find_filter_distinct:
  "distinct (map k xs) \<Longrightarrow>
   find (\<lambda>x. k x = y) (filter P xs) =
     (case find (\<lambda>x. k x = y) xs of Some x \<Rightarrow> if P x then Some x else None | None \<Rightarrow> None)"
proof (induction xs)
  case (Cons x xs)
  have "find (\<lambda>x. k x = y) xs = None" if "k x = y"
    using Cons.prems that unfolding find_None_iff by (metis distinct.simps(2) image_eqI image_set list.simps(9))
  with Cons show ?case by (auto split: option.splits)
qed simp

lemma find_distinct_Some:
  "distinct (map k xs) \<Longrightarrow> find (\<lambda>x. k x = y) xs = Some x \<longleftrightarrow> x \<in> set xs \<and> k x = y"
  by (induction xs) (auto simp: image_iff)

lemma file_map_rows:
  "db_wf db \<Longrightarrow> file_map db k = Some r \<longleftrightarrow> r \<in> set (db_file_states db) \<and> fs_key r = k"
  by (simp add: file_map_def db_wf_def find_distinct_Some)

lemma file_map_delete:
  assumes "db_wf db" and "fs_delete i db = (Inr u, db')"
  shows "file_map db' = map_step L (file_map db) (Delete i)"
proof
  fix k
  have "db_file_states db' = filter (\<lambda>r. fr_id r \<noteq> i) (db_file_states db)"
    using assms(2) by (auto simp: fs_delete_def stmt_def split: if_splits)
  then show "file_map db' k = map_step L (file_map db) (Delete i) k"
    using assms(1)
    by (simp add: file_map_def find_filter_distinct db_wf_def restrict_map_def split: option.splits)
qed

lemma store_exec_wf: "db_wf db \<Longrightarrow> db_wf (snd (store_exec L op db))"
proof -
  have "pres db_wf (store_exec L op)" by (cases op) (simp_all add: proc_pres)
  then show "db_wf db \<Longrightarrow> db_wf (snd (store_exec L op db))" by (simp add: pres_def)
qed

lemma store_exec_fails: "store_exec L op db = (Inl e, db') \<Longrightarrow> db' = db"
  by (cases op)
    (auto simp: fs_upsert_def fs_bulk_upsert_def transaction_def fs_delete_def stmt_def
      dest: upsert_row_fail split: prod.splits sum.splits if_splits)

interpretation file_table: abstraction "store_exec L" db_wf file_map "map_step L" for L
proof unfold_locales
  show "db_wf db \<Longrightarrow> db_wf (snd (store_exec L op db))" for db op by (rule store_exec_wf)
  show "store_exec L op db = (Inl e, db') \<Longrightarrow> db' = db" for op db e db' by (rule store_exec_fails)
  show "file_map db' = map_step L (file_map db) op"
    if "db_wf db" "store_exec L op db = (Inr u, db')" for db op u db'
    using that file_map_upsert file_map_upserts file_map_delete
    by (cases op) (auto simp: fs_bulk_upsert_def transaction_def split: prod.splits sum.splits)
qed

section \<open>Reading the table is reading the map\<close>

definition read_row :: "libs \<Rightarrow> file_state_row option \<Rightarrow> db_error + file_state option" where
  "read_row L x = (case x of None \<Rightarrow> Inr None | Some r \<Rightarrow> map_sum id Some (row_to_file_state L r))"

lemma get_is_lookup: "fst (fs_get_by_path L f p db) = read_row L (file_map db (f, p))"
  by (simp add: get_by_path_find read_row_def file_map_def)

lemma collect_rows_set:
  "collect_rows f xs = Inr ys \<Longrightarrow> Inr ` set ys = f ` set xs"
proof (induction xs arbitrary: ys)
  case (Cons x xs)
  then obtain y zs where "f x = Inr y" "collect_rows f xs = Inr zs" "ys = y # zs"
    by (cases "f x"; cases "collect_rows f xs") auto
  with Cons.IH show ?case by (metis image_insert list.simps(15))
qed simp

lemma list_is_range:
  assumes "db_wf db" and "fst (fs_list_by_folder L f db) = Inr states"
  shows "Inr ` set states = row_to_file_state L ` {r. \<exists>p. file_map db (f, p) = Some r}"
proof -
  have "Inr ` set states = row_to_file_state L ` {r \<in> set (db_file_states db). fr_sync_folder_id r = f}"
    using assms(2) collect_rows_set [of "row_to_file_state L"] by (fastforce simp: fs_list_by_folder_def)
  moreover have "{r. \<exists>p. file_map db (f, p) = Some r} =
      {r \<in> set (db_file_states db). fr_sync_folder_id r = f}"
    by (auto simp: file_map_rows [OF assms(1)] fs_key_def)
  ultimately show ?thesis by simp
qed

text \<open>
  C22: the table of file states refines a map from folder and path to a row. After any history of
  upserts, bulk upserts and deletions, of which some may have failed on a key of the schema, the
  table is the map that the successful ones give in their order; a batch counts as a whole or not
  at all. Looking up a path and listing a folder read this map and nothing else.
\<close>

theorem file_states_refine_map:
  assumes "db_wf db" and "history (store_exec L) ops db = (oks, db')"
  shows "length oks = length ops \<and>
    file_map db' = foldl (map_step L) (file_map db) (succeeded ops oks) \<and>
    (\<forall>f p. fst (fs_get_by_path L f p db') = read_row L (file_map db' (f, p))) \<and>
    (\<forall>f states. fst (fs_list_by_folder L f db') = Inr states \<longrightarrow>
       Inr ` set states = row_to_file_state L ` {r. \<exists>p. file_map db' (f, p) = Some r})"
  using file_table.simulates [OF assms] get_is_lookup list_is_range by blast

definition demo_ops :: "store_op list" where
  "demo_ops = [Upsert demo_state, BulkUpsert [demo_state\<lparr>fs_relative_path := ''b''\<rparr>],
     Upsert (demo_state\<lparr>fs_drive_md5 := Some ''n''\<rparr>), Delete ''s1'']"

text \<open>The batch reuses the id of another path and fails; the deletion empties the map.\<close>

lemma demo_history:
  "fst (history (store_exec demo_libs) demo_ops demo_db) = [True, False, True, True]"
  by (simp add: image_iff demo_ops_def fs_upsert_def fs_bulk_upsert_def fs_delete_def transaction_def seqp_def
      retp_def upsert_row_def id_clash_def stmt_def put_row_def demo_db_def fk_ok_def
      fs_key_def row_of_file_state_def demo_state_def new_pending_def)

lemma file_states_refine_map_witness:
  "file_map (snd (history (store_exec demo_libs) demo_ops demo_db)) (''f1'', ''a.txt'') = None"
proof -
  obtain db' where h: "history (store_exec demo_libs) demo_ops demo_db = ([True, False, True, True], db')"
    using demo_history by (metis prod.collapse)
  from file_states_refine_map [OF demo_db_wf h]
  have "file_map db' k = foldl (map_step demo_libs) (file_map demo_db)
      (succeeded demo_ops [True, False, True, True]) k" for k
    by simp
  from this [of "(''f1'', ''a.txt'')"] have "file_map db' (''f1'', ''a.txt'') = None"
    by (simp add: demo_ops_def map_put_def fs_path_key_def row_of_file_state_def restrict_map_def
        demo_state_def new_pending_def)
  then show ?thesis using h by simp
qed

end
