(* ===== verification/Gds_Catalogue.thy ===== *)
theory Gds_Catalogue
  imports Gds_File_Map
begin

text \<open>
  The tables of accounts and of sync folders as an abstract data type: two maps from ids, and the set of
  folders that have file states. The repository's operations of \<open>db/account.rs\<close> and
  \<open>db/sync_folder.rs\<close> are shown to do on the tables exactly what their counterparts do on the maps, with
  the same successes and errors, over whole histories of calls.
\<close>

section \<open>Histories with their outcomes\<close>

text \<open>A list of calls, each made whether or not the one before it failed, and what each answered.\<close>

fun outcomes :: "('op \<Rightarrow> ('s, 'e, unit) proc) \<Rightarrow> 'op list \<Rightarrow> 's \<Rightarrow> ('e + unit) list \<times> 's" where
  "outcomes exec [] s = ([], s)"
| "outcomes exec (op # ops) s = (let (r, s1) = exec op s; (rs, s2) = outcomes exec ops s1 in (r # rs, s2))"

locale exact_abstraction =
  fixes exec :: "'op \<Rightarrow> ('s, 'e, unit) proc"
    and valid :: "'s \<Rightarrow> bool"
    and abs :: "'s \<Rightarrow> 'm"
    and abs_exec :: "'op \<Rightarrow> ('m, 'e, unit) proc"
  assumes valid_step: "valid s \<Longrightarrow> valid (snd (exec op s))"
    and same: "valid s \<Longrightarrow> exec op s = (r, s') \<Longrightarrow> abs_exec op (abs s) = (r, abs s')"
begin

lemma same_history:
  "valid s \<Longrightarrow> outcomes exec ops s = (rs, s') \<Longrightarrow> valid s' \<and> outcomes abs_exec ops (abs s) = (rs, abs s')"
proof (induction ops arbitrary: s rs)
  case Nil
  then show ?case by simp
next
  case (Cons op ops)
  obtain r s1 where r: "exec op s = (r, s1)" by force
  obtain rs1 where h: "outcomes exec ops s1 = (rs1, s')" "rs = r # rs1"
    using Cons.prems(2) r by (cases "outcomes exec ops s1") auto
  have "valid s1" using valid_step [OF Cons.prems(1), of op] r by simp
  from Cons.IH [OF this h(1)] same [OF Cons.prems(1) r] h(2) show ?case by simp
qed

end

section \<open>The catalogue\<close>

record catalogue =
  cat_accounts :: "string \<Rightarrow> account_row option"
  cat_folders :: "string \<Rightarrow> sync_folder_row option"
  cat_busy :: "string set"

definition catalogue_of :: "db \<Rightarrow> catalogue" where
  "catalogue_of db = \<lparr>cat_accounts = (\<lambda>i. find (\<lambda>r. ar_id r = i) (db_accounts db)),
     cat_folders = (\<lambda>i. find (\<lambda>r. sr_id r = i) (db_sync_folders db)),
     cat_busy = fr_sync_folder_id ` set (db_file_states db)\<rparr>"

datatype catalogue_op = AddAccountRow account | DropAccount string | DropAccountCascade string
  | AddFolder sync_folder | DropFolder string | SetPaused string bool | SetPageToken string "string option"

fun catalogue_exec :: "libs \<Rightarrow> catalogue_op \<Rightarrow> unit db_proc" where
  "catalogue_exec L (AddAccountRow a) = account_insert L a"
| "catalogue_exec L (DropAccount i) = account_delete i"
| "catalogue_exec L (DropAccountCascade i) = account_delete_cascade i"
| "catalogue_exec L (AddFolder f) = folder_insert L f"
| "catalogue_exec L (DropFolder i) = folder_delete i"
| "catalogue_exec L (SetPaused i p) = folder_set_paused i p"
| "catalogue_exec L (SetPageToken i t) = folder_update_page_token i t"

definition owned_by :: "catalogue \<Rightarrow> string \<Rightarrow> string set" where
  "owned_by c i = {f. \<exists>r. cat_folders c f = Some r \<and> sr_account_id r = i}"

definition change_folder :: "string \<Rightarrow> (sync_folder_row \<Rightarrow> sync_folder_row) \<Rightarrow> catalogue \<Rightarrow> catalogue" where
  "change_folder i g c = c\<lparr>cat_folders := (cat_folders c)(i := map_option g (cat_folders c i))\<rparr>"

text \<open>
  What each call promises. Adding refuses a used id, and a folder without its account; an account with
  folders and a folder with file states are not deleted; deleting an account with all it has always
  succeeds, and so does a change of one column, also when there is no such folder.
\<close>

fun catalogue_step :: "libs \<Rightarrow> catalogue_op \<Rightarrow> (catalogue, db_error, unit) proc" where
  "catalogue_step L (AddAccountRow a) c =
     (if acc_id a \<in> dom (cat_accounts c) then (Inl (UniqueViolation ''accounts.id''), c)
      else (Inr (), c\<lparr>cat_accounts := (cat_accounts c)(acc_id a \<mapsto>
        \<lparr>ar_id = acc_id a, ar_email = acc_email a, ar_display_name = acc_display_name a,
         ar_keyring_key = acc_keyring_key a, ar_created_at = lib_timestamp L (acc_created_at a)\<rparr>)\<rparr>))"
| "catalogue_step L (DropAccount i) c =
     (if owned_by c i \<noteq> {} then (Inl ForeignKeyViolation, c)
      else (Inr (), c\<lparr>cat_accounts := (cat_accounts c)(i := None)\<rparr>))"
| "catalogue_step L (DropAccountCascade i) c =
     (Inr (), c\<lparr>cat_accounts := (cat_accounts c)(i := None),
        cat_folders := cat_folders c |` (- owned_by c i), cat_busy := cat_busy c - owned_by c i\<rparr>)"
| "catalogue_step L (AddFolder f) c =
     (if sf_id f \<in> dom (cat_folders c) then (Inl (UniqueViolation ''sync_folders.id''), c)
      else if sf_account_id f \<notin> dom (cat_accounts c) then (Inl ForeignKeyViolation, c)
      else (Inr (), c\<lparr>cat_folders := (cat_folders c)(sf_id f \<mapsto>
        \<lparr>sr_id = sf_id f, sr_account_id = sf_account_id f, sr_local_path = sf_local_path f,
         sr_drive_folder_id = sf_drive_folder_id f, sr_start_page_token = sf_start_page_token f,
         sr_last_sync_at = map_option (lib_timestamp L) (sf_last_sync_at f),
         sr_paused = (if sf_paused f then 1 else 0)\<rparr>)\<rparr>))"
| "catalogue_step L (DropFolder i) c =
     (if i \<in> cat_busy c then (Inl ForeignKeyViolation, c)
      else (Inr (), c\<lparr>cat_folders := (cat_folders c)(i := None)\<rparr>))"
| "catalogue_step L (SetPaused i p) c =
     (Inr (), change_folder i (\<lambda>r. r\<lparr>sr_paused := (if p then 1 else 0)\<rparr>) c)"
| "catalogue_step L (SetPageToken i t) c =
     (Inr (), change_folder i (\<lambda>r. r\<lparr>sr_start_page_token := t\<rparr>) c)"

section \<open>The tables as maps\<close>

lemma find_dom: "(\<exists>r. find (\<lambda>r. k r = i) rows = Some r) \<longleftrightarrow> i \<in> k ` set rows"
  by (induction rows) auto

lemma find_in: "find (\<lambda>r. k r = i) rows = Some r \<Longrightarrow> i \<in> k ` set rows"
  using find_dom by fast

lemma dom_catalogue [simp]:
  "dom (cat_accounts (catalogue_of db)) = ar_id ` set (db_accounts db)"
  "dom (cat_folders (catalogue_of db)) = sr_id ` set (db_sync_folders db)"
  by (auto simp: catalogue_of_def dom_def find_dom)

lemma find_snoc_new:
  "k r \<notin> k ` set rows \<Longrightarrow> (\<lambda>i. find (\<lambda>r. k r = i) (rows @ [r])) = (\<lambda>i. find (\<lambda>r. k r = i) rows)(k r \<mapsto> r)"
  by (rule ext) (auto simp: find_append_single split: option.split dest: find_in)

lemma find_filter_other:
  "(\<lambda>j. find (\<lambda>r. k r = j) (filter (\<lambda>r. k r \<noteq> i) rows)) = (\<lambda>j. find (\<lambda>r. k r = j) rows)(i := None)"
  by (rule ext, induction rows) auto

lemma find_filter_map:
  "distinct (map k rows) \<Longrightarrow> (\<lambda>i. find (\<lambda>r. k r = i) (filter P rows)) =
     (\<lambda>i. find (\<lambda>r. k r = i) rows) |` (- {i. \<exists>r. find (\<lambda>r. k r = i) rows = Some r \<and> \<not> P r})"
  by (rule ext) (auto simp: find_filter_distinct restrict_map_def split: option.split)

lemma find_map_key:
  "(\<And>r. k (g r) = k r) \<Longrightarrow> (\<lambda>j. find (\<lambda>r. k r = j) (map (\<lambda>r. if k r = i then g r else r) rows)) =
     (\<lambda>j. find (\<lambda>r. k r = j) rows)(i := map_option g (find (\<lambda>r. k r = i) rows))"
  by (rule ext, induction rows) auto

lemma owned_folders:
  assumes "db_wf db"
  shows "owned_by (catalogue_of db) i = account_folders db i"
proof -
  have "distinct (map sr_id (db_sync_folders db))" using assms by (simp add: db_wf_def)
  then show ?thesis
    by (auto simp: owned_by_def account_folders_def catalogue_of_def find_distinct_Some)
qed

section \<open>Each operation on the maps\<close>

lemma account_delete_same:
  assumes "db_wf db"
  shows "account_delete i db = (r, db') \<Longrightarrow> catalogue_step L (DropAccount i) (catalogue_of db) = (r, catalogue_of db')"
proof -
  let ?d = "db\<lparr>db_accounts := filter (\<lambda>r. ar_id r \<noteq> i) (db_accounts db)\<rparr>"
  have "fk_ok ?d \<longleftrightarrow> account_folders db i = {}"
    using assms unfolding db_wf_def fk_ok_def account_folders_def by (auto simp: image_iff) metis
  then show "account_delete i db = (r, db') \<Longrightarrow> catalogue_step L (DropAccount i) (catalogue_of db) = (r, catalogue_of db')"
    unfolding catalogue_step.simps owned_folders [OF assms]
    by (auto simp: account_delete_def stmt_def catalogue_of_def find_filter_other split: if_splits)
qed

lemma cascade_same:
  assumes "db_wf db" and "account_delete_cascade i db = (r, db')"
  shows "catalogue_step L (DropAccountCascade i) (catalogue_of db) = (r, catalogue_of db')"
proof -
  let ?F = "account_folders db i"
  have d: "distinct (map sr_id (db_sync_folders db))" using assms(1) by (simp add: db_wf_def)
  have "- {f. \<exists>r. find (\<lambda>r. sr_id r = f) (db_sync_folders db) = Some r \<and> sr_account_id r = i} = - ?F"
    by (auto simp: account_folders_def find_distinct_Some [OF d])
  then have "(\<lambda>f. find (\<lambda>r. sr_id r = f) (filter (\<lambda>r. sr_account_id r \<noteq> i) (db_sync_folders db))) =
      cat_folders (catalogue_of db) |` (- ?F)"
    using find_filter_map [OF d, of "\<lambda>r. sr_account_id r \<noteq> i"] by (simp add: catalogue_of_def)
  moreover have "fr_sync_folder_id ` set (filter (\<lambda>r. fr_sync_folder_id r \<notin> ?F) (db_file_states db)) =
      cat_busy (catalogue_of db) - ?F"
    by (auto simp: catalogue_of_def)
  ultimately show ?thesis
    using assms(2) unfolding delete_cascade_result [OF assms(1)] catalogue_step.simps owned_folders [OF assms(1)]
    by (auto simp: catalogue_of_def find_filter_other)
qed

lemma folder_insert_same:
  assumes "db_wf db" and "folder_insert L f db = (r, db')"
  shows "catalogue_step L (AddFolder f) (catalogue_of db) = (r, catalogue_of db')"
proof (cases "sf_id f \<in> sr_id ` set (db_sync_folders db)")
  case True
  with assms(2) show ?thesis by (auto simp: folder_insert_def)
next
  case False
  define row where "row = \<lparr>sr_id = sf_id f, sr_account_id = sf_account_id f, sr_local_path = sf_local_path f,
    sr_drive_folder_id = sf_drive_folder_id f, sr_start_page_token = sf_start_page_token f,
    sr_last_sync_at = map_option (lib_timestamp L) (sf_last_sync_at f), sr_paused = (if sf_paused f then 1 else 0)\<rparr>"
  let ?d = "db\<lparr>db_sync_folders := db_sync_folders db @ [row]\<rparr>"
  have "fk_ok ?d \<longleftrightarrow> sf_account_id f \<in> ar_id ` set (db_accounts db)"
    using assms(1) by (auto simp: db_wf_def fk_ok_def row_def)
  moreover have "folder_insert L f db = stmt (\<lambda>db. db\<lparr>db_sync_folders := db_sync_folders db @ [row]\<rparr>) db"
    using False by (simp add: folder_insert_def row_def)
  moreover have "(\<lambda>i. find (\<lambda>r. sr_id r = i) (db_sync_folders db @ [row])) =
      (\<lambda>i. find (\<lambda>r. sr_id r = i) (db_sync_folders db))(sf_id f \<mapsto> row)"
    using find_snoc_new [of sr_id row "db_sync_folders db"] False by (simp add: row_def)
  ultimately show ?thesis
    using assms(2) False
    by (auto simp: stmt_def catalogue_of_def find_dom row_def [symmetric] dest: find_in split: if_splits)
qed

lemma folder_update_same:
  assumes "db_wf db" and "\<And>r. sr_id (g r) = sr_id r" and "\<And>r. sr_account_id (g r) = sr_account_id r"
    and "folder_update i g db = (r, db')"
  shows "(Inr (), change_folder i g (catalogue_of db)) = (r, catalogue_of db')"
proof -
  let ?d = "db\<lparr>db_sync_folders := map (\<lambda>r. if sr_id r = i then g r else r) (db_sync_folders db)\<rparr>"
  have "(\<lambda>r. sr_id (if sr_id r = i then g r else r)) = sr_id" by (rule ext) (simp add: assms(2))
  then have ids: "sr_id ` (\<lambda>r. if sr_id r = i then g r else r) ` S = sr_id ` S" for S
    by (simp only: image_image)
  have "fk_ok ?d"
    using assms(1) by (simp add: db_wf_def fk_ok_def ids assms(3) del: if_image_distrib)
  then show ?thesis
    using assms(4) find_map_key [of sr_id g i "db_sync_folders db", OF assms(2)]
    by (auto simp: folder_update_def stmt_def change_folder_def catalogue_of_def)
qed

lemma set_paused_same:
  assumes "db_wf db" and "folder_set_paused i p db = (r, db')"
  shows "catalogue_step L (SetPaused i p) (catalogue_of db) = (r, catalogue_of db')"
  unfolding catalogue_step.simps
  by (rule folder_update_same [OF assms(1) _ _ assms(2) [unfolded folder_set_paused_def]]) simp_all

lemma set_token_same:
  assumes "db_wf db" and "folder_update_page_token i t db = (r, db')"
  shows "catalogue_step L (SetPageToken i t) (catalogue_of db) = (r, catalogue_of db')"
  unfolding catalogue_step.simps
  by (rule folder_update_same [OF assms(1) _ _ assms(2) [unfolded folder_update_page_token_def]]) simp_all

lemma folder_delete_same:
  assumes "db_wf db" and "folder_delete i db = (r, db')"
  shows "catalogue_step L (DropFolder i) (catalogue_of db) = (r, catalogue_of db')"
proof -
  let ?d = "db\<lparr>db_sync_folders := filter (\<lambda>r. sr_id r \<noteq> i) (db_sync_folders db)\<rparr>"
  have "fk_ok ?d \<longleftrightarrow> i \<notin> fr_sync_folder_id ` set (db_file_states db)"
    using assms(1) unfolding db_wf_def fk_ok_def by (auto simp: image_iff) metis
  then show ?thesis
    using assms(2) by (auto simp: folder_delete_def stmt_def catalogue_of_def find_filter_other split: if_splits)
qed

lemma account_insert_same:
  assumes "db_wf db" and "account_insert L a db = (r, db')"
  shows "catalogue_step L (AddAccountRow a) (catalogue_of db) = (r, catalogue_of db')"
proof (cases "acc_id a \<in> ar_id ` set (db_accounts db)")
  case True
  with assms(2) show ?thesis by (auto simp: account_insert_def)
next
  case False
  define row where "row = \<lparr>ar_id = acc_id a, ar_email = acc_email a, ar_display_name = acc_display_name a,
    ar_keyring_key = acc_keyring_key a, ar_created_at = lib_timestamp L (acc_created_at a)\<rparr>"
  have "fk_ok (db\<lparr>db_accounts := db_accounts db @ [row]\<rparr>)"
    using assms(1) by (auto simp: db_wf_def fk_ok_def)
  moreover have "account_insert L a db = stmt (\<lambda>db. db\<lparr>db_accounts := db_accounts db @ [row]\<rparr>) db"
    using False by (simp add: account_insert_def row_def)
  moreover have "(\<lambda>i. find (\<lambda>r. ar_id r = i) (db_accounts db @ [row])) =
      (\<lambda>i. find (\<lambda>r. ar_id r = i) (db_accounts db))(acc_id a \<mapsto> row)"
    using find_snoc_new [of ar_id row "db_accounts db"] False by (simp add: row_def)
  ultimately show ?thesis
    using assms(2) False by (auto simp: stmt_def catalogue_of_def row_def [symmetric] dest: find_in)
qed

lemmas operations_same = account_insert_same account_delete_same cascade_same folder_insert_same
  folder_delete_same set_paused_same set_token_same

lemma catalogue_exec_wf: "db_wf db \<Longrightarrow> db_wf (snd (catalogue_exec L op db))"
proof -
  have "pres db_wf (catalogue_exec L op)" by (cases op) (simp_all add: proc_pres)
  then show "db_wf db \<Longrightarrow> db_wf (snd (catalogue_exec L op db))" by (simp add: pres_def)
qed

interpretation cat: exact_abstraction "catalogue_exec L" db_wf catalogue_of "catalogue_step L" for L
proof unfold_locales
  show "db_wf db \<Longrightarrow> db_wf (snd (catalogue_exec L op db))" for db op by (rule catalogue_exec_wf)
  show "catalogue_step L op (catalogue_of db) = (r, catalogue_of db')"
    if "db_wf db" "catalogue_exec L op db = (r, db')" for db op r db'
    using that by (cases op) (simp_all only: catalogue_exec.simps operations_same)
qed

section \<open>Reading the tables is reading the maps\<close>

lemma folders_listed:
  assumes "db_wf db" and "fst (folder_list_by_account L i db) = Inr fs"
  shows "sorted (map sf_id fs) \<and> distinct (map sf_id fs) \<and>
    set fs = {folder_of_row L r | f r. cat_folders (catalogue_of db) f = Some r \<and> sr_account_id r = i}"
proof -
  let ?rows = "filter (\<lambda>r. sr_account_id r = i) (db_sync_folders db)"
  have fs: "fs = map (folder_of_row L) (sort_key sr_id ?rows)"
    using assms(2) by (simp add: folder_list_by_account_def getp_def)
  have ids: "map sf_id fs = map sr_id (sort_key sr_id ?rows)" by (simp add: fs folder_of_row_def)
  have d: "distinct (map sr_id (db_sync_folders db))" using assms(1) by (simp add: db_wf_def)
  have "distinct (map sr_id (sort_key sr_id ?rows))"
    using d by (simp add: distinct_map distinct_map_filter inj_on_def)
  moreover have "set fs = {folder_of_row L r | f r. cat_folders (catalogue_of db) f = Some r \<and> sr_account_id r = i}"
    by (auto simp: fs catalogue_of_def find_distinct_Some [OF d])
  ultimately show ?thesis unfolding ids by simp
qed

text \<open>
  C20: the repositories of accounts and sync folders implement two maps from ids. After any history of
  insertions, deletions, cascading deletions and changes of the pause flag or the page token, every call
  has answered what the maps prescribe (a used id, an unknown account, an account with folders and a folder
  with file states are refused, everything else succeeds) and the tables are the maps that these calls
  give. Looking up an id and listing the folders of an account, ordered by id, read these maps.
\<close>

theorem catalogue_refines_maps:
  assumes "db_wf db" and "outcomes (catalogue_exec L) ops db = (rs, db')"
  shows "outcomes (catalogue_step L) ops (catalogue_of db) = (rs, catalogue_of db') \<and>
    (\<forall>now i. fst (account_get_by_id L now i db') =
       Inr (map_option (account_of_row L now) (cat_accounts (catalogue_of db') i))) \<and>
    (\<forall>i. fst (folder_get_by_id L i db') = Inr (map_option (folder_of_row L) (cat_folders (catalogue_of db') i))) \<and>
    (\<forall>i fs. fst (folder_list_by_account L i db') = Inr fs \<longrightarrow>
       sorted (map sf_id fs) \<and> distinct (map sf_id fs) \<and>
       set fs = {folder_of_row L r | f r. cat_folders (catalogue_of db') f = Some r \<and> sr_account_id r = i})"
proof -
  have run: "db_wf db'" "outcomes (catalogue_step L) ops (catalogue_of db) = (rs, catalogue_of db')"
    using cat.same_history [OF assms] by auto
  moreover have "fst (account_get_by_id L now i db') =
      Inr (map_option (account_of_row L now) (cat_accounts (catalogue_of db') i))" for now i
    by (simp add: account_get_by_id_def getp_def catalogue_of_def)
  moreover have "fst (folder_get_by_id L i db') =
      Inr (map_option (folder_of_row L) (cat_folders (catalogue_of db') i))" for i
    by (simp add: folder_get_by_id_def getp_def catalogue_of_def)
  ultimately show ?thesis using folders_listed [OF run(1)] by blast
qed

text \<open>A folder of an unknown account, a folder twice, a pause, and a deletion.\<close>

definition demo_new_folder :: sync_folder where
  "demo_new_folder = \<lparr>sf_id = ''f2'', sf_account_id = ''a1'', sf_local_path = ''/s'',
     sf_drive_folder_id = ''d'', sf_start_page_token = None, sf_last_sync_at = None, sf_paused = False\<rparr>"

definition demo_catalogue_ops :: "catalogue_op list" where
  "demo_catalogue_ops = [AddFolder (demo_new_folder\<lparr>sf_account_id := ''a2''\<rparr>), AddFolder demo_new_folder,
     AddFolder demo_new_folder, SetPaused ''f2'' True, DropFolder ''f1'']"

lemma demo_catalogue_run:
  "fst (outcomes (catalogue_step L) demo_catalogue_ops (catalogue_of demo_db)) =
     [Inl ForeignKeyViolation, Inr (), Inl (UniqueViolation ''sync_folders.id''), Inr (), Inr ()]"
  "cat_folders (snd (outcomes (catalogue_step L) demo_catalogue_ops (catalogue_of demo_db))) ''f1'' = None"
  "map_option sr_paused
     (cat_folders (snd (outcomes (catalogue_step L) demo_catalogue_ops (catalogue_of demo_db))) ''f2'') = Some 1"
  by (simp_all add: demo_catalogue_ops_def demo_new_folder_def demo_db_def catalogue_of_def change_folder_def
      dom_def Let_def case_prod_beta)

lemma catalogue_refines_maps_witness:
  "\<exists>db'. outcomes (catalogue_exec demo_libs) demo_catalogue_ops demo_db =
     ([Inl ForeignKeyViolation, Inr (), Inl (UniqueViolation ''sync_folders.id''), Inr (), Inr ()], db') \<and>
   cat_folders (catalogue_of db') ''f1'' = None \<and>
   map_option sr_paused (cat_folders (catalogue_of db') ''f2'') = Some 1"
proof -
  obtain rs db' where run: "outcomes (catalogue_exec demo_libs) demo_catalogue_ops demo_db = (rs, db')"
    by force
  then have "outcomes (catalogue_step demo_libs) demo_catalogue_ops (catalogue_of demo_db) = (rs, catalogue_of db')"
    using catalogue_refines_maps [OF demo_db_wf run] by blast
  with run show ?thesis using demo_catalogue_run [of demo_libs] by (metis fst_conv snd_conv)
qed

end
