(* ===== verification/Gds_Next_Scan.thy ===== *)
theory Gds_Next_Scan
  imports Gds_Cycle Gds_Remote Gds_File_Map
begin

text \<open>
  What an executed action leaves for the next look at both sides (\<open>sync/executor.rs\<close> against
  \<open>sync/diff.rs\<close>): what the next local scan says about a file that was just downloaded, uploaded or
  kept as the copy of a conflict, and whether the change list reports the daemon's own transfers
  back to it.
\<close>

section \<open>The clock and the times of files\<close>

text \<open>Every call on the disk keeps the clock, dates what it writes by it, and keeps directories.\<close>

definition stamped :: "int \<Rightarrow> string list \<Rightarrow> disk \<Rightarrow> bool" where
  "stamped now k d \<longleftrightarrow> d_now d = now \<and> times_ok d \<and> is_dir_node (lookup_node d k)"

lemma times_put: "times_ok d \<Longrightarrow> (\<And>c t. n = File c t \<Longrightarrow> 0 \<le> t) \<Longrightarrow> j \<noteq> [] \<Longrightarrow> times_ok (put_node j n d)"
  by (auto simp: times_ok_def lookup_put_node split: if_splits)

lemma times_del: "times_ok d \<Longrightarrow> j \<noteq> [] \<Longrightarrow> times_ok (del_node j d)"
  by (auto simp: times_ok_def lookup_del_node split: if_splits)

lemma clock_kept [simp]: "d_now (put_node j n d) = d_now d" "d_now (del_node j d) = d_now d"
  by (simp_all add: put_node_def del_node_def)

lemma stamped_put:
  assumes "stamped now k d" and "\<And>c t. n = File c t \<Longrightarrow> 0 \<le> t"
    and "\<not> is_dir_node (lookup_node d j) \<or> is_dir_node (Some n)"
    and "j \<noteq> []"
  shows "stamped now k (put_node j n d)"
  using assms by (auto simp: stamped_def times_put lookup_put_node)

lemma stamped_del:
  "stamped now k d \<Longrightarrow> \<not> is_dir_node (lookup_node d j) \<Longrightarrow> j \<noteq> [] \<Longrightarrow> stamped now k (del_node j d)"
  by (auto simp: stamped_def times_del lookup_del_node)

lemma not_root: "\<not> is_dir_node (lookup_node d j) \<Longrightarrow> j \<noteq> []"
  by auto

lemma stamped_mtime: "stamped now k d \<Longrightarrow> find_node d f p = Inr (j, File c t) \<Longrightarrow> 0 \<le> t"
  by (auto simp: stamped_def times_ok_def find_node_def split: sum.splits option.splits)

lemma stamped_write: "0 \<le> now \<Longrightarrow> pres (stamped now k) (std_write p c)"
proof (rule presI)
  fix d
  assume "0 \<le> now" and d: "stamped now k d"
  then have "stamped now k (put_node j (File c (d_now d)) d)" if "\<not> is_dir_node (lookup_node d j)" for j
    using that not_root [OF that] by (intro stamped_put) (auto simp: stamped_def)
  then show "stamped now k (snd (std_write p c d))"
    using d by (auto simp: std_write_def is_dir_node_def split: sum.splits option.splits node.splits)
qed

lemma stamped_mkdir: "0 \<le> now \<Longrightarrow> pres (stamped now k) (std_mkdir p)"
proof (rule presI)
  fix d
  assume "0 \<le> now" and d: "stamped now k d"
  then have "stamped now k (put_node j (Dir (d_now d)) d)" if "lookup_node d j = None" for j
    using that not_root [of d j] by (intro stamped_put) (auto simp: stamped_def)
  then show "stamped now k (snd (std_mkdir p d))"
    using d by (auto simp: std_mkdir_def split: sum.splits option.splits)
qed

text \<open>\<open>create_dir_all\<close> keeps what \<open>mkdir\<close> keeps.\<close>

lemma pres_create_dir_all:
  assumes mk: "\<And>q. pres I (std_mkdir q)"
  shows "pres I (std_create_dir_all p)"
proof (rule presI)
  fix d
  show "I d \<Longrightarrow> I (snd (std_create_dir_all p d))"
  proof (induction p d rule: std_create_dir_all.induct)
    case (1 p d)
    let ?q = "p\<lparr>p_segs := butlast (p_segs p)\<rparr>"
    obtain r1 d1 where m: "std_mkdir p d = (r1, d1)" by (cases "std_mkdir p d")
    have d1: "I d1" by (rule presD [OF mk "1.prems" m])
    obtain r2 d2 where c: "std_create_dir_all ?q d1 = (r2, d2)" by (cases "std_create_dir_all ?q d1")
    obtain r3 d3 where m3: "std_mkdir p d2 = (r3, d3)" by (cases "std_mkdir p d2")
    show ?case
    proof (cases "p_segs p = [] \<and> \<not> p_abs p \<or> p_segs p = [] \<or> (\<forall>e. r1 = Inl e \<longrightarrow> io_kind e \<noteq> NotFound)")
      case True
      then show ?thesis
        using d1 m "1.prems" by (subst std_create_dir_all.simps) (auto split: sum.splits)
    next
      case False
      then obtain e where e: "r1 = Inl e" "io_kind e = NotFound" "p_segs p \<noteq> []" by blast
      have d2: "I d2" using "1.IH" [OF _ m [symmetric] e d1] c e(3) by simp
      then have "I d3" by (rule presD [OF mk _ m3])
      with d2 show ?thesis
        using m c m3 e by (subst std_create_dir_all.simps) (auto split: sum.splits)
    qed
  qed
qed

lemma stamped_rename: "pres (stamped now k) (std_rename a b)"
proof (rule presI)
  fix d
  assume d: "stamped now k d"
  show "stamped now k (snd (std_rename a b d))"
  proof (cases "find_node d False a")
    case (Inl e)
    with d show ?thesis by (simp add: std_rename_def)
  next
    case (Inr x)
    obtain ka n where x: "x = (ka, n)" by (cases x)
    then have la: "lookup_node d ka = Some n"
      using Inr by (auto simp: find_node_def split: sum.splits option.splits)
    have one: "stamped now k (put_node kb n (del_node ka d))"
      if "\<not> is_dir_node (Some n)" "\<not> is_dir_node (lookup_node d kb)" for kb
    proof -
      have a: "ka \<noteq> []" "kb \<noteq> []" using that la by auto
      have "0 \<le> t" if "n = File c t" for c t using d la that by (auto simp: stamped_def times_ok_def)
      then show ?thesis
        using that a la by (intro stamped_put stamped_del d) (auto simp: lookup_del_node)
    qed
    show ?thesis
      using d Inr x one
      by (cases n) (auto simp: std_rename_def is_dir_node_def split: sum.splits option.splits node.splits)
  qed
qed

lemma clock_mkdir: "pres (\<lambda>d. d_now d = now) (std_mkdir p)"
  by (auto simp: pres_def std_mkdir_def split: sum.splits option.splits)

lemma pres_at_path [proc_pres]: "pres I m \<Longrightarrow> pres I (at_path p m)"
  unfolding at_path_def by (intro proc_pres)

lemma stamped_write_atomic: "0 \<le> now \<Longrightarrow> pres (stamped now k) (tokio_write_atomic root r c)"
  unfolding tokio_write_atomic_def Let_def
  by (intro proc_pres pres_create_dir_all stamped_mkdir stamped_write stamped_rename)

text \<open>A file that was written is dated by the clock.\<close>

lemma write_atomic_node:
  assumes "root_ok root" and "rel_ok r" and "plain d" and "tokio_write_atomic root r c d = (Inr (), d')"
  shows "lookup_node d' (file_key root r) = Some (File c (d_now d))"
proof -
  define k where "k = file_key root r"
  have kc: "clean k" and kne: "k \<noteq> []"
    using file_key_clean file_key_ne assms(1,2) by (auto simp: k_def)
  let ?p = "\<lparr>p_abs = True, p_segs = k\<rparr>" and ?t = "\<lparr>p_abs = True, p_segs = tmp_key k\<rparr>"
  let ?q = "\<lparr>p_abs = True, p_segs = butlast k\<rparr>"
  have t: "clean (tmp_key k)" "tmp_key k \<noteq> []"
    using clean_tmp_key [OF kc kne] tmp_key_ne by auto
  have run: "seqp (at_path ?q (std_create_dir_all ?q)) (\<lambda>_.
        seqp (at_path ?t (std_write ?t c)) (\<lambda>_. at_path ?p (std_rename ?t ?p))) d = (Inr (), d')"
    using assms(4) kne by (simp add: tokio_write_atomic_def Let_def join_rel [OF assms(1,2)] k_def [symmetric]
        tmp_of_path [OF kc kne] path_parent_def)
  have at: "m e = (Inr y, e')" if "at_path q m e = (Inr y, e')" for q and m :: "unit disk_io" and e y e'
    using that by (auto simp: at_path_simp split: sum.splits prod.splits)
  from run obtain d1 d2 where c1: "std_create_dir_all ?q d = (Inr (), d1)"
    and c2: "std_write ?t c d1 = (Inr (), d2)" and c3: "std_rename ?t ?p d2 = (Inr (), d')"
    by (elim seqp_InrE) (auto dest!: at)
  have d1: "plain d1" using std_create_dir_all_plain [OF assms(3) _ c1] kc by (simp add: clean_butlast)
  have now: "d_now d1 = d_now d"
    using presD [OF pres_create_dir_all [OF clock_mkdir] refl c1] by simp
  have d2: "plain d2" "lookup_node d2 (tmp_key k) = Some (File c (d_now d))"
    using std_write_plain [OF d1, of ?t c] t c2 now by auto
  have a: "find_node d2 False ?t = Inr (tmp_key k, File c (d_now d))"
    using find_node_plain [OF d2(1), of ?t] t d2(2) by simp
  obtain j where j: "locate d2 False ?p = Inr j"
    using c3 by (cases "locate d2 False ?p") (simp_all add: std_rename_def a)
  then have "j = k" using locate_plain [OF d2(1), of ?p] kc by simp
  then show ?thesis
    using c3 j d2(2) kne
    by (auto simp: std_rename_def a lookup_put_node k_def [symmetric] split: option.splits node.splits if_splits)
qed

section \<open>What the scan says about one path\<close>

text \<open>A path as the scan writes it: names joined by slashes, none of them skipped.\<close>

definition scanned_path :: "string \<Rightarrow> bool" where
  "scanned_path p \<longleftrightarrow> rel_ok p \<and> rel_below [] (path_segs_of p) = p \<and>
     (\<forall>w \<in> set (path_segs_of p). \<not> skipped w)"

lemma segs_rel_below:
  assumes "clean ks"
  shows "dir_rel_ok (rel_below [] ks) \<and> path_segs_of (rel_below [] ks) = ks"
  using assms
proof (induction ks rule: rev_induct)
  case Nil
  then show ?case by (simp add: rel_below_def dir_rel_ok_def path_segs_of_def)
next
  case (snoc w ks)
  then have r: "dir_rel_ok (rel_below [] ks)" "path_segs_of (rel_below [] ks) = ks"
    and w: "seg_ok w" "w \<noteq> ''..''" "CHR 0x00 \<notin> set w" by (auto simp: clean_def)
  have "rel_below [] (ks @ [w]) = join_rel_path (rel_below [] ks) w" by (simp add: rel_below_def)
  then show ?case
    using join_rel_ok [OF r(1) w] segs_join_rel [OF r(1) w(1)] r(2) by (simp add: dir_rel_ok_def)
qed

lemma upload_for_path: "a \<in> set (upload_for L d m p c t) \<Longrightarrow> sa_relative_path a = p"
  by (auto simp: upload_for_def action_defs split: option.splits if_splits)

lemma upload_for_wf: "a \<in> set (upload_for L d m p c t) \<Longrightarrow> action_wf a"
  by (auto simp: upload_for_def split: option.splits if_splits)

lemma scan_for_path:
  assumes "plain d" and "scanned_path p" and "lookup_node d (file_key root p) = Some (File c t)"
  shows "{a \<in> found L d root m []. sa_relative_path a = p} = set (upload_for L d m p c t)"
proof (intro equalityI subsetI)
  have k: "dir_key root [] = p_segs root" by (simp add: dir_key_def)
  fix a
  assume "a \<in> {a \<in> found L d root m []. sa_relative_path a = p}"
  then obtain ks c' t' where a: "lookup_node d (p_segs root @ ks) = Some (File c' t')"
    "a \<in> set (upload_for L d m (rel_below [] ks) c' t')" "sa_relative_path a = p"
    by (auto simp: found_def k)
  then have "rel_below [] ks = p" using upload_for_path by metis
  moreover have "clean ks" using plainD(1) [OF assms(1) a(1)] by simp
  ultimately have "path_segs_of p = ks" using segs_rel_below by metis
  then have "c' = c \<and> t' = t" using a(1) assms(3) by (simp add: file_key_def)
  with a(2) \<open>rel_below [] ks = p\<close> show "a \<in> set (upload_for L d m p c t)" by simp
next
  fix a
  assume a: "a \<in> set (upload_for L d m p c t)"
  have "dir_key root [] @ path_segs_of p = file_key root p" by (simp add: dir_key_def file_key_def)
  then show "a \<in> {a \<in> found L d root m []. sa_relative_path a = p}"
    using a assms upload_for_path [OF a] unfolding found_def scanned_path_def
    by (intro CollectI conjI exI [of _ "path_segs_of p"] exI [of _ c] exI [of _ t])
      (auto simp: rel_ok_def)
qed

text \<open>The listed states agree with the rows: one state for each path.\<close>

lemma listed_state:
  assumes "db_wf db" and "fs_list_by_folder L f db = (Inr states, db)"
    and "row_at db f p = Some r" and "row_to_file_state L r = Inr st"
  shows "x \<in> set states \<and> fs_relative_path x = p \<longleftrightarrow> x = st"
proof -
  have img: "Inr ` set states = row_to_file_state L ` {r \<in> set (db_file_states db). fr_sync_folder_id r = f}"
    using assms(2) collect_rows_set [of "row_to_file_state L"] by (fastforce simp: fs_list_by_folder_def)
  have r: "r \<in> set (db_file_states db)" "fs_key r = (f, p)"
    using find_sound [OF assms(3) [unfolded row_at_def]] by auto
  have key: "fs_relative_path y = fr_relative_path q" if "row_to_file_state L q = Inr y" for q y
    using that by (auto simp: row_to_file_state_def split: option.splits)
  have uniq: "q = r" if "q \<in> set (db_file_states db)" "fs_key q = (f, p)" for q
    using assms(1) r that unfolding db_wf_def by (metis distinct_map inj_onD)
  show ?thesis
  proof
    assume x: "x \<in> set states \<and> fs_relative_path x = p"
    then have "Inr x \<in> row_to_file_state L ` {r \<in> set (db_file_states db). fr_sync_folder_id r = f}"
      using img by blast
    then obtain q where "q \<in> set (db_file_states db)" "fr_sync_folder_id q = f" "row_to_file_state L q = Inr x"
      by auto
    moreover from this have "fs_key q = (f, p)" using key x by (auto simp: fs_key_def)
    ultimately show "x = st" using uniq assms(4) by auto
  next
    assume x: "x = st"
    have "Inr st \<in> Inr ` set states"
      using img r assms(4) by (force simp: fs_key_def image_iff)
    then show "x \<in> set states \<and> fs_relative_path x = p"
      using x key [OF assms(4)] r(2) by (auto simp: fs_key_def)
  qed
qed

lemma listed_row:
  assumes "db_wf db" and "fs_list_by_folder L f db = (Inr states, db)" and "st \<in> set states"
  obtains r where "row_at db f (fs_relative_path st) = Some r" and "row_to_file_state L r = Inr st"
proof -
  have "Inr ` set states = row_to_file_state L ` {r \<in> set (db_file_states db). fr_sync_folder_id r = f}"
    using assms(2) collect_rows_set [of "row_to_file_state L"] by (fastforce simp: fs_list_by_folder_def)
  with assms(3) have "Inr st \<in> row_to_file_state L ` {r \<in> set (db_file_states db). fr_sync_folder_id r = f}"
    by blast
  then obtain r where r: "r \<in> set (db_file_states db)" "fr_sync_folder_id r = f" "row_to_file_state L r = Inr st"
    by auto
  then have "fs_key r = (f, fs_relative_path st)"
    by (auto simp: row_to_file_state_def fs_key_def split: option.splits)
  moreover have "find (\<lambda>q. fs_key q = fs_key r) (db_file_states db) = Some r"
    using assms(1) r(1) by (intro find_unique) (simp_all add: db_wf_def)
  ultimately show thesis using that r(3) by (simp add: row_at_def)
qed

lemma find_the_only:
  assumes "\<And>y. y \<in> set xs \<and> P y \<longleftrightarrow> y = x"
  shows "find P xs = Some x"
proof (cases "find P xs")
  case None
  then show ?thesis using assms by (auto simp: find_None_iff)
next
  case (Some z)
  from find_sound [OF this] assms have "z = x" by blast
  with Some show ?thesis by simp
qed

lemma listed_by_path:
  assumes "db_wf db" and "fs_list_by_folder L f db = (Inr states, db)"
    and "row_at db f p = Some r" and "row_to_file_state L r = Inr st"
  shows "map_of (collect_map fs_relative_path states) p = Some st"
  unfolding collect_map_lookup using listed_state [OF assms] by (intro find_the_only) auto

text \<open>
  A disk that can be scanned from the root, and rows that do not stop the scan: they can be read,
  none of them lies behind a regular file, and the fuel is enough.
\<close>

definition tree_ok :: "path \<Rightarrow> disk \<Rightarrow> bool" where
  "tree_ok root d \<longleftrightarrow> plain d \<and> times_ok d \<and> is_dir_node (lookup_node d (p_segs root))"

definition rows_ok ::
    "nat \<Rightarrow> libs \<Rightarrow> path \<Rightarrow> sync_folder \<Rightarrow> disk \<Rightarrow> db \<Rightarrow> file_state list \<Rightarrow> bool" where
  "rows_ok fuel L root folder d db states \<longleftrightarrow>
     fs_list_by_folder L (sf_id folder) db = (Inr states, db) \<and>
     (\<forall>st \<in> set states. rel_ok (fs_relative_path st) \<and>
        \<not> behind_file d (file_key root (fs_relative_path st))) \<and>
     card (below_nodes d (p_segs root)) < fuel"

lemma write_tree_ok:
  assumes "root_ok root" and "rel_ok r" and "tree_ok root d" and "0 \<le> d_now d"
    and "tokio_write_atomic root r c d = (x, d')"
  shows "tree_ok root d' \<and> d_now d' = d_now d"
proof -
  have "stamped (d_now d) (p_segs root) d" using assms(3) by (simp add: tree_ok_def stamped_def)
  from presD [OF stamped_write_atomic this assms(5)] assms(4)
  have "stamped (d_now d) (p_segs root) d'" by simp
  moreover have "root_ok root \<and> plain d" using assms(1,3) by (simp add: tree_ok_def)
  from tokio.write_wf' [OF this assms(2,5)] have "plain d'" by simp
  ultimately show ?thesis by (simp add: tree_ok_def stamped_def)
qed

lemma file_time_ok:
  assumes "libs_ok L" and "time_ok t"
  shows "file_time L d t = t"
proof -
  have "0 \<le> t div 1000000000" using assms(2) by (simp add: time_ok_def pos_imp_zdiv_nonneg_iff)
  then show ?thesis
    using assms by (simp add: file_time_def libs_ok_def chrono_ok_def time_ok_def nat_less_iff)
qed

lemma scan_of_path:
  fixes s :: "('w, disk) world"
  assumes "root_ok root" and "tree_ok root (w_disk s)" and "rows_ok fuel L root folder (w_disk s) (w_db s) states"
    and "scanned_path p" and "lookup_node (w_disk s) (file_key root p) = Some (File c t)"
  shows "\<exists>acts. compute_local_changes fuel (tokio_local_fs L) L root folder s = (Inr (Some acts), s) \<and>
    (\<forall>a \<in> set acts. action_wf a) \<and>
    {a \<in> set acts. sa_relative_path a = p} =
      set (upload_for L (w_disk s) (collect_map fs_relative_path states) p c t)"
proof -
  let ?m = "collect_map fs_relative_path states"
  obtain acts where run: "compute_local_changes fuel (tokio_local_fs L) L root folder s = (Inr (Some acts), s)"
    and acts: "set acts = found L (w_disk s) root ?m [] \<union>
      {delete_remote r st | r st. (r, st) \<in> set ?m \<and>
         fs_drive_file_id st \<noteq> None \<and> lookup_node (w_disk s) (file_key root r) = None}"
    using scan_finds [OF _ _ assms(1)] assms(2,3) unfolding tree_ok_def rows_ok_def by blast
  have "{a \<in> set acts. sa_relative_path a = p} = {a \<in> found L (w_disk s) root ?m []. sa_relative_path a = p}"
    unfolding acts using assms(5) by (auto simp: delete_remote_def)
  moreover have "action_wf a" if "a \<in> set acts" for a
    using that unfolding acts by (auto simp: found_def upload_for_wf)
  ultimately show ?thesis
    using run scan_for_path [OF _ assms(4,5)] assms(2) by (auto simp: tree_ok_def)
qed

lemma scan_of_row:
  fixes s :: "('w, disk) world"
  assumes "libs_ok L" and "root_ok root" and "tree_ok root (w_disk s)" and "db_wf (w_db s)"
    and "rows_ok fuel L root folder (w_disk s) (w_db s) states"
    and "scanned_path p" and "lookup_node (w_disk s) (file_key root p) = Some (File c t)" and "time_ok t"
    and "row_at (w_db s) (sf_id folder) p = Some (row_of_file_state L st)" and "fs_times_ok st"
  shows "\<exists>acts. compute_local_changes fuel (tokio_local_fs L) L root folder s = (Inr (Some acts), s) \<and>
    (\<forall>a \<in> set acts. action_wf a) \<and>
    {a \<in> set acts. sa_relative_path a = p} =
      (if fs_local_md5 st = Some (lib_md5 L c) \<and> map_option floor_ms (fs_local_modified st) = Some t
       then {} else {update_upload p (fs_stored st) (lib_md5 L c) t})"
proof -
  have "map_of (collect_map fs_relative_path states) p = Some (fs_stored st)"
    using assms(5) row_round_trip [OF assms(1,10)] unfolding rows_ok_def
    by (intro listed_by_path [OF assms(4) _ assms(9)]) simp_all
  moreover have "fs_local_md5 (fs_stored st) = fs_local_md5 st"
    "fs_local_modified (fs_stored st) = map_option floor_ms (fs_local_modified st)"
    by (simp_all add: fs_stored_def)
  ultimately have "set (upload_for L (w_disk s) (collect_map fs_relative_path states) p c t) =
      (if fs_local_md5 st = Some (lib_md5 L c) \<and> map_option floor_ms (fs_local_modified st) = Some t
       then {} else {update_upload p (fs_stored st) (lib_md5 L c) t})"
    by (simp add: upload_for_def file_time_ok [OF assms(1,8)] local_changed_iff)
  then show ?thesis using scan_of_path [OF assms(2,3,5,6,7)] by simp
qed

lemma execute_one_wf: "db_wf (w_db s) \<Longrightarrow> execute_one E FS L K ex root folder a s = (r, s') \<Longrightarrow> db_wf (w_db s')"
  using presD [OF execute_one_pres [where I = db_wf, OF pres_fs_upsert pres_fs_delete]] by blast

lemma transfer_times:
  assumes "\<forall>w. time_ok (fst (env_now E w))"
  shows "file_state_after_download E L i p f old w = (st, w') \<Longrightarrow> pred_option time_ok (fs_last_synced_at st)"
    and "file_state_after_upload E L i p f md5 t w = (st, w') \<Longrightarrow> pred_option time_ok (fs_last_synced_at st)"
  using assms
  by (auto simp: file_state_after_download_def file_state_after_upload_def Let_def split: prod.splits option.splits)
    (metis fst_conv)+

text \<open>What a successful download leaves, for the scan and for the change list.\<close>

lemma download_leaves:
  fixes s :: "('w, disk) world"
  assumes "root_ok root" and "tree_ok root (w_disk s)" and "db_wf (w_db s)"
    and "scanned_path (sa_relative_path a)" and "sa_kind a \<in> {NewDownload, UpdateDownload}"
    and "sa_drive_file a = Some f" and "pred_option time_ok (parse_drive_modified L (df_modified_time f))"
    and "\<forall>w. time_ok (fst (env_now E w))" and "0 \<le> d_now (w_disk s)"
    and "execute_one E (tokio_local_fs L) L K ex root folder a s = (Inr r, s')"
  obtains token content w w' st where "remote_content E K ex token f w = (Inr content, w')"
    and "tree_ok root (w_disk s')" and "db_wf (w_db s')"
    and "lookup_node (w_disk s') (file_key root (sa_relative_path a)) = Some (File content (d_now (w_disk s)))"
    and "row_at (w_db s') (sf_id folder) (sa_relative_path a) = Some (row_of_file_state L st)" and "fs_times_ok st"
    and "fs_relative_path st = sa_relative_path a" and "fs_drive_file_id st = Some (df_id f)"
    and "fs_drive_md5 st = df_md5_checksum f" and "fs_local_md5 st = df_md5_checksum f"
    and "fs_drive_modified st = parse_drive_modified L (df_modified_time f)"
    and "fs_local_modified st = parse_drive_modified L (df_modified_time f)"
proof -
  have rel: "rel_ok (sa_relative_path a)" using assms(4) by (simp add: scanned_path_def)
  obtain token f' content w w' d u u' st db where f: "sa_drive_file a = Some f'"
    and c: "remote_content E K ex token f' w = (Inr content, w')"
    and d: "tokio_write_atomic root (sa_relative_path a) content (w_disk s) = (Inr (), d)" "w_disk s' = d"
    and st: "file_state_after_download E L (sf_id folder) (sa_relative_path a) f' (sa_state a) u = (st, u')"
    and db: "fs_upsert L st (w_db s) = (Inr (), db)" "w_db s' = db"
    using assms(5,10) by (rule download_run)
  have f': "f' = f" using f assms(6) by simp
  note fields = after_download_fields [OF st, unfolded f']
  have tree: "tree_ok root (w_disk s')" using write_tree_ok [OF assms(1) rel assms(2,9) d(1)] d(2) by simp
  have node: "lookup_node (w_disk s') (file_key root (sa_relative_path a)) = Some (File content (d_now (w_disk s)))"
    using assms(2) unfolding d(2) by (intro write_atomic_node [OF assms(1) rel _ d(1)]) (simp add: tree_ok_def)
  have row: "row_at (w_db s') (sf_id folder) (sa_relative_path a) = Some (row_of_file_state L st)"
    using row_at_upsert(1) [OF db(1)] fields db(2) by simp
  have times: "fs_times_ok st"
    using transfer_times(1) [OF assms(8) st] assms(7) fields by (simp add: fs_times_ok_def)
  show thesis
    by (rule that [OF c [unfolded f'] tree execute_one_wf [OF assms(3,10)] node row times fields(2,3,4,5,6,7)])
qed

section \<open>Properties\<close>

text \<open>
  C10: the next local scan after a download reports the file that was just written as changed and
  uploads it to the Drive file it came from, with the remote content it already has. The row records
  Drive's modification time, the file carries the time at which it was written; the scan is silent
  only if these two coincide (Drive's time cut to milliseconds) and Drive's digest is that of the content,
  which a Google document never has.
\<close>

theorem download_then_scan:
  fixes s :: "('w, disk) world"
  assumes "libs_ok L" and "root_ok root" and "tree_ok root (w_disk s)" and "db_wf (w_db s)"
    and "scanned_path (sa_relative_path a)" and "sa_kind a \<in> {NewDownload, UpdateDownload}"
    and "sa_drive_file a = Some f" and "pred_option time_ok (parse_drive_modified L (df_modified_time f))"
    and "\<forall>w. time_ok (fst (env_now E w))" and "time_ok (d_now (w_disk s))"
    and "execute_one E (tokio_local_fs L) L K ex root folder a s = (Inr r, s')"
    and "rows_ok fuel L root folder (w_disk s') (w_db s') states"
  shows "\<exists>content token w w' acts st. remote_content E K ex token f w = (Inr content, w') \<and>
    compute_local_changes fuel (tokio_local_fs L) L root folder s' = (Inr (Some acts), s') \<and>
    fs_drive_file_id st = Some (df_id f) \<and>
    {x \<in> set acts. sa_relative_path x = sa_relative_path a} =
      (if df_md5_checksum f = Some (lib_md5 L content) \<and>
          map_option floor_ms (parse_drive_modified L (df_modified_time f)) = Some (d_now (w_disk s))
       then {} else {update_upload (sa_relative_path a) st (lib_md5 L content) (d_now (w_disk s))})"
proof -
  have now: "0 \<le> d_now (w_disk s)" using assms(10) by (simp add: time_ok_def)
  obtain token content w w' st where c: "remote_content E K ex token f w = (Inr content, w')"
    and tree: "tree_ok root (w_disk s')" and wf: "db_wf (w_db s')"
    and node: "lookup_node (w_disk s') (file_key root (sa_relative_path a)) = Some (File content (d_now (w_disk s)))"
    and row: "row_at (w_db s') (sf_id folder) (sa_relative_path a) = Some (row_of_file_state L st)" "fs_times_ok st"
    and st: "fs_drive_file_id st = Some (df_id f)" "fs_local_md5 st = df_md5_checksum f"
      "fs_local_modified st = parse_drive_modified L (df_modified_time f)"
    using assms(2-9) now assms(11) by (rule download_leaves)
  from scan_of_row [OF assms(1,2) tree wf assms(12,5) node assms(10) row]
  obtain acts where "compute_local_changes fuel (tokio_local_fs L) L root folder s' = (Inr (Some acts), s')"
    "{x \<in> set acts. sa_relative_path x = sa_relative_path a} =
      (if fs_local_md5 st = Some (lib_md5 L content) \<and> map_option floor_ms (fs_local_modified st) = Some (d_now (w_disk s))
       then {} else {update_upload (sa_relative_path a) (fs_stored st) (lib_md5 L content) (d_now (w_disk s))})"
    by blast
  moreover have "fs_drive_file_id (fs_stored st) = Some (df_id f)" using st by (simp add: fs_stored_def)
  ultimately show ?thesis
    by (intro exI [of _ content] exI [of _ token] exI [of _ w] exI [of _ w'] exI [of _ acts]
        exI [of _ "fs_stored st"] conjI) (use c in \<open>simp_all add: st\<close>)
qed

text \<open>
  C12: the next local scan after an upload is silent about the file, if the file still is as the
  scan before the upload saw it, exactly when its modification time is a whole number of milliseconds: the row keeps
  milliseconds, the scan compares nanoseconds. Any other file is uploaded again in every round.
\<close>

theorem upload_then_scan:
  fixes s :: "('w, disk) world"
  assumes "libs_ok L" and "root_ok root" and "tree_ok root (w_disk s)" and "db_wf (w_db s)"
    and "scanned_path (sa_relative_path a)" and "sa_kind a \<in> {NewUpload, UpdateUpload}"
    and "lookup_node (w_disk s) (file_key root (sa_relative_path a)) = Some (File c t)" and "time_ok t"
    and "sa_local_md5 a = Some (lib_md5 L c)" and "sa_local_modified a = Some t"
    and "\<forall>token w f w'. upload_call E L K ex folder token a c w = (Inr f, w') \<longrightarrow>
      pred_option time_ok (parse_drive_modified L (df_modified_time f))"
    and "\<forall>w. time_ok (fst (env_now E w))"
    and "execute_one E (tokio_local_fs L) L K ex root folder a s = (Inr r, s')"
    and "rows_ok fuel L root folder (w_disk s') (w_db s') states"
  shows "\<exists>acts st. compute_local_changes fuel (tokio_local_fs L) L root folder s' = (Inr (Some acts), s') \<and>
    {x \<in> set acts. sa_relative_path x = sa_relative_path a} =
      (if t mod 1000000 = 0 then {} else {update_upload (sa_relative_path a) st (lib_md5 L c) t})"
proof -
  have rel: "rel_ok (sa_relative_path a)" using assms(5) by (simp add: scanned_path_def)
  have plain: "plain (w_disk s)" using assms(3) by (simp add: tree_ok_def)
  obtain content token f w w' u u' st where
    content: "contents (w_disk s) (file_key root (sa_relative_path a)) = Some content"
    and call: "upload_call E L K ex folder token a content w = (Inr f, w')"
    and st: "file_state_after_upload E L (sf_id folder) (sa_relative_path a) f (sa_local_md5 a)
        (sa_local_modified a) u = (st, u')"
    and db: "fs_upsert L st (w_db s) = (Inr (), w_db s')" and disk: "w_disk s' = w_disk s"
    using assms(2) plain rel assms(6,13) by (rule upload_run)
  have c: "content = c" using content assms(7) by (simp add: contents_def)
  note fields = after_upload_fields [OF st]
  have row: "row_at (w_db s') (sf_id folder) (sa_relative_path a) = Some (row_of_file_state L st)"
    using row_at_upsert(1) [OF db] fields by simp
  have "pred_option time_ok (parse_drive_modified L (df_modified_time f))"
    using assms(11) call c by blast
  then have times: "fs_times_ok st"
    using transfer_times(2) [OF assms(12) st] assms(8,10) fields by (simp add: fs_times_ok_def)
  have tree': "tree_ok root (w_disk s')"
    and node: "lookup_node (w_disk s') (file_key root (sa_relative_path a)) = Some (File c t)"
    using assms(3,7) disk by simp_all
  have "floor_ms t = t \<longleftrightarrow> t mod 1000000 = 0"
    by (simp add: floor_ms_def minus_mod_eq_div_mult [symmetric])
  with scan_of_row [OF assms(1,2) tree' execute_one_wf [OF assms(4,13)] assms(14,5) node assms(8) row times]
  have "\<exists>acts. compute_local_changes fuel (tokio_local_fs L) L root folder s' = (Inr (Some acts), s') \<and>
    (\<forall>x \<in> set acts. action_wf x) \<and>
    {x \<in> set acts. sa_relative_path x = sa_relative_path a} =
      (if t mod 1000000 = 0 then {} else {update_upload (sa_relative_path a) (fs_stored st) (lib_md5 L c) t})"
    by (simp add: fields assms(9,10))
  then show ?thesis by blast
qed

section \<open>The scan after a conflict\<close>

lemma rel_below_join:
  assumes "\<forall>w \<in> set ks. w \<noteq> []"
  shows "rel_below [] ks = join_with ''/'' ks"
  using assms
proof (induction ks rule: rev_induct)
  case Nil
  then show ?case by (simp add: rel_below_def)
next
  case (snoc w ks)
  have "rel_below [] (ks @ [w]) = join_rel_path (join_with ''/'' ks) w"
    using snoc by (simp add: rel_below_def)
  moreover have "join_with ''/'' ks \<noteq> []" if "ks \<noteq> []"
  proof (cases ks)
    case Nil
    with that show ?thesis by simp
  next
    case (Cons v vs)
    then show ?thesis using snoc.prems by (cases vs) auto
  qed
  ultimately show ?case by (cases "ks = []") (simp_all add: join_rel_path_def join_with_snoc)
qed

lemma copy_scanned:
  assumes "scanned_path r" and "copy_name_ok root d r p"
  shows "scanned_path (conflict_rel root p)"
proof -
  let ?q = "conflict_rel root p"
  obtain s where q: "path_segs_of ?q = butlast (path_segs_of r) @ [last (path_segs_of r) @ ''.conflict-'' @ s]"
    "?q = join_with ''/'' (path_segs_of ?q)" and ok: "rel_ok ?q"
    using assms(2) by (auto simp: copy_name_ok_def copy_segs_def)
  have "\<forall>w \<in> set (path_segs_of ?q). w \<noteq> []" by (simp add: path_segs_of_def)
  then have "rel_below [] (path_segs_of ?q) = ?q" using q(2) by (simp add: rel_below_join)
  moreover have "\<not> skipped (n @ ''.conflict-'' @ s)" for n
  proof
    assume "skipped (n @ ''.conflict-'' @ s)"
    then have "length (n @ ''.conflict-'' @ s) < 10" by (auto simp: skipped_def dest!: arg_cong [of _ _ length])
    then show False by simp
  qed
  then have "\<forall>w \<in> set (path_segs_of ?q). \<not> skipped w"
    using assms(1) unfolding q(1) by (auto simp: scanned_path_def dest: in_set_butlastD)
  ultimately show ?thesis using ok by (simp add: scanned_path_def)
qed

lemma no_row_no_state:
  assumes "db_wf db" and "fs_list_by_folder L f db = (Inr states, db)" and "row_at db f p = None"
  shows "map_of (collect_map fs_relative_path states) p = None"
proof (rule ccontr)
  assume "map_of (collect_map fs_relative_path states) p \<noteq> None"
  then obtain st where "st \<in> set states" "fs_relative_path st = p"
    unfolding collect_map_lookup using find_sound by fastforce
  with listed_row [OF assms(1,2)] assms(3) show False by force
qed

text \<open>
  C14: the copy of the local content that a resolved conflict leaves is uploaded by the next local
  scan as a new file, under the name of the conflict copy, unless an old row for that path is left:
  the watcher ignores such names, the scan does not.
\<close>

theorem conflict_then_scan:
  fixes s :: "('w, disk) world"
  assumes "libs_ok L" and "root_ok root" and "tree_ok root (w_disk s)" and "db_wf (w_db s)"
    and "scanned_path (sa_relative_path a)" and "0 \<le> d_now (w_disk s)"
    and "length (d_nodes (w_disk s)) + 2 < 2 ^ 32" and "sa_kind a = Conflict"
    and "contents (w_disk s) (file_key root (sa_relative_path a)) = Some old"
    and "execute_one E (tokio_local_fs L) L K ex root folder a s = (Inr (Some ()), s')"
    and "rows_ok fuel L root folder (w_disk s') (w_db s') states"
  shows "\<exists>q x t acts. path_segs_of q = butlast (path_segs_of (sa_relative_path a)) @
      [last (path_segs_of (sa_relative_path a)) @ ''.conflict-'' @ x] \<and>
    lookup_node (w_disk s) (file_key root q) = None \<and>
    lookup_node (w_disk s') (file_key root q) = Some (File old t) \<and>
    compute_local_changes fuel (tokio_local_fs L) L root folder s' = (Inr (Some acts), s') \<and>
    (row_at (w_db s) (sf_id folder) q = None \<longrightarrow>
      {y \<in> set acts. sa_relative_path y = q} = {new_upload q None (lib_md5 L old) (file_time L (w_disk s') t)})"
proof -
  let ?r = "sa_relative_path a"
  have stamp: "stamp_ok L" using assms(1) by (simp add: libs_ok_def)
  have rel: "rel_ok ?r" using assms(5) by (simp add: scanned_path_def)
  have plain: "plain (w_disk s)" using assms(3) by (simp add: tree_ok_def)
  from conflict_run [OF stamp assms(2) rel plain assms(7-10)]
  obtain token t where t: "w_disk t = w_disk s" "w_db t = w_db s"
    and out: "conflict_outcome E L K ex root folder token a old (copy_name_ok root (w_disk t) ?r) t (Inr (Some ())) s'"
    by (metis Inl_Inr_False)
  from out show ?thesis
  proof cases
    case (resolved p d1 f w content w' w3 st w4)
    let ?q = "conflict_rel root p"
    have p: "copy_name_ok root (w_disk s) ?r p" using resolved(1) t by simp
    have q: "rel_ok ?q" "lookup_node (w_disk s) (file_key root ?q) = None" "file_key root ?q \<noteq> file_key root ?r"
      using p by (simp_all add: copy_name_ok_def)
    obtain x where x: "path_segs_of ?q = butlast (path_segs_of ?r) @ [last (path_segs_of ?r) @ ''.conflict-'' @ x]"
      using p by (auto simp: copy_name_ok_def copy_segs_def)
    note w1 = resolved(2) [unfolded t] and w2 = resolved(5)
    have d1: "tree_ok root d1 \<and> d_now d1 = d_now (w_disk s)" by (rule write_tree_ok [OF assms(2) q(1) assms(3,6) w1])
    have tree: "tree_ok root (w_disk s')" using write_tree_ok [OF assms(2) rel _ _ w2] d1 assms(6) by simp
    have "contents (w_disk s') (file_key root ?q) = Some old"
      by (rule copy_then_overwrite_contents(1) [OF assms(2) plain rel p assms(9) w1 w2])
    then obtain m where m: "lookup_node (w_disk s') (file_key root ?q) = Some (File old m)"
      by (auto simp: contents_def split: option.splits node.splits)
    obtain acts where acts: "compute_local_changes fuel (tokio_local_fs L) L root folder s' = (Inr (Some acts), s')"
      "{y \<in> set acts. sa_relative_path y = ?q} =
        set (upload_for L (w_disk s') (collect_map fs_relative_path states) ?q old m)"
      using scan_of_path [OF assms(2) tree assms(11) copy_scanned [OF assms(5) p] m] by blast
    have "?q \<noteq> ?r" using q(3) by auto
    then have "row_at (w_db s') (sf_id folder) ?q = row_at (w_db s) (sf_id folder) ?q"
      using row_at_upsert(2) [OF resolved(7)] after_download_fields [OF resolved(6)] t(2)
      by (auto simp: fs_path_key_def)
    then have "map_of (collect_map fs_relative_path states) ?q = None" if "row_at (w_db s) (sf_id folder) ?q = None"
      using that assms(11) unfolding rows_ok_def
      by (intro no_row_no_state [OF execute_one_wf [OF assms(4,10)]]) auto
    then have "row_at (w_db s) (sf_id folder) ?q = None \<longrightarrow>
        {y \<in> set acts. sa_relative_path y = ?q} = {new_upload ?q None (lib_md5 L old) (file_time L (w_disk s') m)}"
      by (simp add: acts(2) upload_for_def)
    then show ?thesis
      using x q(2) m acts(1)
      by - (rule exI [of _ ?q], rule exI [of _ x], rule exI [of _ m], rule exI [of _ acts], intro conjI)
  qed
qed

section \<open>The change list after a transfer\<close>

lemma only_state_of_file:
  assumes "st \<in> set states" and "fs_drive_file_id st = Some i"
    and "\<forall>x \<in> set states. fs_drive_file_id x = Some i \<longrightarrow> x = st"
  shows "map_of (states_by_drive_id states) i = Some st"
  unfolding states_by_drive_id_def collect_map_lookup
proof (rule find_the_only)
  fix y
  have "y \<in> set (rev (filter (\<lambda>s. fs_drive_file_id s \<noteq> None) states)) \<and> the (fs_drive_file_id y) = i \<longleftrightarrow>
      y \<in> set states \<and> fs_drive_file_id y = Some i" by auto
  then show "y \<in> set (rev (filter (\<lambda>s. fs_drive_file_id s \<noteq> None) states)) \<and> the (fs_drive_file_id y) = i \<longleftrightarrow>
      y = st" using assms by blast
qed

text \<open>A change that the recorded state already reflects gives nothing, wherever it stands in the list.\<close>

lemma echo_step:
  fixes s :: "('w, 'd) world"
  assumes "map_of known (ch_file_id ch) = Some st"
    and "fst (fs_get_by_path L (sf_id folder) (fs_relative_path st) (w_db s)) = Inr (Some st)"
    and "ch_removed ch \<noteq> Some True" and "ch_file ch = Some f"
    and "\<not> remote_changed st (df_md5_checksum f) (parse_drive_modified L (df_modified_time f))"
  shows "remote_changes L folder known paths (ch # chs) s = remote_changes L folder known paths chs s"
  using assms by (simp add: remote_path_known seqp_def lookup_world)

lemma remote_changes_same:
  assumes "\<And>paths. remote_changes L folder known paths (ch # ys) s = remote_changes L folder known paths ys s"
  shows "remote_changes L folder known paths (xs @ ch # ys) s = remote_changes L folder known paths (xs @ ys) s"
  using assms
proof (induction xs arbitrary: paths)
  case Nil
  then show ?case by simp
next
  case (Cons x xs)
  have IH: "remote_changes L folder known p (xs @ ch # ys) s = remote_changes L folder known p (xs @ ys) s" for p
    using Cons by blast
  show ?case
    by (simp add: consp_def seqp_def lookup_world IH split: option.splits sum.splits)
qed

text \<open>The state that both indexes of the change list give for a row.\<close>

lemma known_state:
  assumes "libs_ok L" and "db_wf (w_db s)" and "fs_list_by_folder L (sf_id folder) (w_db s) = (Inr states, w_db s)"
    and "row_at (w_db s) (sf_id folder) p = Some (row_of_file_state L st)" and "fs_times_ok st"
    and "fs_relative_path st = p" and "fs_drive_file_id st = Some i"
    and "\<forall>x \<in> set states. fs_drive_file_id x = Some i \<longrightarrow> fs_relative_path x = p"
  shows "map_of (states_by_drive_id states) i = Some (fs_stored st)"
    and "fst (fs_get_by_path L (sf_id folder) (fs_relative_path (fs_stored st)) (w_db s)) = Inr (Some (fs_stored st))"
proof -
  let ?st = "fs_stored st"
  have row: "row_to_file_state L (row_of_file_state L st) = Inr ?st" by (rule row_round_trip [OF assms(1,5)])
  note listed = listed_state [OF assms(2,3,4) row]
  have stored: "fs_relative_path ?st = p" "fs_drive_file_id ?st = Some i"
    using assms(6,7) by (simp_all add: fs_stored_def)
  show "map_of (states_by_drive_id states) i = Some ?st"
    using listed assms(8) stored by (intro only_state_of_file) blast+
  show "fst (fs_get_by_path L (sf_id folder) (fs_relative_path ?st) (w_db s)) = Inr (Some ?st)"
    using assms(4) row stored(1) by (simp add: get_by_path_find row_at_def)
qed

text \<open>A row that holds the digest and time of \<open>f\<close> makes any change that reports \<open>f\<close> redundant.\<close>

lemma echo_redundant:
  assumes "libs_ok L" and "db_wf (w_db s)" and "fs_list_by_folder L (sf_id folder) (w_db s) = (Inr states, w_db s)"
    and "row_at (w_db s) (sf_id folder) p = Some (row_of_file_state L st)" and "fs_times_ok st"
    and "fs_relative_path st = p" and "fs_drive_file_id st = Some (df_id f)" and "fs_drive_md5 st = df_md5_checksum f"
    and "fs_drive_modified st = parse_drive_modified L (df_modified_time f)"
    and "pred_option (\<lambda>t. t mod 1000000 = 0) (parse_drive_modified L (df_modified_time f))"
    and "\<forall>x \<in> set states. fs_drive_file_id x = Some (df_id f) \<longrightarrow> fs_relative_path x = p"
    and "ch_removed ch \<noteq> Some True" and "ch_file_id ch = df_id f" and "ch_file ch = Some f"
    and "cs_changes merged = xs @ ch # ys"
  shows "compute_remote_changes L folder merged s =
    compute_remote_changes L folder (merged\<lparr>cs_changes := xs @ ys\<rparr>) s"
proof -
  let ?st = "fs_stored st"
  note known = known_state [OF assms(1-7,11)]
  have stored: "fs_drive_md5 ?st = df_md5_checksum f" using assms(8) by (simp add: fs_stored_def)
  have "map_option floor_ms (parse_drive_modified L (df_modified_time f)) = parse_drive_modified L (df_modified_time f)"
    using assms(10) by (cases "parse_drive_modified L (df_modified_time f)")
      (simp_all add: floor_ms_def minus_mod_eq_div_mult [symmetric])
  then have same: "\<not> remote_changed ?st (df_md5_checksum f) (parse_drive_modified L (df_modified_time f))"
    using stored assms(9) by (simp add: remote_changed_def fs_stored_def)
  have "remote_changes L folder (states_by_drive_id states) paths (ch # ys) s =
      remote_changes L folder (states_by_drive_id states) paths ys s" for paths
    by (rule echo_step [OF _ known(2) assms(12,14) same]) (simp add: known(1) assms(13))
  from remote_changes_same [OF this]
  show ?thesis
    by (simp add: compute_remote_changes_def seqp_def on_db_apply assms(3,15) Let_def)
qed

text \<open>The row that a transfer leaves, and the Drive file it describes.\<close>

lemma transfer_row:
  fixes s :: "('w, disk) world"
  assumes "root_ok root" and "plain (w_disk s)" and "rel_ok (sa_relative_path a)"
    and "sa_kind a \<in> {NewUpload, UpdateUpload, NewDownload, UpdateDownload}"
    and "\<forall>w. time_ok (fst (env_now E w))" and "pred_option time_ok (sa_local_modified a)"
    and "execute_one E (tokio_local_fs L) L K ex root folder a s = (Inr r, s')"
  shows "\<exists>f st. (if sa_kind a \<in> {NewUpload, UpdateUpload}
      then \<exists>token content w w'. contents (w_disk s) (file_key root (sa_relative_path a)) = Some content \<and>
      upload_call E L K ex folder token a content w = (Inr f, w')
      else sa_drive_file a = Some f) \<and>
    row_at (w_db s') (sf_id folder) (sa_relative_path a) = Some (row_of_file_state L st) \<and>
    fs_relative_path st = sa_relative_path a \<and>
    fs_drive_file_id st = Some (df_id f) \<and> fs_drive_md5 st = df_md5_checksum f \<and>
    fs_drive_modified st = parse_drive_modified L (df_modified_time f) \<and>
    (pred_option time_ok (parse_drive_modified L (df_modified_time f)) \<longrightarrow> fs_times_ok st)"
proof (cases "sa_kind a \<in> {NewUpload, UpdateUpload}")
  case True
  obtain content token f w w' u u' st where
    content: "contents (w_disk s) (file_key root (sa_relative_path a)) = Some content"
    and call: "upload_call E L K ex folder token a content w = (Inr f, w')"
    and st: "file_state_after_upload E L (sf_id folder) (sa_relative_path a) f (sa_local_md5 a) (sa_local_modified a) u = (st, u')"
    and db: "fs_upsert L st (w_db s) = (Inr (), w_db s')"
    using assms(1,2,3) True assms(7) by (rule upload_run)
  note fields = after_upload_fields [OF st]
  show ?thesis
    by (rule exI [of _ f], rule exI [of _ st])
      (use True content call fields row_at_upsert(1) [OF db] transfer_times(2) [OF assms(5) st] assms(6) in
        \<open>auto simp: fs_times_ok_def\<close>)
next
  case False
  then have k: "sa_kind a \<in> {NewDownload, UpdateDownload}" using assms(4) by auto
  obtain f u u' st db where f: "sa_drive_file a = Some f"
    and st: "file_state_after_download E L (sf_id folder) (sa_relative_path a) f (sa_state a) u = (st, u')"
    and db: "fs_upsert L st (w_db s) = (Inr (), db)" "w_db s' = db"
    using k assms(7) by (rule download_run)
  note fields = after_download_fields [OF st]
  show ?thesis
    by (rule exI [of _ f], rule exI [of _ st])
      (use False f fields row_at_upsert(1) [OF db(1)] db(2) transfer_times(1) [OF assms(5) st] in
        \<open>auto simp: fs_times_ok_def\<close>)
qed

text \<open>
  C13: the change list does not send the daemon's own transfers back. After a transfer that succeeded, a change that reports the
  file as the transfer recorded it (the downloaded file, or what Drive answered to the upload) adds
  nothing to the remote actions, wherever it stands in the list: Drive's times are whole milliseconds, and no
  other row has the file's Drive id.
\<close>

theorem transfer_echo_ignored:
  fixes s :: "('w, disk) world"
  assumes "libs_ok L" and "root_ok root" and "plain (w_disk s)" and "rel_ok (sa_relative_path a)" and "db_wf (w_db s)"
    and "sa_kind a \<in> {NewUpload, UpdateUpload, NewDownload, UpdateDownload}"
    and "\<forall>w. time_ok (fst (env_now E w))" and "pred_option time_ok (sa_local_modified a)"
    and "execute_one E (tokio_local_fs L) L K ex root folder a s = (Inr r, s')"
    and "fs_list_by_folder L (sf_id folder) (w_db s') = (Inr states, w_db s')"
  shows "\<exists>f. (if sa_kind a \<in> {NewUpload, UpdateUpload}
      then \<exists>token content w w'. contents (w_disk s) (file_key root (sa_relative_path a)) = Some content \<and>
        upload_call E L K ex folder token a content w = (Inr f, w')
      else sa_drive_file a = Some f) \<and>
    (\<forall>merged xs ch ys.
      pred_option (\<lambda>t. time_ok t \<and> t mod 1000000 = 0) (parse_drive_modified L (df_modified_time f)) \<and>
      (\<forall>x \<in> set states. fs_drive_file_id x = Some (df_id f) \<longrightarrow> fs_relative_path x = sa_relative_path a) \<and>
      ch_removed ch \<noteq> Some True \<and> ch_file_id ch = df_id f \<and> ch_file ch = Some f \<and>
      cs_changes merged = xs @ ch # ys \<longrightarrow>
      compute_remote_changes L folder merged s' =
        compute_remote_changes L folder (merged\<lparr>cs_changes := xs @ ys\<rparr>) s')"
proof -
  let ?p = "sa_relative_path a"
  from transfer_row [OF assms(2,3,4,6,7,8,9)]
  obtain f st where f: "if sa_kind a \<in> {NewUpload, UpdateUpload}
        then \<exists>token content w w'. contents (w_disk s) (file_key root (sa_relative_path a)) = Some content \<and>
        upload_call E L K ex folder token a content w = (Inr f, w')
        else sa_drive_file a = Some f"
    and row: "row_at (w_db s') (sf_id folder) ?p = Some (row_of_file_state L st)"
    and st: "fs_relative_path st = ?p" "fs_drive_file_id st = Some (df_id f)" "fs_drive_md5 st = df_md5_checksum f"
      "fs_drive_modified st = parse_drive_modified L (df_modified_time f)"
    and times: "pred_option time_ok (parse_drive_modified L (df_modified_time f)) \<longrightarrow> fs_times_ok st" by blast
  note echo = echo_redundant [OF assms(1) execute_one_wf [OF assms(5,9)] assms(10) row _ st]
  have split: "pred_option (\<lambda>t. time_ok t \<and> t mod 1000000 = 0) x \<Longrightarrow>
      pred_option time_ok x \<and> pred_option (\<lambda>t. t mod 1000000 = 0) x" for x
    by (cases x) auto
  show ?thesis
    by (rule exI [of _ f], rule conjI [OF f], intro allI impI, elim conjE, drule split)
      (rule echo, use times in auto)
qed

text \<open>
  C11: a file that is only edited on Drive ends in a conflict. When Drive reports a further edit of a
  file that the last cycle downloaded, and the daemon has not scanned in between, the scan calls the downloaded file
  changed (its row has Drive's time, not the time of writing), the two updates are merged into a conflict, and the
  downloaded version is kept as a conflict copy although nobody touched the local file.
\<close>

theorem second_remote_edit_conflicts:
  fixes s :: "('w, disk) world"
  assumes "libs_ok L" and "root_ok root" and "tree_ok root (w_disk s)" and "db_wf (w_db s)"
    and "scanned_path (sa_relative_path a)" and "sa_kind a \<in> {NewDownload, UpdateDownload}"
    and "sa_drive_file a = Some f" and "pred_option time_ok (parse_drive_modified L (df_modified_time f))"
    and "\<forall>w. time_ok (fst (env_now E w))" and "time_ok (d_now (w_disk s))"
    and "execute_one E (tokio_local_fs L) L K ex root folder a s = (Inr r, s')"
    and "rows_ok fuel L root folder (w_disk s') (w_db s') states"
    and "\<forall>x \<in> set states. fs_drive_file_id x = Some (df_id f) \<longrightarrow> fs_relative_path x = sa_relative_path a"
    and "map_option floor_ms (parse_drive_modified L (df_modified_time f)) \<noteq> Some (d_now (w_disk s))"
    and "cs_changes merged = [ch]" and "ch_removed ch \<noteq> Some True" and "ch_file_id ch = df_id f"
    and "ch_file ch = Some g" and "\<not> is_trashed g"
    and "df_md5_checksum g \<noteq> df_md5_checksum f \<or> parse_drive_modified L (df_modified_time g) \<noteq>
      map_option floor_ms (parse_drive_modified L (df_modified_time f))"
  shows "\<exists>content token w w' acts ra st. remote_content E K ex token f w = (Inr content, w') \<and>
    compute_local_changes fuel (tokio_local_fs L) L root folder s' = (Inr (Some acts), s') \<and>
    compute_remote_changes L folder merged s' = (Inr ra, s') \<and>
    find (\<lambda>x. sa_relative_path x = sa_relative_path a) (merge_actions acts ra) =
      Some (conflict_action (sa_relative_path a) st g (lib_md5 L content) (d_now (w_disk s)))"
proof -
  let ?p = "sa_relative_path a"
  have now: "0 \<le> d_now (w_disk s)" using assms(10) by (simp add: time_ok_def)
  obtain token content w w' st where c: "remote_content E K ex token f w = (Inr content, w')"
    and tree: "tree_ok root (w_disk s')" and wf: "db_wf (w_db s')"
    and node: "lookup_node (w_disk s') (file_key root ?p) = Some (File content (d_now (w_disk s)))"
    and row: "row_at (w_db s') (sf_id folder) ?p = Some (row_of_file_state L st)" "fs_times_ok st"
    and st: "fs_relative_path st = ?p" "fs_drive_file_id st = Some (df_id f)"
    and rec: "fs_drive_md5 st = df_md5_checksum f" "fs_drive_modified st = parse_drive_modified L (df_modified_time f)"
      "fs_local_modified st = parse_drive_modified L (df_modified_time f)"
    using assms(2-9) now assms(11) by (rule download_leaves)
  let ?st = "fs_stored st"
  let ?l = "update_upload ?p ?st (lib_md5 L content) (d_now (w_disk s))" and ?r = "update_download ?p ?st g"
  have listed: "fs_list_by_folder L (sf_id folder) (w_db s') = (Inr states, w_db s')"
    using assms(12) by (simp add: rows_ok_def)
  from scan_of_row [OF assms(1,2) tree wf assms(12,5) node assms(10) row]
  obtain acts where acts: "compute_local_changes fuel (tokio_local_fs L) L root folder s' = (Inr (Some acts), s')"
    "\<forall>x \<in> set acts. action_wf x" "{x \<in> set acts. sa_relative_path x = ?p} = {?l}"
    using assms(14) rec(3) by auto
  note known = known_state [OF assms(1) wf listed row st assms(13)]
  have "remote_changed ?st (df_md5_checksum g) (parse_drive_modified L (df_modified_time g))"
    using assms(20) rec by (auto simp: remote_changed_def fs_stored_def)
  moreover have "fs_relative_path ?st = ?p" using st(1) by (simp add: fs_stored_def)
  ultimately have "remote_changes L folder (states_by_drive_id states) paths [ch] s' = (Inr [?r], s')" for paths
    using known assms(16-19) by (simp add: remote_path_known seqp_def lookup_world consp_def retp_def)
  then have ra: "compute_remote_changes L folder merged s' = (Inr [?r], s')"
    by (simp add: compute_remote_changes_def seqp_def on_db_apply listed assms(15) Let_def)
  have "last_for acts ?p = Some ?l"
    unfolding last_for_def using acts(3) by (intro find_the_only) auto
  moreover have "sa_relative_path ?r = ?p" by (simp add: update_download_def)
  ultimately have "find (\<lambda>x. sa_relative_path x = ?p) (merge_actions acts [?r]) = Some (combine (Some ?l) ?r)"
    using merge_actions_find [OF acts(2), of "[?r]" ?p] by simp
  moreover have "combine (Some ?l) ?r = conflict_action ?p ?st g (lib_md5 L content) (d_now (w_disk s))"
    by (simp add: combine_def) (simp add: update_upload_def update_download_def)
  ultimately show ?thesis using c acts(1) ra
    by - (rule exI [of _ content], rule exI [of _ token], rule exI [of _ w], rule exI [of _ w'],
        rule exI [of _ acts], rule exI [of _ "[?r]"], rule exI [of _ ?st], simp)
qed

section \<open>Examples\<close>

lemma below_card: "card (below_nodes d k) \<le> length (d_nodes d)"
proof -
  have "card (below_nodes d k) \<le> card (set (map fst (d_nodes d)))"
    by (rule card_mono) (auto simp: below_nodes_def)
  also have "\<dots> \<le> length (map fst (d_nodes d))" by (rule card_length)
  finally show ?thesis by simp
qed

lemma demo_tree: "tree_ok demo_root demo_plain_disk"
  by (simp add: tree_ok_def demo_plain demo_times demo_root_dir)

lemma demo_path: "scanned_path ''a.txt''" "rel_ok ''a.txt''" "file_key demo_root ''a.txt'' = [''r'', ''a.txt'']"
proof -
  show "rel_ok ''a.txt''" "file_key demo_root ''a.txt'' = [''r'', ''a.txt'']" by code_simp+
  moreover have "path_segs_of ''a.txt'' = [''a.txt'']" "rel_below [] [''a.txt''] = ''a.txt''" by code_simp+
  ultimately show "scanned_path ''a.txt''" by (simp add: scanned_path_def skipped_def)
qed

text \<open>One row, for \<open>a.txt\<close>, in a disk of at most three nodes with the directory \<open>r\<close>.\<close>

lemma demo_rows:
  assumes "fs_times_ok st" and "fs_path_key st = (''f1'', ''a.txt'')" and "is_dir_node (lookup_node d [''r''])"
    and "length (d_nodes d) \<le> 3" and "db_file_states db = [row_of_file_state demo_libs st]"
    and "p_segs root = [''r'']" and "sf_id folder = ''f1''"
  shows "rows_ok 8 demo_libs root folder d db [fs_stored st]"
proof -
  have "fs_list_by_folder demo_libs ''f1'' db = (Inr [fs_stored st], db)"
    using assms(2) by (simp add: fs_list_by_folder_def assms(5) row_round_trip [OF demo_libs_ok assms(1)])
      (simp add: row_of_file_state_def fs_path_key_def)
  moreover have k: "file_key root ''a.txt'' = [''r'', ''a.txt'']"
  proof -
    have "path_segs_of ''a.txt'' = [''a.txt'']" by code_simp
    then show ?thesis by (simp add: file_key_def assms(6))
  qed
  have dirs: "is_dir_node (lookup_node d (take i [''r'', ''a.txt'']))" if "i < 2" for i
    using that assms(3) by (cases i) auto
  have "\<not> behind_file d (file_key root ''a.txt'')"
    unfolding behind_file_def k
  proof
    assume "\<exists>i < length [''r'', ''a.txt'']. \<exists>c t. lookup_node d (take i [''r'', ''a.txt'']) = Some (File c t)"
    then obtain i c t where "i < 2" "lookup_node d (take i [''r'', ''a.txt'']) = Some (File c t)"
      by (auto simp: numeral_2_eq_2)
    with dirs [of i] show False by simp
  qed
  moreover have "fs_relative_path (fs_stored st) = ''a.txt''" using assms(2) by (simp add: fs_stored_def fs_path_key_def)
  ultimately show ?thesis
    using below_card [of d "[''r'']"] assms(4) by (simp add: rows_ok_def assms(6,7) demo_path)
qed

lemma demo_written:
  "tokio_write_atomic demo_root ''a.txt'' [] demo_plain_disk = (Inr (), \<lparr>d_nodes = [([''r''], Dir 0), ([''r'', ''a.txt''], File [] 7000000000)], d_now = 7000000000\<rparr>)"
proof -
  have "snd (tokio_write_atomic demo_root ''a.txt'' [] demo_plain_disk) =
      \<lparr>d_nodes = [([''r''], Dir 0), ([''r'', ''a.txt''], File [] 7000000000)], d_now = 7000000000\<rparr>" by code_simp
  with demo_writes show ?thesis by (metis prod.collapse)
qed

lemma demo_clock: "time_ok (fst (env_now token_env w))" "time_ok 7000000000" "time_ok 5000000000" "time_ok 17000000000"
  by (simp_all add: token_env_def time_ok_def max_secs_def)

lemma demo_drive_time: "parse_drive_modified demo_libs (df_modified_time demo_drive_file) = Some 17000000000"
proof -
  have "nat_to_str 17 = ''17''" by code_simp
  moreover have "(17 :: nat) < 2 ^ 64" by simp
  ultimately have "parse_uint 64 ''17'' = Some 17" using parse_uint_nat_to_str by metis
  then show ?thesis by (simp add: parse_drive_modified_def demo_drive_file_def demo_libs_def)
qed

text \<open>The scan after the download of \<open>a.txt\<close> finds it changed.\<close>

definition demo_fetch :: sync_action where
  "demo_fetch = new_download ''a.txt'' demo_drive_file"

lemma demo_fetch_simps [simp]:
  "sa_relative_path demo_fetch = ''a.txt''" "sa_kind demo_fetch = NewDownload"
  "sa_drive_file demo_fetch = Some demo_drive_file" "sa_state demo_fetch = None"
  by (simp_all add: demo_fetch_def new_download_def)

lemma demo_downloaded:
  obtains s' st where "execute_one token_env (tokio_local_fs demo_libs) demo_libs demo_codecs demo_executor demo_root
      demo_folder demo_fetch demo_world = (Inr (Some ()), s')"
    and "rows_ok 8 demo_libs demo_root demo_folder (w_disk s') (w_db s') [fs_stored st]"
    and "fs_relative_path st = ''a.txt''"
proof -
  have w: "w_disk demo_world = demo_plain_disk" "w_db demo_world = demo_db" by (simp_all add: demo_world_def)
  have f: "sf_id demo_folder = ''f1''" by (simp add: demo_folder_def)
  obtain s' where s': "execute_one token_env (tokio_local_fs demo_libs) demo_libs demo_codecs demo_executor
      demo_root demo_folder demo_fetch demo_world = (Inr (Some ()), s')" using demo_download by (auto simp: demo_fetch_def)
  have k: "sa_kind demo_fetch \<in> {NewDownload, UpdateDownload}" by simp
  obtain token content v v' d u u' st db where
    c: "remote_content token_env demo_codecs demo_executor token demo_drive_file v = (Inr content, v')"
    and d: "tokio_write_atomic demo_root ''a.txt'' content demo_plain_disk = (Inr (), d)" "w_disk s' = d"
    and st: "file_state_after_download token_env demo_libs ''f1'' ''a.txt'' demo_drive_file None u = (st, u')"
    and db: "fs_upsert demo_libs st demo_db = (Inr (), db)" "w_db s' = db"
    by (rule download_run [OF k s']) (simp add: w f)
  have content: "content = []" using c by (simp add: demo_media)
  have disk: "w_disk s' = \<lparr>d_nodes = [([''r''], Dir 0), ([''r'', ''a.txt''], File [] 7000000000)], d_now = 7000000000\<rparr>"
    using d by (simp add: content demo_written)
  note fields = after_download_fields [OF st]
  have times: "fs_times_ok st"
    using transfer_times(1) [OF _ st] demo_clock fields by (simp add: fs_times_ok_def demo_drive_time)
  have "db_file_states db = [row_of_file_state demo_libs st]"
    using db(1) by (auto simp: fs_upsert_def upsert_row_def stmt_def put_row_def demo_db_def split: if_splits)
  then have "rows_ok 8 demo_libs demo_root demo_folder (w_disk s') (w_db s') [fs_stored st]"
    using fields by (intro demo_rows times)
      (simp_all add: fs_path_key_def disk db(2) lookup_node_def f demo_root_def)
  with that s' fields show thesis by blast
qed

lemma demo_start:
  "tree_ok demo_root (w_disk demo_world)" "db_wf (w_db demo_world)" "scanned_path (sa_relative_path demo_fetch)"
  "sa_kind demo_fetch \<in> {NewDownload, UpdateDownload}"
  "pred_option time_ok (parse_drive_modified demo_libs (df_modified_time demo_drive_file))"
  "\<forall>w. time_ok (fst (env_now token_env w))" "time_ok (d_now (w_disk demo_world))" "d_now (w_disk demo_world) = 7000000000"
  by (simp_all add: demo_world_def demo_tree demo_db_wf demo_path demo_drive_time demo_clock)
    (simp_all add: demo_plain_disk_def demo_clock)

lemma download_then_scan_witness:
  "\<exists>s' acts st. execute_one token_env (tokio_local_fs demo_libs) demo_libs demo_codecs demo_executor demo_root
      demo_folder demo_fetch demo_world = (Inr (Some ()), s') \<and>
    compute_local_changes 8 (tokio_local_fs demo_libs) demo_libs demo_root demo_folder s' = (Inr (Some acts), s') \<and>
    {x \<in> set acts. sa_relative_path x = ''a.txt''} = {update_upload ''a.txt'' st [] 7000000000}"
proof -
  obtain s' st where s': "execute_one token_env (tokio_local_fs demo_libs) demo_libs demo_codecs demo_executor
      demo_root demo_folder demo_fetch demo_world = (Inr (Some ()), s')"
    and rows: "rows_ok 8 demo_libs demo_root demo_folder (w_disk s') (w_db s') [fs_stored st]"
    by (rule demo_downloaded)
  from download_then_scan [OF demo_libs_ok demo_root_ok demo_start(1-4) _ demo_start(5-7) s' rows]
  show ?thesis
    using s' by (auto simp: demo_start(8) demo_drive_time demo_media)
      (auto simp: demo_drive_file_def demo_libs_def)
qed

lemma second_remote_edit_conflicts_witness:
  "\<exists>s' acts ra st. execute_one token_env (tokio_local_fs demo_libs) demo_libs demo_codecs demo_executor demo_root
      demo_folder demo_fetch demo_world = (Inr (Some ()), s') \<and>
    compute_local_changes 8 (tokio_local_fs demo_libs) demo_libs demo_root demo_folder s' = (Inr (Some acts), s') \<and>
    find (\<lambda>x. sa_relative_path x = ''a.txt'') (merge_actions acts ra) =
      Some (conflict_action ''a.txt'' st (demo_drive_file\<lparr>df_md5_checksum := Some ''m2''\<rparr>) [] 7000000000)"
proof -
  obtain s' st where s': "execute_one token_env (tokio_local_fs demo_libs) demo_libs demo_codecs demo_executor
      demo_root demo_folder demo_fetch demo_world = (Inr (Some ()), s')"
    and rows: "rows_ok 8 demo_libs demo_root demo_folder (w_disk s') (w_db s') [fs_stored st]"
    and st: "fs_relative_path st = ''a.txt''"
    by (rule demo_downloaded)
  let ?g = "demo_drive_file\<lparr>df_md5_checksum := Some ''m2''\<rparr>"
  let ?ch = "\<lparr>ch_change_type = ''file'', ch_file_id = ''d1'', ch_file = Some ?g, ch_removed = None\<rparr>"
  let ?m = "\<lparr>cs_next_page_token = None, cs_new_start_page_token = None, cs_changes = [?ch]\<rparr>"
  have path: "\<forall>x \<in> set [fs_stored st]. fs_drive_file_id x = Some (df_id demo_drive_file) \<longrightarrow>
      fs_relative_path x = sa_relative_path demo_fetch" using st by (simp add: fs_stored_def)
  have differ: "map_option floor_ms (parse_drive_modified demo_libs (df_modified_time demo_drive_file)) \<noteq>
      Some (d_now (w_disk demo_world))" by (simp add: demo_drive_time demo_start(8) floor_ms_def)
  have g: "\<not> is_trashed ?g" "df_id demo_drive_file = ''d1''" by (simp_all add: is_trashed_iff demo_drive_file_def)
  have "df_md5_checksum ?g \<noteq> df_md5_checksum demo_drive_file" by (simp add: demo_drive_file_def)
  then have "df_md5_checksum ?g \<noteq> df_md5_checksum demo_drive_file \<or>
      parse_drive_modified demo_libs (df_modified_time ?g) \<noteq>
        map_option floor_ms (parse_drive_modified demo_libs (df_modified_time demo_drive_file))" ..
  from second_remote_edit_conflicts [OF demo_libs_ok demo_root_ok demo_start(1-4) _ demo_start(5-7) s' rows path differ,
      where merged = ?m and ch = ?ch, OF _ _ _ _ _ g(1) this]
  obtain acts ra t c where "compute_local_changes 8 (tokio_local_fs demo_libs) demo_libs demo_root demo_folder s' = (Inr (Some acts), s')"
    "find (\<lambda>x. sa_relative_path x = sa_relative_path demo_fetch) (merge_actions acts ra) =
      Some (conflict_action (sa_relative_path demo_fetch) t ?g (lib_md5 demo_libs c) (d_now (w_disk demo_world)))" "c = []"
    using g(2) by (auto simp: demo_media)
  moreover have "lib_md5 demo_libs [] = []" by (simp add: demo_libs_def)
  ultimately show ?thesis using s' by (auto simp: demo_start(8))
qed

text \<open>The scan after an upload of \<open>a.txt\<close>, whose time is a whole second, finds nothing; and the change is ignored.\<close>

definition demo_upload :: sync_action where
  "demo_upload = new_upload ''a.txt'' None ''old'' 5000000000"

lemma demo_upload_simps [simp]:
  "sa_relative_path demo_upload = ''a.txt''" "sa_kind demo_upload = NewUpload" "sa_state demo_upload = None"
  "sa_local_md5 demo_upload = Some ''old''" "sa_local_modified demo_upload = Some 5000000000"
  by (simp_all add: demo_upload_def new_upload_def)

lemma demo_call: "upload_call token_env demo_libs demo_codecs demo_executor demo_folder token demo_upload ''old'' w =
    (Inr demo_drive_file, w)"
  by (simp add: upload_call_def Let_def demo_created SIMPLE_UPLOAD_MAX_BYTES_def)

lemma demo_uploaded:
  obtains s' st where "execute_one token_env (tokio_local_fs demo_libs) demo_libs demo_codecs demo_executor demo_root
      demo_folder demo_upload demo_world = (Inr (Some ()), s')"
    and "w_disk s' = demo_plain_disk" and "rows_ok 8 demo_libs demo_root demo_folder (w_disk s') (w_db s') [fs_stored st]"
    and "fs_relative_path st = ''a.txt''"
proof -
  have w: "w_disk demo_world = demo_plain_disk" "w_db demo_world = demo_db" by (simp_all add: demo_world_def)
  have f: "sf_id demo_folder = ''f1''" by (simp add: demo_folder_def)
  have old: "contents demo_plain_disk [''r'', ''a.txt''] = Some ''old''"
    by (simp add: contents_def demo_plain_disk_def lookup_node_def)
  then have rd: "tokio_read_file demo_root ''a.txt'' demo_plain_disk = (Inr ''old'', demo_plain_disk)"
    by (simp add: read_contents [OF demo_root_ok demo_plain demo_path(2)] demo_path(3))
  have u: "fs_upsert demo_libs st demo_db =
      (Inr (), demo_db\<lparr>db_file_states := [row_of_file_state demo_libs st]\<rparr>)"
    if "fs_sync_folder_id st = ''f1''" for st
    using that by (simp add: fs_upsert_def upsert_row_def id_clash_def stmt_def put_row_def demo_db_def
        fk_ok_def row_of_file_state_def)
  have "\<exists>s'. execute_one token_env (tokio_local_fs demo_libs) demo_libs demo_codecs demo_executor demo_root
      demo_folder demo_upload demo_world = (Inr (Some ()), s')"
    by (simp add: u execute_one_def demo_executor_def executor_new_def seqp_def demo_token somep_def
        exec_new_upload_def retp_def on_env_def on_disk_def on_db_def okp_def rd w f demo_created
        SIMPLE_UPLOAD_MAX_BYTES_def file_state_after_upload_def Let_def split: prod.splits)
  then obtain s' where s': "execute_one token_env (tokio_local_fs demo_libs) demo_libs demo_codecs
      demo_executor demo_root demo_folder demo_upload demo_world = (Inr (Some ()), s')" by blast
  have "plain (w_disk demo_world)" "rel_ok (sa_relative_path demo_upload)"
    "sa_kind demo_upload \<in> {NewUpload, UpdateUpload}" by (simp_all add: w demo_plain demo_path)
  from upload_run [OF demo_root_ok this s'] obtain content token g v v' x x' st where
    content: "contents (w_disk demo_world) (file_key demo_root (sa_relative_path demo_upload)) = Some content"
    and call: "upload_call token_env demo_libs demo_codecs demo_executor demo_folder token demo_upload content v = (Inr g, v')"
    and st: "file_state_after_upload token_env demo_libs (sf_id demo_folder) (sa_relative_path demo_upload) g
        (sa_local_md5 demo_upload) (sa_local_modified demo_upload) x = (st, x')"
    and db: "fs_upsert demo_libs st (w_db demo_world) = (Inr (), w_db s')" and disk: "w_disk s' = w_disk demo_world"
    by metis
  have "content = ''old''" using content old by (simp add: w demo_path)
  then have g: "g = demo_drive_file" using call by (simp add: demo_call)
  note fields = after_upload_fields [OF st [unfolded g]]
  have times: "fs_times_ok st"
    using transfer_times(2) [OF _ st] demo_clock fields by (simp add: fs_times_ok_def demo_drive_time)
  have "db_file_states (w_db s') = [row_of_file_state demo_libs st]"
    using db [symmetric] u [of st] fields by (simp add: w f)
  then have "rows_ok 8 demo_libs demo_root demo_folder (w_disk s') (w_db s') [fs_stored st]"
    using fields by (intro demo_rows times)
      (simp_all add: fs_path_key_def disk w lookup_node_def f demo_root_def demo_plain_disk_def)
  with that s' disk fields show thesis by (simp add: w)
qed

lemma upload_then_scan_witness:
  "\<exists>s' acts. execute_one token_env (tokio_local_fs demo_libs) demo_libs demo_codecs demo_executor demo_root
      demo_folder demo_upload demo_world = (Inr (Some ()), s') \<and>
    compute_local_changes 8 (tokio_local_fs demo_libs) demo_libs demo_root demo_folder s' = (Inr (Some acts), s') \<and>
    {x \<in> set acts. sa_relative_path x = ''a.txt''} = {}"
proof -
  have w: "w_disk demo_world = demo_plain_disk" "w_db demo_world = demo_db" by (simp_all add: demo_world_def)
  obtain s' st where s': "execute_one token_env (tokio_local_fs demo_libs) demo_libs demo_codecs demo_executor demo_root
      demo_folder demo_upload demo_world = (Inr (Some ()), s')"
    and rows: "rows_ok 8 demo_libs demo_root demo_folder (w_disk s') (w_db s') [fs_stored st]"
    by (rule demo_uploaded)
  have pre: "tree_ok demo_root (w_disk demo_world)" "db_wf (w_db demo_world)"
    "scanned_path (sa_relative_path demo_upload)" "sa_kind demo_upload \<in> {NewUpload, UpdateUpload}"
    by (simp_all add: w demo_tree demo_db_wf demo_path)
  have node: "lookup_node (w_disk demo_world) (file_key demo_root (sa_relative_path demo_upload)) =
      Some (File ''old'' 5000000000)"
    by (simp add: w demo_path demo_plain_disk_def lookup_node_def)
  have md5: "sa_local_md5 demo_upload = Some (lib_md5 demo_libs ''old'')" by (simp add: demo_libs_def)
  from upload_then_scan [OF demo_libs_ok demo_root_ok pre node demo_clock(3) md5 _ _ _ s' rows]
  show ?thesis using s' by (auto simp: demo_call demo_drive_time demo_clock)
qed

definition demo_echo :: change_set where
  "demo_echo = \<lparr>cs_next_page_token = None, cs_new_start_page_token = None, cs_changes =
     [\<lparr>ch_change_type = ''file'', ch_file_id = ''d1'', ch_file = Some demo_drive_file, ch_removed = None\<rparr>]\<rparr>"

lemma transfer_echo_ignored_witness:
  "\<exists>s'. execute_one token_env (tokio_local_fs demo_libs) demo_libs demo_codecs demo_executor demo_root
      demo_folder demo_upload demo_world = (Inr (Some ()), s') \<and>
    compute_remote_changes demo_libs demo_folder demo_echo s' = (Inr [], s')"
proof -
  have w: "w_disk demo_world = demo_plain_disk" "w_db demo_world = demo_db" by (simp_all add: demo_world_def)
  obtain s' st where s': "execute_one token_env (tokio_local_fs demo_libs) demo_libs demo_codecs demo_executor demo_root
      demo_folder demo_upload demo_world = (Inr (Some ()), s')"
    and rows: "rows_ok 8 demo_libs demo_root demo_folder (w_disk s') (w_db s') [fs_stored st]"
    and st: "fs_relative_path st = ''a.txt''"
    by (rule demo_uploaded)
  have listed: "fs_list_by_folder demo_libs (sf_id demo_folder) (w_db s') = (Inr [fs_stored st], w_db s')"
    using rows by (simp add: rows_ok_def)
  have pre: "plain (w_disk demo_world)" "rel_ok (sa_relative_path demo_upload)" "db_wf (w_db demo_world)"
    "sa_kind demo_upload \<in> {NewUpload, UpdateUpload, NewDownload, UpdateDownload}"
    "\<forall>w. time_ok (fst (env_now token_env w))" "pred_option time_ok (sa_local_modified demo_upload)"
    by (simp_all add: w demo_plain demo_path demo_db_wf demo_clock)
  have old: "contents demo_plain_disk [''r'', ''a.txt''] = Some ''old''"
    by (simp add: contents_def demo_plain_disk_def lookup_node_def)
  let ?ch = "\<lparr>ch_change_type = ''file'', ch_file_id = ''d1'', ch_file = Some demo_drive_file, ch_removed = None\<rparr>"
  from transfer_echo_ignored [OF demo_libs_ok demo_root_ok pre s' listed]
  obtain f where call: "if sa_kind demo_upload \<in> {NewUpload, UpdateUpload}
      then \<exists>token content v v'. contents (w_disk demo_world) (file_key demo_root (sa_relative_path demo_upload)) = Some content \<and>
        upload_call token_env demo_libs demo_codecs demo_executor demo_folder token demo_upload content v = (Inr f, v')
      else sa_drive_file demo_upload = Some f"
    and echo: "\<forall>merged xs ch ys. pred_option (\<lambda>t. time_ok t \<and> t mod 1000000 = 0)
        (parse_drive_modified demo_libs (df_modified_time f)) \<and>
      (\<forall>x \<in> set [fs_stored st]. fs_drive_file_id x = Some (df_id f) \<longrightarrow> fs_relative_path x = sa_relative_path demo_upload) \<and>
      ch_removed ch \<noteq> Some True \<and> ch_file_id ch = df_id f \<and> ch_file ch = Some f \<and> cs_changes merged = xs @ ch # ys \<longrightarrow>
      compute_remote_changes demo_libs demo_folder merged s' =
        compute_remote_changes demo_libs demo_folder (merged\<lparr>cs_changes := xs @ ys\<rparr>) s'" by blast
  from call have f: "f = demo_drive_file" by (auto simp: w demo_path old demo_call)
  have i: "df_id demo_drive_file = ''d1''" by (simp add: demo_drive_file_def)
  have "compute_remote_changes demo_libs demo_folder demo_echo s' =
      compute_remote_changes demo_libs demo_folder (demo_echo\<lparr>cs_changes := [] @ []\<rparr>) s'"
    by (rule echo [rule_format, where ch = ?ch])
      (simp_all add: f demo_drive_time demo_clock demo_echo_def st fs_stored_def i)
  also have "\<dots> = (Inr [], s')"
    by (simp add: compute_remote_changes_def seqp_def on_db_apply listed retp_def Let_def)
  finally show ?thesis using s' by blast
qed

text \<open>The conflict of \<open>a.txt\<close>: its local content goes to a copy, which the next scan uploads.\<close>

definition demo_copied :: disk where
  "demo_copied = \<lparr>d_nodes = [([''r''], Dir 0), ([''r'', ''a.txt''], File ''old'' 5000000000),
     ([''r'', ''a.gds_tmp''], File ''mine'' 6000000000), ([''r'', ''a.txt.conflict-100.txt''], File ''old'' 7000000000)],
     d_now = 7000000000\<rparr>"

definition demo_resolved :: disk where
  "demo_resolved = \<lparr>d_nodes = [([''r''], Dir 0), ([''r'', ''a.txt''], File [] 7000000000),
     ([''r'', ''a.txt.conflict-100.txt''], File ''old'' 7000000000)], d_now = 7000000000\<rparr>"

definition demo_copy :: path where
  "demo_copy = \<lparr>p_abs = True, p_segs = [''r'', ''a.txt.conflict-100.txt'']\<rparr>"

lemma demo_copy_path:
  "conflict_copy_path demo_libs (path_join demo_root ''a.txt'') 100000000000 (std_exists demo_plain_disk) = Some demo_copy"
proof -
  let ?p = "\<lparr>p_abs = True, p_segs = [''r'', ''a.txt'']\<rparr>"
  have p: "path_join demo_root ''a.txt'' = ?p"
    by (simp add: join_rel [OF demo_root_ok demo_path(2)] demo_path(3))
  have "path_parent ?p = Some demo_root" "file_stem ?p = Some ''a''" "extension ?p = Some ''txt''" by code_simp+
  moreover have "nat_to_str 100 = ''100''" by code_simp
  then have "lib_conflict_stamp demo_libs 100000000000 = ''100''" by (simp add: demo_libs_def)
  moreover have "path_join demo_root (conflict_name ''a'' ''.txt'' ''100'' []) = demo_copy" by code_simp
  moreover have "\<not> std_exists demo_plain_disk demo_copy" by code_simp
  ultimately show ?thesis by (simp add: p conflict_copy_path_def Let_def)
qed

lemma demo_copy_writes:
  "tokio_write_atomic demo_root ''a.txt.conflict-100.txt'' ''old'' demo_plain_disk = (Inr (), demo_copied)"
  "tokio_write_atomic demo_root ''a.txt'' [] demo_copied = (Inr (), demo_resolved)"
  by code_simp+

lemma demo_conflict_run:
  obtains s' st where "execute_one token_env (tokio_local_fs demo_libs) demo_libs demo_codecs demo_executor demo_root
      demo_folder demo_conflict demo_world = (Inr (Some ()), s')"
    and "w_disk s' = demo_resolved" and "rows_ok 8 demo_libs demo_root demo_folder (w_disk s') (w_db s') [fs_stored st]"
proof -
  have a: "sa_relative_path demo_conflict = ''a.txt''" "sa_kind demo_conflict = Conflict" "sa_state demo_conflict = Some demo_known"
    "sa_drive_file demo_conflict = Some demo_drive_file" by (simp_all add: demo_conflict_def conflict_action_def)
  have w: "w_disk demo_world = demo_plain_disk" "w_db demo_world = demo_db" by (simp_all add: demo_world_def)
  have f: "sf_id demo_folder = ''f1''" by (simp add: demo_folder_def)
  have now: "env_now token_env (w_env demo_world) = (100000000000, w_env demo_world)" by (simp add: token_env_def)
  have "contents demo_plain_disk [''r'', ''a.txt''] = Some ''old''"
    by (simp add: contents_def demo_plain_disk_def lookup_node_def)
  then have rd: "tokio_read_file demo_root (sa_relative_path demo_conflict) (w_disk demo_world) = (Inr ''old'', w_disk demo_world)"
    by (simp add: a w read_contents [OF demo_root_ok demo_plain demo_path(2)] demo_path(3))
  have rel: "conflict_rel demo_root demo_copy = ''a.txt.conflict-100.txt''" by code_simp
  have w1: "tokio_write_atomic demo_root (conflict_rel demo_root demo_copy) ''old'' (w_disk demo_world) = (Inr (), demo_copied)"
    by (simp add: w rel demo_copy_writes)
  note path = demo_copy_path [folded w(1) a(1)]
  obtain st w4 where st: "file_state_after_download token_env demo_libs (sf_id demo_folder) ''a.txt'' demo_drive_file
      (Some demo_known) (w_env demo_world) = (st, w4)"
    by (cases "file_state_after_download token_env demo_libs (sf_id demo_folder) ''a.txt'' demo_drive_file
      (Some demo_known) (w_env demo_world)")
  let ?st = "st\<lparr>fs_sync_state := ss_conflict\<rparr>"
  note fields = after_download_fields [OF st]
  have u: "fs_upsert demo_libs ?st demo_db = (Inr (), demo_db\<lparr>db_file_states := [row_of_file_state demo_libs ?st]\<rparr>)"
    using fields by (simp add: f fs_upsert_def upsert_row_def id_clash_def stmt_def put_row_def demo_db_def
        fk_ok_def row_of_file_state_def)
  note start = exec_conflict_start [OF a(3,4) now path rd w1 demo_media, of demo_folder]
  have "\<exists>s'. exec_conflict token_env (tokio_local_fs demo_libs) demo_libs demo_codecs demo_executor demo_root demo_folder
      ''at'' demo_conflict demo_world = (Inr (Some ()), s') \<and> w_disk s' = demo_resolved \<and>
      w_db s' = demo_db\<lparr>db_file_states := [row_of_file_state demo_libs ?st]\<rparr>"
    by (simp add: start conflict_rest_def a seqp_def on_disk_def demo_copy_writes(2) on_env_def okp_def st on_db_def
        w u modp_def retp_def)
  then obtain s' where s': "exec_conflict token_env (tokio_local_fs demo_libs) demo_libs demo_codecs demo_executor demo_root
      demo_folder ''at'' demo_conflict demo_world = (Inr (Some ()), s')" "w_disk s' = demo_resolved"
      "w_db s' = demo_db\<lparr>db_file_states := [row_of_file_state demo_libs ?st]\<rparr>" by blast
  have key: "se_account_key demo_executor = ''acc''" by (simp add: demo_executor_def executor_new_def)
  have run: "execute_one token_env (tokio_local_fs demo_libs) demo_libs demo_codecs demo_executor demo_root
      demo_folder demo_conflict demo_world = (Inr (Some ()), s')"
    by (simp add: execute_one_def seqp_def key demo_token a(2) s'(1))
  have "fs_times_ok ?st"
    using transfer_times(1) [OF _ st] demo_clock fields by (simp add: fs_times_ok_def demo_drive_time)
  then have "rows_ok 8 demo_libs demo_root demo_folder (w_disk s') (w_db s') [fs_stored ?st]"
    using fields by (intro demo_rows)
      (simp_all add: fs_path_key_def s' lookup_node_def f demo_root_def demo_resolved_def)
  with that run s'(2) show thesis by blast
qed

lemma conflict_then_scan_witness:
  "\<exists>s' q t acts. execute_one token_env (tokio_local_fs demo_libs) demo_libs demo_codecs demo_executor demo_root
      demo_folder demo_conflict demo_world = (Inr (Some ()), s') \<and>
    compute_local_changes 8 (tokio_local_fs demo_libs) demo_libs demo_root demo_folder s' = (Inr (Some acts), s') \<and>
    {y \<in> set acts. sa_relative_path y = q} = {new_upload q None ''old'' t} \<and> q \<noteq> ''a.txt''"
proof -
  have w: "w_disk demo_world = demo_plain_disk" "w_db demo_world = demo_db" by (simp_all add: demo_world_def)
  obtain s' st where s': "execute_one token_env (tokio_local_fs demo_libs) demo_libs demo_codecs demo_executor demo_root
      demo_folder demo_conflict demo_world = (Inr (Some ()), s')"
    and rows: "rows_ok 8 demo_libs demo_root demo_folder (w_disk s') (w_db s') [fs_stored st]"
    by (rule demo_conflict_run)
  have a: "sa_relative_path demo_conflict = ''a.txt''" by (simp add: demo_conflict_def conflict_action_def)
  have pre: "tree_ok demo_root (w_disk demo_world)" "db_wf (w_db demo_world)" "scanned_path (sa_relative_path demo_conflict)"
    "0 \<le> d_now (w_disk demo_world)" "length (d_nodes (w_disk demo_world)) + 2 < 2 ^ 32" "sa_kind demo_conflict = Conflict"
    "contents (w_disk demo_world) (file_key demo_root (sa_relative_path demo_conflict)) = Some ''old''"
    by (simp_all add: w a demo_tree demo_db_wf demo_path)
      (simp_all add: demo_plain_disk_def demo_conflict_def conflict_action_def contents_def lookup_node_def)
  have none: "row_at (w_db demo_world) (sf_id demo_folder) q = None" for q
    by (simp add: w row_at_def demo_db_def)
  from conflict_then_scan [OF demo_libs_ok demo_root_ok pre s' rows]
  obtain q x t acts where q: "path_segs_of q = butlast (path_segs_of ''a.txt'') @ [last (path_segs_of ''a.txt'') @ ''.conflict-'' @ x]"
    and acts: "compute_local_changes 8 (tokio_local_fs demo_libs) demo_libs demo_root demo_folder s' = (Inr (Some acts), s')"
      "row_at (w_db demo_world) (sf_id demo_folder) q = None \<longrightarrow>
        {y \<in> set acts. sa_relative_path y = q} = {new_upload q None (lib_md5 demo_libs ''old'') (file_time demo_libs (w_disk s') t)}"
    unfolding a by (elim exE conjE) (rule that, assumption+)
  have "path_segs_of ''a.txt'' = [''a.txt'']" by code_simp
  then have "q \<noteq> ''a.txt''" using q by auto
  moreover have "lib_md5 demo_libs ''old'' = ''old''" by (simp add: demo_libs_def)
  ultimately show ?thesis
    using s' acts none by (intro exI [of _ s'] exI [of _ q] exI [of _ "file_time demo_libs (w_disk s') t"] exI [of _ acts]) simp
qed

end
