(* ===== verification/Gds_Rounds.thy ===== *)
theory Gds_Rounds
  imports Gds_Next_Scan
begin

text \<open>
  Whole cycles (\<open>run_sync_loop\<close> of \<open>scheduler/mod.rs\<close> with the engine below it): which actions a cycle
  executes, and that a folder whose two sides agree with the recorded states is left alone.
\<close>

section \<open>A whole cycle\<close>

lemma report_failure_fails: "report_failure V folder e s \<noteq> (Inr x, t)"
  unfolding report_failure_def by (auto simp: failp_def elim!: seqp_InrE)

lemma report_success_disk:
  assumes "report_success V folder merged n s = (r, s')"
  shows "w_disk (dm_world s') = w_disk (dm_world s)"
proof -
  let ?I = "\<lambda>u :: 'a daemon. w_disk (dm_world u) = w_disk (dm_world s)"
  have "pres ?I (add_syncing m)" "pres ?I (emit sg)" for m sg
    by (simp_all add: pres_def add_syncing_def emit_def modp_def)
  then have "pres ?I (report_success V folder merged n)"
    unfolding report_success_def pause_status_def
    by (intro proc_pres) (simp_all add: pres_def on_env_apply on_db_apply)
  from presD [OF this refl assms] show ?thesis .
qed

lemma cycle_runs:
  fixes s :: "'w daemon"
  defines "root \<equiv> \<lambda>folder. path_of (sf_local_path folder)"
  assumes "root_ok (root folder)" and "tree_ok (root folder) (w_disk (dm_world s))"
    and "rows_ok (sv_fuel V) (sv_libs V) (root folder) folder (w_disk (dm_world s)) (w_db (dm_world s)) states"
    and "sf_start_page_token folder = Some p" and "run_sync_loop V folder s = (Inr (Some n), s')"
  shows "\<exists>(account :: account) token w w' merged u la ra as rest t.
    fetch_all_changes (sv_env V) (sv_codecs V) (sv_drive_client V) token p w = (Inr (Some merged), w') \<and>
    w_disk u = w_disk (dm_world s) \<and> w_db u = w_db (dm_world s) \<and>
    compute_local_changes (sv_fuel V) (tokio_local_fs (sv_libs V)) (sv_libs V) (root folder) folder u =
      (Inr (Some la), u) \<and>
    compute_remote_changes (sv_libs V) folder merged u = (Inr ra, u) \<and>
    mset (as @ rest) = mset (merge_actions la ra) \<and> sorted (map priority (as @ rest)) \<and>
    executes (sv_env V) (tokio_local_fs (sv_libs V)) (sv_libs V) (sv_codecs V)
      (with_conflict_notifier (executor_new (sv_drive_client V) (acc_keyring_key account) (sv_config V)))
      (root folder) folder as u t \<and>
    n = of_nat (length as) \<and> (rest \<noteq> [] \<longrightarrow> fst (env_pause (sv_env V) (w_env t))) \<and>
    w_disk (dm_world s') = w_disk t \<and> db_file_states (w_db (dm_world s')) = db_file_states (w_db t) \<and>
    folder_rows s' = (case cs_new_start_page_token merged of None \<Rightarrow> folder_rows s
      | Some start \<Rightarrow> with_start_token (sf_id folder) (Some start) (folder_rows s))"
proof -
  let ?FS = "tokio_local_fs (sv_libs V)" and ?root = "path_of (sf_local_path folder)"
  obtain account token w w' merged u la v ra x
  where f: "fetch_all_changes (sv_env V) (sv_codecs V) (sv_drive_client V) token p w = (Inr (Some merged), w')"
    and u: "still (w_disk (dm_world s)) (w_db (dm_world s)) (w_notices (dm_world s)) u"
    and v: "compute_local_changes (sv_fuel V) ?FS (sv_libs V) ?root folder u = (Inr (Some la), v)"
    and ra: "compute_remote_changes (sv_libs V) folder merged v = (Inr ra, v)"
    and x: "dm_world x = v"
      "run_and_report V account folder merged (from_actions (merge_actions la ra)) x = (Inr (Some n), s')"
    using assms(6,5) by (rule cycle_steps)
  have disk: "w_disk u = w_disk (dm_world s)" "w_db u = w_db (dm_world s)" using u by (simp_all add: still_def)
  have "plain (w_disk u)" "times_ok (w_disk u)" "is_dir_node (lookup_node (w_disk u) (p_segs ?root))"
    "fs_list_by_folder (sv_libs V) (sf_id folder) (w_db u) = (Inr states, w_db u)"
    "\<forall>st \<in> set states. rel_ok (fs_relative_path st) \<and> \<not> behind_file (w_disk u) (file_key ?root (fs_relative_path st))"
    "card (below_nodes (w_disk u) (p_segs ?root)) < sv_fuel V"
    using assms(3,4) unfolding tree_ok_def rows_ok_def disk root_def by blast+
  from scan_finds [OF this(1,2) assms(2) [unfolded root_def] this(3-6)] have vu: "v = u" using v by auto
  let ?ex = "with_conflict_notifier (executor_new (sv_drive_client V) (acc_keyring_key account) (sv_config V))"
    and ?q = "from_actions (merge_actions la ra)"
  obtain r q' y where q: "run_queue (sv_env V) ?FS (sv_libs V) (sv_codecs V) ?ex folder ?q u = (r, q', y)"
    by (metis prod_cases3)
  from run_loop_prefix [OF q [unfolded run_queue_def]] obtain as rest t where
    as: "sq_inner ?q = as @ rest" "executes (sv_env V) ?FS (sv_libs V) (sv_codecs V) ?ex ?root folder as u t"
    and fin: "run_end (sv_env V) ?FS (sv_libs V) (sv_codecs V) ?ex ?root folder (of_nat (length as)) rest t r
      (sq_inner q') y" by auto
  from x(2) obtain k where r: "r = Inr (Some k)"
    and rep: "report_success V folder merged k (x\<lparr>dm_world := y\<rparr>) = (Inr (Some n), s')"
    using x(1) vu q
    by (auto simp: run_and_report_def Let_def report_failure_fails split: sum.splits option.splits)
  note rows = report_success_rows [OF rep]
  have k: "k = of_nat (length as)" "rest \<noteq> [] \<longrightarrow> fst (env_pause (sv_env V) (w_env t))" "w_db y = w_db t" "w_disk y = w_disk t"
    using fin r by (auto simp: run_end_def)
  have "w_disk (dm_world s') = w_disk t" using report_success_disk [OF rep] k(4) by simp
  moreover have "db_file_states (w_db (dm_world s')) = db_file_states (w_db t)" using rows k(3) by simp
  moreover have "folder_rows s' = (case cs_new_start_page_token merged of None \<Rightarrow> folder_rows s
      | Some start \<Rightarrow> with_start_token (sf_id folder) (Some start) (folder_rows s))"
    using rows run_queue_rows [OF q] disk(2) by (simp cong: option.case_cong)
  moreover have "n = of_nat (length as)" using rows k(1) by simp
  moreover have "mset (as @ rest) = mset (merge_actions la ra)" "sorted (map priority (as @ rest))"
    using from_actions_mset from_actions_ranked unfolding as(1) [symmetric] by blast+
  ultimately show ?thesis
    using f disk v ra as(2) k(2) unfolding vu root_def
    by - (rule exI [of _ account], rule exI [of _ token], rule exI [of _ w], rule exI [of _ w'],
        rule exI [of _ merged], rule exI [of _ u], rule exI [of _ la], rule exI [of _ ra],
        rule exI [of _ as], rule exI [of _ rest], rule exI [of _ t], intro conjI)
qed

text \<open>
  A folder in step: every file that a scan looks at has a state with its digest and time, every
  state with a Drive id has its file, and the changes report what the states record.
\<close>

definition in_step :: "libs \<Rightarrow> path \<Rightarrow> disk \<Rightarrow> file_state list \<Rightarrow> bool" where
  "in_step L root d states \<longleftrightarrow>
     (\<forall>ks c t. ks \<noteq> [] \<and> (\<forall>w \<in> set ks. \<not> skipped w) \<and> lookup_node d (p_segs root @ ks) = Some (File c t) \<longrightarrow>
        (\<exists>st \<in> set states. fs_relative_path st = rel_below [] ks \<and> fs_local_md5 st = Some (lib_md5 L c) \<and>
           fs_local_modified st = Some (file_time L d t))) \<and>
     (\<forall>st \<in> set states. fs_drive_file_id st \<noteq> None \<longrightarrow> lookup_node d (file_key root (fs_relative_path st)) \<noteq> None)"

definition recorded :: "libs \<Rightarrow> file_state list \<Rightarrow> drive_change \<Rightarrow> bool" where
  "recorded L states ch \<longleftrightarrow>
     (if ch_removed ch = Some True then \<forall>st \<in> set states. fs_drive_file_id st \<noteq> Some (ch_file_id ch)
      else case ch_file ch of
        None \<Rightarrow> True
      | Some f \<Rightarrow> is_trashed f \<or> (\<exists>st \<in> set states. fs_drive_file_id st = Some (ch_file_id ch)) \<and>
          (\<forall>st \<in> set states. fs_drive_file_id st = Some (ch_file_id ch) \<longrightarrow>
             \<not> remote_changed st (df_md5_checksum f) (parse_drive_modified L (df_modified_time f))))"

lemma recorded_quiet:
  fixes s :: "('w, 'd) world"
  assumes "db_wf (w_db s)" and "fs_list_by_folder L (sf_id folder) (w_db s) = (Inr states, w_db s)"
    and "\<forall>ch \<in> set chs. recorded L states ch"
  shows "remote_changes L folder (states_by_drive_id states) paths chs s = (Inr [], s)"
  using assms(3)
proof (induction chs arbitrary: paths)
  case Nil
  then show ?case by (simp add: retp_def)
next
  case (Cons ch chs)
  let ?known = "states_by_drive_id states"
  have known: "x \<in> set states \<and> fs_drive_file_id x = Some i" if "map_of ?known i = Some x" for x i
    using find_sound [OF that [unfolded states_by_drive_id_def collect_map_lookup]] by auto
  have IH: "remote_changes L folder ?known p chs s = (Inr [], s)" for p
    using Cons by simp
  have rec: "recorded L states ch" using Cons.prems by simp
  show ?case
  proof (cases "ch_removed ch = Some True")
    case True
    then have "map_of ?known (ch_file_id ch) = None"
      using rec known by (cases "map_of ?known (ch_file_id ch)") (auto simp: recorded_def)
    with True IH show ?thesis by simp
  next
    case False
    show ?thesis
    proof (cases "case ch_file ch of None \<Rightarrow> True | Some f \<Rightarrow> is_trashed f")
      case True
      with False IH show ?thesis by (auto split: option.splits)
    next
      case live: False
      then obtain f where f: "ch_file ch = Some f" "\<not> is_trashed f" by (auto split: option.splits)
      with rec False obtain st where st: "st \<in> set states" "fs_drive_file_id st = Some (ch_file_id ch)"
        and same: "\<forall>st \<in> set states. fs_drive_file_id st = Some (ch_file_id ch) \<longrightarrow>
          \<not> remote_changed st (df_md5_checksum f) (parse_drive_modified L (df_modified_time f))"
        by (auto simp: recorded_def)
      have "map_of ?known (ch_file_id ch) \<noteq> None"
        unfolding states_by_drive_id_def collect_map_lookup find_None_iff using st by auto
      then obtain x where x: "map_of ?known (ch_file_id ch) = Some x" by blast
      note k = known [OF x]
      obtain r where "row_at (w_db s) (sf_id folder) (fs_relative_path x) = Some r" "row_to_file_state L r = Inr x"
        using assms(1,2) conjunct1 [OF k] by (rule listed_row)
      then have get: "fst (fs_get_by_path L (sf_id folder) (fs_relative_path x) (w_db s)) = Inr (Some x)"
        by (simp add: get_by_path_find row_at_def)
      from echo_step [OF x get False f(1)] same k IH show ?thesis by simp
    qed
  qed
qed

lemma in_step_scan:
  assumes "db_wf db" and "fs_list_by_folder L f db = (Inr states, db)" and "in_step L root d states"
  shows "found L d root (collect_map fs_relative_path states) [] = {}"
proof -
  have "upload_for L d (collect_map fs_relative_path states) (rel_below [] ks) c t = []"
    if ks: "ks \<noteq> []" "\<forall>w \<in> set ks. \<not> skipped w" "lookup_node d (p_segs root @ ks) = Some (File c t)" for ks c t
  proof -
    obtain st where st: "st \<in> set states" "fs_relative_path st = rel_below [] ks"
      "fs_local_md5 st = Some (lib_md5 L c)" "fs_local_modified st = Some (file_time L d t)"
      using assms(3) ks unfolding in_step_def by blast
    obtain r where "row_at db f (fs_relative_path st) = Some r" "row_to_file_state L r = Inr st"
      using assms(1,2) st(1) by (rule listed_row)
    from listed_by_path [OF assms(1,2) this] st show ?thesis
      by (simp add: upload_for_def local_changed_iff)
  qed
  then show ?thesis by (auto simp: found_def dir_key_def)
qed

lemma in_step_local:
  fixes u :: "('w, disk) world"
  assumes "root_ok root" and "tree_ok root (w_disk u)" and "rows_ok fuel L root folder (w_disk u) (w_db u) states"
    and "db_wf (w_db u)" and "in_step L root (w_disk u) states"
  shows "compute_local_changes fuel (tokio_local_fs L) L root folder u = (Inr (Some []), u)"
proof -
  let ?m = "collect_map fs_relative_path states"
  let ?gone = "{delete_remote r st | r st. (r, st) \<in> set ?m \<and> fs_drive_file_id st \<noteq> None \<and>
    lookup_node (w_disk u) (file_key root r) = None}"
  have disk: "plain (w_disk u)" "times_ok (w_disk u)" "is_dir_node (lookup_node (w_disk u) (p_segs root))"
    and rows: "fs_list_by_folder L (sf_id folder) (w_db u) = (Inr states, w_db u)"
      "\<forall>st \<in> set states. rel_ok (fs_relative_path st) \<and> \<not> behind_file (w_disk u) (file_key root (fs_relative_path st))"
      "card (below_nodes (w_disk u) (p_segs root)) < fuel"
    using assms(2,3) unfolding tree_ok_def rows_ok_def by blast+
  have "\<not> (fs_drive_file_id st \<noteq> None \<and> lookup_node (w_disk u) (file_key root r) = None)" if "(r, st) \<in> set ?m" for r st
    using collect_values [OF that] assms(5) by (auto simp: in_step_def)
  then have "?gone = {}" by blast
  moreover have "found L (w_disk u) root ?m [] = {}" by (rule in_step_scan [OF assms(4) rows(1) assms(5)])
  moreover obtain acts where "compute_local_changes fuel (tokio_local_fs L) L root folder u = (Inr (Some acts), u)"
    and "set acts = found L (w_disk u) root ?m [] \<union> ?gone"
    using scan_finds [OF disk(1,2) assms(1) disk(3) rows] by blast
  moreover from calculation have "set acts = {}" by (simp only: Un_empty)
  ultimately show ?thesis by simp
qed

lemma recorded_remote:
  fixes u :: "('w, 'd) world"
  assumes "db_wf (w_db u)" and "fs_list_by_folder L (sf_id folder) (w_db u) = (Inr states, w_db u)"
    and "\<forall>ch \<in> set (cs_changes merged). recorded L states ch"
  shows "compute_remote_changes L folder merged u = (Inr [], u)"
  using recorded_quiet [OF assms]
  by (simp add: compute_remote_changes_def seqp_def on_db_apply assms(2) Let_def)

section \<open>Properties of whole cycles\<close>

text \<open>
  C2: a cycle that returns a number has executed that many of the merged actions. The scan saw the disk and
  the database as they were at the start; its actions and those of all fetched changes were merged; the
  merged actions were executed in order of priority, each once and with success, and all of them unless the
  pause flag stopped the run; then the folder got the new page token. What the cycle leaves on the disk and in
  the file states is what these actions leave.
\<close>

theorem cycle_executes_merged_actions:
  fixes s :: "'w daemon"
  defines "root \<equiv> \<lambda>folder. path_of (sf_local_path folder)"
  assumes "root_ok (root folder)" and "tree_ok (root folder) (w_disk (dm_world s))"
    and "rows_ok (sv_fuel V) (sv_libs V) (root folder) folder (w_disk (dm_world s)) (w_db (dm_world s)) states"
    and "sf_start_page_token folder = Some p" and "run_sync_loop V folder s = (Inr (Some n), s')"
  shows "\<exists>(account :: account) token w w' merged u la ra as rest t.
    fetch_all_changes (sv_env V) (sv_codecs V) (sv_drive_client V) token p w = (Inr (Some merged), w') \<and>
    w_disk u = w_disk (dm_world s) \<and> w_db u = w_db (dm_world s) \<and>
    compute_local_changes (sv_fuel V) (tokio_local_fs (sv_libs V)) (sv_libs V) (root folder) folder u =
      (Inr (Some la), u) \<and>
    compute_remote_changes (sv_libs V) folder merged u = (Inr ra, u) \<and>
    mset (as @ rest) = mset (merge_actions la ra) \<and> sorted (map priority (as @ rest)) \<and>
    executes (sv_env V) (tokio_local_fs (sv_libs V)) (sv_libs V) (sv_codecs V)
      (with_conflict_notifier (executor_new (sv_drive_client V) (acc_keyring_key account) (sv_config V)))
      (root folder) folder as u t \<and>
    n = of_nat (length as) \<and> (rest \<noteq> [] \<longrightarrow> fst (env_pause (sv_env V) (w_env t))) \<and>
    w_disk (dm_world s') = w_disk t \<and> db_file_states (w_db (dm_world s')) = db_file_states (w_db t) \<and>
    folder_rows s' = (case cs_new_start_page_token merged of None \<Rightarrow> folder_rows s
      | Some start \<Rightarrow> with_start_token (sf_id folder) (Some start) (folder_rows s))"
  using assms(2-6) unfolding root_def by (rule cycle_runs)

text \<open>
  C3: a folder in step is left alone. A cycle that returns while every scanned file has its digest and
  time recorded, every recorded file exists, and every fetched change reports what is recorded, executes nothing: the
  disk and the file states stay as they are, only the page token moves.
\<close>

theorem in_step_cycle_changes_nothing:
  fixes s :: "'w daemon"
  defines "root \<equiv> \<lambda>folder. path_of (sf_local_path folder)"
  assumes "root_ok (root folder)" and "tree_ok (root folder) (w_disk (dm_world s))"
    and "rows_ok (sv_fuel V) (sv_libs V) (root folder) folder (w_disk (dm_world s)) (w_db (dm_world s)) states"
    and "sf_start_page_token folder = Some p" and "run_sync_loop V folder s = (Inr (Some n), s')"
    and "db_wf (w_db (dm_world s))" and "in_step (sv_libs V) (root folder) (w_disk (dm_world s)) states"
    and "\<forall>token w merged w'. fetch_all_changes (sv_env V) (sv_codecs V) (sv_drive_client V) token p w =
      (Inr (Some merged), w') \<longrightarrow> (\<forall>ch \<in> set (cs_changes merged). recorded (sv_libs V) states ch)"
  shows "n = 0 \<and> w_disk (dm_world s') = w_disk (dm_world s) \<and>
    db_file_states (w_db (dm_world s')) = db_file_states (w_db (dm_world s)) \<and>
    (folder_rows s' = folder_rows s \<or>
     (\<exists>start. folder_rows s' = with_start_token (sf_id folder) (Some start) (folder_rows s)))"
proof -
  from cycle_runs [OF assms(2-6) [unfolded root_def]]
  obtain account :: account and token w w' merged u la ra as rest t where
    f: "fetch_all_changes (sv_env V) (sv_codecs V) (sv_drive_client V) token p w = (Inr (Some merged), w')"
    and u: "w_disk u = w_disk (dm_world s)" "w_db u = w_db (dm_world s)"
    and la: "compute_local_changes (sv_fuel V) (tokio_local_fs (sv_libs V)) (sv_libs V) (root folder) folder u =
      (Inr (Some la), u)"
    and ra: "compute_remote_changes (sv_libs V) folder merged u = (Inr ra, u)"
    and as: "mset (as @ rest) = mset (merge_actions la ra)"
    and ex: "executes (sv_env V) (tokio_local_fs (sv_libs V)) (sv_libs V) (sv_codecs V)
      (with_conflict_notifier (executor_new (sv_drive_client V) (acc_keyring_key account) (sv_config V)))
      (root folder) folder as u t"
    and n: "n = of_nat (length as)"
    and fin: "w_disk (dm_world s') = w_disk t" "db_file_states (w_db (dm_world s')) = db_file_states (w_db t)"
      "folder_rows s' = (case cs_new_start_page_token merged of None \<Rightarrow> folder_rows s
        | Some start \<Rightarrow> with_start_token (sf_id folder) (Some start) (folder_rows s))"
    unfolding root_def by blast
  note start = assms(3,4,7,8) [folded u]
  have "la = []"
    using la in_step_local [OF assms(2) start] by simp
  moreover have "fs_list_by_folder (sv_libs V) (sf_id folder) (w_db u) = (Inr states, w_db u)"
    using start(2) unfolding rows_ok_def by blast
  then have "ra = []"
    using ra recorded_remote [OF start(3)] assms(9) f by force
  ultimately have "as = []" using as by (simp add: merge_actions_def collect_map_def)
  moreover from this have "t = u" using ex by (auto elim: executes.cases)
  ultimately show ?thesis using n fin u by (auto split: option.splits)
qed

section \<open>Examples\<close>

text \<open>A folder in step: one file, its state, and a cycle that finds nothing to do.\<close>

definition synced_disk :: disk where
  "synced_disk = \<lparr>d_nodes = [([''r''], Dir 0), ([''r'', ''a.txt''], File ''old'' 5000000000)], d_now = 7000000000\<rparr>"

definition synced_state :: file_state where
  "synced_state = (new_pending ''s1'' ''f1'' ''a.txt'')\<lparr>fs_drive_file_id := Some ''d1'', fs_local_md5 := Some ''old'',
     fs_local_modified := Some 5000000000\<rparr>"

definition synced_daemon :: "token_map daemon" where
  "synced_daemon = demo_daemon\<lparr>dm_world := demo_world\<lparr>w_disk := synced_disk,
     w_db := demo_cycle_db\<lparr>db_file_states := [row_of_file_state demo_libs synced_state]\<rparr>\<rparr>\<rparr>"

lemma synced_root: "p_segs (path_of ''/r'') = [''r'']" "root_ok (path_of ''/r'')"
proof -
  show r: "p_segs (path_of ''/r'') = [''r'']" by code_simp
  have "p_abs (path_of ''/r'')" by code_simp
  then show "root_ok (path_of ''/r'')" by (simp add: root_ok_def r clean_def seg_ok_def)
qed

lemma synced_stored: "fs_times_ok synced_state" "fs_stored synced_state = synced_state"
  by (simp_all add: fs_times_ok_def fs_stored_def synced_state_def new_pending_def demo_clock floor_ms_def)

lemma synced_facts:
  defines "db \<equiv> demo_cycle_db\<lparr>db_file_states := [row_of_file_state demo_libs synced_state]\<rparr>"
  shows "tree_ok (path_of ''/r'') synced_disk" "db_wf db" "in_step demo_libs (path_of ''/r'') synced_disk [synced_state]"
    "rows_ok 8 demo_libs (path_of ''/r'') demo_cycle_folder synced_disk db [synced_state]"
proof -
  have "plain synced_disk"
    by (auto simp: plain_def synced_disk_def lookup_node_def clean_def seg_ok_def split: if_splits)
  moreover have "times_ok synced_disk" by (auto simp: times_ok_def synced_disk_def lookup_node_def split: if_splits)
  moreover have dir: "is_dir_node (lookup_node synced_disk [''r''])" by (simp add: synced_disk_def lookup_node_def)
  ultimately show "tree_ok (path_of ''/r'') synced_disk" by (simp add: tree_ok_def synced_root)
  show "db_wf db"
    by (simp add: db_def db_wf_def fk_ok_def demo_cycle_db_def demo_db_def row_of_file_state_def synced_state_def new_pending_def)
  have r: "rel_below [] [''a.txt''] = ''a.txt''" by code_simp
  have t: "file_time demo_libs synced_disk 5000000000 = 5000000000" by (rule file_time_ok [OF demo_libs_ok demo_clock(3)])
  have f: "ks = [''a.txt''] \<and> c = ''old'' \<and> t = 5000000000" if "lookup_node synced_disk (''r'' # ks) = Some (File c t)" for ks c t
    using that by (auto simp: synced_disk_def lookup_node_def split: if_splits)
  have k: "file_key (path_of ''/r'') ''a.txt'' = [''r'', ''a.txt'']" by code_simp
  show "in_step demo_libs (path_of ''/r'') synced_disk [synced_state]"
    unfolding in_step_def synced_root
    by (auto dest!: f simp: synced_state_def new_pending_def r t demo_libs_def k)
      (simp_all add: synced_disk_def lookup_node_def file_time_def)
  have "rows_ok 8 demo_libs (path_of ''/r'') demo_cycle_folder synced_disk db [fs_stored synced_state]"
    using synced_stored(1) dir
    by (intro demo_rows) (simp_all add: db_def synced_root demo_cycle_folder_def demo_folder_def
        synced_disk_def fs_path_key_def synced_state_def new_pending_def)
  then show "rows_ok 8 demo_libs (path_of ''/r'') demo_cycle_folder synced_disk db [synced_state]"
    by (simp add: synced_stored)
qed

lemma synced_cycle:
  "\<exists>s'. run_sync_loop demo_services demo_cycle_folder synced_daemon = (Inr (Some 0), s')"
proof -
  let ?db = "demo_cycle_db\<lparr>db_file_states := [row_of_file_state demo_libs synced_state]\<rparr>"
  let ?w = "demo_world\<lparr>w_disk := synced_disk, w_db := ?db\<rparr>" and ?root = "path_of ''/r''"
  note facts = synced_facts
  have f: "sf_id demo_cycle_folder = ''f1''" by (simp add: demo_cycle_folder_def demo_folder_def)
  have d: "plain (w_disk ?w)" "times_ok (w_disk ?w)" "is_dir_node (lookup_node (w_disk ?w) (p_segs ?root))"
    using facts(1) by (simp_all add: tree_ok_def)
  have r: "fs_list_by_folder demo_libs (sf_id demo_cycle_folder) (w_db ?w) = (Inr [synced_state], w_db ?w)"
    "\<forall>st \<in> set [synced_state]. rel_ok (fs_relative_path st) \<and> \<not> behind_file (w_disk ?w) (file_key ?root (fs_relative_path st))"
    "card (below_nodes (w_disk ?w) (p_segs ?root)) < 8"
    using facts(4) by (simp_all add: rows_ok_def)
  obtain acts where acts: "compute_local_changes 8 (tokio_local_fs demo_libs) demo_libs ?root demo_cycle_folder ?w = (Inr (Some acts), ?w)"
    and set: "set acts = found demo_libs (w_disk ?w) ?root (collect_map fs_relative_path [synced_state]) [] \<union>
      {delete_remote r st | r st. (r, st) \<in> set (collect_map fs_relative_path [synced_state]) \<and>
         fs_drive_file_id st \<noteq> None \<and> lookup_node (w_disk ?w) (file_key ?root r) = None}"
    using scan_finds [OF d(1,2) synced_root(2) d(3) r] by blast
  have "found demo_libs (w_disk ?w) ?root (collect_map fs_relative_path [synced_state]) [] = {}"
    using in_step_scan [OF facts(2) r(1) [simplified]] facts(3) by simp
  moreover have "file_key ?root ''a.txt'' = [''r'', ''a.txt'']" by code_simp
  ultimately have "set acts = {}"
    by (simp add: set collect_map_def synced_state_def new_pending_def synced_disk_def lookup_node_def)
  then have scan: "compute_local_changes 8 (tokio_local_fs demo_libs) demo_libs ?root demo_cycle_folder ?w = (Inr (Some []), ?w)"
    using acts by simp
  have states: "fs_list_by_folder demo_libs ''f1'' ?db = (Inr [synced_state], ?db)" using r(1) f by simp
  have "\<forall>r \<in> set [row_of_file_state demo_libs synced_state]. fr_sync_folder_id r = ''f1''"
    by (simp add: row_of_file_state_def synced_state_def new_pending_def)
  moreover have "demo_services\<lparr>sv_env := token_env\<rparr> = demo_services" by (simp add: demo_services_def)
  ultimately show ?thesis using demo_cycle_of [OF _ scan states, of token_env] by (simp add: synced_daemon_def)
qed

lemma synced_conditions:
  "root_ok (path_of (sf_local_path demo_cycle_folder))"
  "tree_ok (path_of (sf_local_path demo_cycle_folder)) (w_disk (dm_world synced_daemon))"
  "rows_ok (sv_fuel demo_services) (sv_libs demo_services) (path_of (sf_local_path demo_cycle_folder)) demo_cycle_folder
     (w_disk (dm_world synced_daemon)) (w_db (dm_world synced_daemon)) [synced_state]"
  "sf_start_page_token demo_cycle_folder = Some ''1''" "db_wf (w_db (dm_world synced_daemon))"
  "in_step (sv_libs demo_services) (path_of (sf_local_path demo_cycle_folder)) (w_disk (dm_world synced_daemon)) [synced_state]"
  using synced_facts synced_root
  by (simp_all add: synced_daemon_def demo_services_def demo_cycle_folder_def demo_folder_def)

lemma cycle_executes_merged_actions_witness:
  "\<exists>s' (u :: (token_map, disk) world) la. run_sync_loop demo_services demo_cycle_folder synced_daemon = (Inr (Some 0), s') \<and>
     compute_local_changes 8 (tokio_local_fs demo_libs) demo_libs (path_of ''/r'') demo_cycle_folder u = (Inr (Some la), u) \<and>
     w_disk u = synced_disk \<and> map sr_start_page_token (folder_rows s') = [Some ''2'']"
proof -
  obtain s' where run: "run_sync_loop demo_services demo_cycle_folder synced_daemon = (Inr (Some 0), s')"
    using synced_cycle by blast
  have V: "sv_env demo_services = token_env" "sv_codecs demo_services = demo_codecs" "sv_libs demo_services = demo_libs"
    "sv_drive_client demo_services = demo_client" "sv_fuel demo_services = 8" by (simp_all add: demo_services_def)
  have F: "sf_local_path demo_cycle_folder = ''/r''" "sf_id demo_cycle_folder = ''f1''"
    by (simp_all add: demo_cycle_folder_def demo_folder_def)
  from cycle_executes_merged_actions [OF synced_conditions(1-4) run]
  obtain token w w' merged and u :: "(token_map, disk) world" and la where
    f: "fetch_all_changes token_env demo_codecs demo_client token ''1'' w = (Inr (Some merged), w')"
    and u: "w_disk u = w_disk (dm_world synced_daemon)"
    and la: "compute_local_changes 8 (tokio_local_fs demo_libs) demo_libs (path_of ''/r'') demo_cycle_folder u = (Inr (Some la), u)"
    and rows: "folder_rows s' = (case cs_new_start_page_token merged of None \<Rightarrow> folder_rows synced_daemon
      | Some start \<Rightarrow> with_start_token ''f1'' (Some start) (folder_rows synced_daemon))"
    unfolding V F by (elim exE conjE) (rule that, assumption+)
  have "cs_new_start_page_token merged = Some ''2''" using f by (auto simp: demo_changes)
  then have "map sr_start_page_token (folder_rows s') = [Some ''2'']"
    by (simp add: rows with_start_token_def synced_daemon_def demo_cycle_db_def demo_db_def)
  then show ?thesis using run u la by (auto simp: synced_daemon_def)
qed

lemma in_step_cycle_changes_nothing_witness:
  "\<exists>s'. run_sync_loop demo_services demo_cycle_folder synced_daemon = (Inr (Some 0), s') \<and>
     w_disk (dm_world s') = synced_disk \<and>
     db_file_states (w_db (dm_world s')) = [row_of_file_state demo_libs synced_state]"
proof -
  obtain s' where run: "run_sync_loop demo_services demo_cycle_folder synced_daemon = (Inr (Some 0), s')"
    using synced_cycle by blast
  have "\<forall>token w merged w'. fetch_all_changes (sv_env demo_services) (sv_codecs demo_services)
      (sv_drive_client demo_services) token ''1'' w = (Inr (Some merged), w') \<longrightarrow>
      (\<forall>ch \<in> set (cs_changes merged). recorded (sv_libs demo_services) [synced_state] ch)"
    by (auto simp: demo_services_def demo_changes)
  from in_step_cycle_changes_nothing [OF synced_conditions(1-4) run synced_conditions(5,6) this]
  show ?thesis using run by (auto simp: synced_daemon_def)
qed

end
