(* ===== verification/Gds_Watcher.thy ===== *)
theory Gds_Watcher
  imports Gds_Scan
begin

text \<open>
  The file watcher of the daemon (\<open>crates/gds-daemon/src/watcher/\<close>): which paths are ignored, and
  the callback that turns debounced events into messages. The crates \<open>notify\<close> and
  \<open>notify_debouncer_mini\<close> are parameters: they create a watch or fail, and call the callback.
  Names are texts, so the branch that ignores a name that is not UTF-8 does not occur.
\<close>

section \<open>Ignored paths\<close>

definition should_ignore :: "path \<Rightarrow> path \<Rightarrow> bool" where
  "should_ignore sync_root p =
     (case strip_prefix p sync_root of
        None \<Rightarrow> True
      | Some relative \<Rightarrow>
          let path_str_rel = path_show relative;
              name = (case file_name relative of Some n \<Rightarrow> n | None \<Rightarrow> [])
          in contains_str path_str_rel ''/.gds_tmp/'' \<or> starts_with path_str_rel ''.gds_tmp/'' \<or>
               path_str_rel = ''.gds_tmp'' \<or>
             contains_str path_str_rel ''/.git/'' \<or> starts_with path_str_rel ''.git/'' \<or>
               path_str_rel = ''.git'' \<or>
             list_ex (\<lambda>w. w = ''.gds_tmp'' \<or> w = ''.git'') (p_segs relative) \<or>
             ends_with name ''.swp'' \<or> ends_with name ''~'' \<or>
             starts_with name ''.#'' \<or>
             contains_str path_str_rel ''.conflict-'')"

section \<open>Events\<close>

datatype watch_event = Changed path | WatchError

record file_watcher =
  fw_sync_root :: path
  fw_debounce_ms :: nat

text \<open>An \<open>mpsc\<close> channel: its messages, oldest first, and whether the receiver still exists.\<close>

record 'm channel =
  ch_open :: bool
  ch_messages :: "'m list"

definition chan_send :: "'m \<Rightarrow> 'm channel \<Rightarrow> bool \<times> 'm channel" where
  "chan_send m c = (if ch_open c then (True, c\<lparr>ch_messages := ch_messages c @ [m]\<rparr>) else (False, c))"

definition watcher_new :: "path \<Rightarrow> nat \<Rightarrow> file_watcher" where
  "watcher_new sync_root debounce_ms = \<lparr>fw_sync_root = sync_root, fw_debounce_ms = debounce_ms\<rparr>"

fun forward_events :: "path \<Rightarrow> path list \<Rightarrow> watch_event channel \<Rightarrow> watch_event channel" where
  "forward_events sync_root [] c = c"
| "forward_events sync_root (p # ps) c =
     (if \<not> should_ignore sync_root p then
        (case chan_send (Changed p) c of
           (False, c') \<Rightarrow> c'
         | (True, c') \<Rightarrow> forward_events sync_root ps c')
      else forward_events sync_root ps c)"

text \<open>The callback: a batch of debounced events, or an error of the watch.\<close>

definition on_debounce :: "path \<Rightarrow> string + path list \<Rightarrow> watch_event channel \<Rightarrow> watch_event channel" where
  "on_debounce sync_root res c =
     (case res of
        Inr events \<Rightarrow> forward_events sync_root events c
      | Inl e \<Rightarrow> snd (chan_send WatchError c))"

text \<open>
  \<open>wo_new_debouncer\<close> and \<open>wo_watch\<close>: creating the debouncer and the recursive watch. \<open>start\<close>
  answers with the channel, empty at first, and the callback that the debouncer runs from then on.
\<close>

record 'w watch_ops =
  wo_new_debouncer :: "nat \<Rightarrow> ('w, string, unit) proc"
  wo_watch :: "path \<Rightarrow> ('w, string, unit) proc"

definition watcher_start ::
    "'w watch_ops \<Rightarrow> file_watcher \<Rightarrow>
     ('w, string, watch_event channel \<times> (string + path list \<Rightarrow> watch_event channel \<Rightarrow> watch_event channel)) proc" where
  "watcher_start W fw =
     seqp (wo_new_debouncer W (fw_debounce_ms fw)) (\<lambda>_.
     seqp (wo_watch W (fw_sync_root fw)) (\<lambda>_.
     retp (\<lparr>ch_open = True, ch_messages = []\<rparr>, on_debounce (fw_sync_root fw))))"

section \<open>Which paths are ignored, by their components\<close>

lemma starts_with_slash_free:
  "CHR ''/'' \<notin> set pat \<Longrightarrow> starts_with (x @ CHR ''/'' # y) pat \<longleftrightarrow> starts_with x pat"
proof (induction pat arbitrary: x)
  case (Cons c pat)
  then show ?case by (cases x) (auto simp: starts_with_def)
qed (simp add: starts_with_def)

lemma contains_slash_free:
  assumes "CHR ''/'' \<notin> set pat" and "pat \<noteq> []"
  shows "contains_str (x @ CHR ''/'' # y) pat \<longleftrightarrow> contains_str x pat \<or> contains_str y pat"
proof (induction x)
  case Nil
  have "\<not> starts_with (CHR ''/'' # y) pat"
    using assms by (cases pat) (auto simp: starts_with_def)
  with assms(2) show ?case by simp
next
  case (Cons c x)
  then show ?case
    using starts_with_slash_free [OF assms(1), of "c # x" y] by auto
qed

lemma contains_join:
  assumes "CHR ''/'' \<notin> set pat" and "pat \<noteq> []"
  shows "contains_str (join_with ''/'' ws) pat \<longleftrightarrow> (\<exists>w \<in> set ws. contains_str w pat)"
proof (induction ws rule: induct_list012)
  case 1
  with assms show ?case by simp
next
  case (3 w v ws)
  then show ?case using contains_slash_free [OF assms, of w] by simp
qed simp

text \<open>The tests on the text for a directory name add nothing to the test of the components.\<close>

lemma split_at_slashes:
  "path_segs_of (a @ CHR ''/'' # b) = path_segs_of a @ path_segs_of b"
  by (simp only: path_segs_of_def split_on_append_sep filter_append)

lemma dir_tests_redundant:
  assumes "path_segs_of r = ws" and "seg_ok n" and "n \<notin> set ws"
  shows "\<not> contains_str r (''/'' @ n @ ''/'')" "\<not> starts_with r (n @ ''/'')" "r \<noteq> n"
proof -
  have n: "path_segs_of n = [n]" using assms(2) by (simp add: seg_ok_def path_segs_of_name)
  show "\<not> contains_str r (''/'' @ n @ ''/'')"
  proof
    assume "contains_str r (''/'' @ n @ ''/'')"
    then obtain a b where "r = a @ CHR ''/'' # n @ CHR ''/'' # b" using contains_split by fastforce
    then show False using assms(1,3) n by (auto simp: split_at_slashes)
  qed
  show "\<not> starts_with r (n @ ''/'')"
  proof
    assume "starts_with r (n @ ''/'')"
    then obtain b where "r = n @ CHR ''/'' # b" using starts_with_split by fastforce
    then show False using assms(1,3) n by (auto simp: split_at_slashes)
  qed
  show "r \<noteq> n" using assms(1,3) n by auto
qed

definition noise_name :: "string \<Rightarrow> bool" where
  "noise_name n \<longleftrightarrow> ends_with n ''.swp'' \<or> ends_with n ''~'' \<or> starts_with n ''.#''"

lemma should_ignore_inside:
  assumes "strip_prefix p root = Some rel" and "\<forall>w \<in> set (p_segs p). seg_ok w"
  shows "should_ignore root p \<longleftrightarrow>
    (\<exists>w \<in> set (p_segs rel). w = ''.gds_tmp'' \<or> w = ''.git'' \<or> contains_str w ''.conflict-'') \<or>
    (\<exists>n. file_name rel = Some n \<and> noise_name n)"
proof -
  let ?r = "join_with ''/'' (p_segs rel)"
  have sub: "set (p_segs rel) \<subseteq> set (p_segs p)" and ab: "\<not> p_abs rel"
    using assms(1) set_drop_subset by (fastforce simp: strip_prefix_def split: if_splits)+
  then have segs: "path_segs_of ?r = p_segs rel"
    using assms(2) by (intro path_segs_of_join) blast
  have shown: "path_show rel = ?r" using ab by (simp add: path_show_def)
  have "seg_ok ''.gds_tmp''" "seg_ok ''.git''" by (simp_all add: seg_ok_def)
  then have tests: "''.gds_tmp'' \<notin> set (p_segs rel) \<Longrightarrow>
      \<not> contains_str ?r ''/.gds_tmp/'' \<and> \<not> starts_with ?r ''.gds_tmp/'' \<and> ?r \<noteq> ''.gds_tmp''"
    "''.git'' \<notin> set (p_segs rel) \<Longrightarrow>
      \<not> contains_str ?r ''/.git/'' \<and> \<not> starts_with ?r ''.git/'' \<and> ?r \<noteq> ''.git''"
    using dir_tests_redundant [OF segs, of "''.gds_tmp''"] dir_tests_redundant [OF segs, of "''.git''"]
    by auto
  have conf: "contains_str ?r ''.conflict-'' \<longleftrightarrow> (\<exists>w \<in> set (p_segs rel). contains_str w ''.conflict-'')"
    by (rule contains_join) auto
  have name: "ends_with n ''.swp'' \<or> ends_with n ''~'' \<or> starts_with n ''.#'' \<longleftrightarrow> noise_name n" for n
    by (simp add: noise_name_def)
  have none: "\<not> noise_name []" by code_simp
  show ?thesis
    using tests conf none
    by (cases "file_name rel")
      (auto simp: should_ignore_def assms(1) shown list_ex_iff Let_def noise_name_def)
qed

lemma strip_outside: "strip_prefix p root = None \<longleftrightarrow> \<not> path_starts_with p root"
  by (simp add: strip_prefix_def)

text \<open>
  C33: a path, parsed by \<open>std::path\<close>, wakes the synchronisation exactly when it lies under the root,
  none of its components below the root is \<open>.git\<close> or \<open>.gds_tmp\<close> or contains \<open>.conflict-\<close>, and its
  name is not an editor's temporary one (it ends with \<open>.swp\<close> or \<open>~\<close>, or begins with \<open>.#\<close>; a name that begins
  with \<open>~\<close> is not ignored). The six tests that the code makes on the text of the path add nothing to the
  test of the components.
\<close>

theorem should_ignore_by_components:
  assumes "\<forall>w \<in> set (p_segs p). seg_ok w"
  shows "\<not> should_ignore root p \<longleftrightarrow>
    (\<exists>rel. strip_prefix p root = Some rel \<and>
      (\<forall>w \<in> set (p_segs rel). w \<noteq> ''.gds_tmp'' \<and> w \<noteq> ''.git'' \<and> \<not> contains_str w ''.conflict-'') \<and>
      (\<forall>n. file_name rel = Some n \<longrightarrow> \<not> noise_name n))"
proof (cases "strip_prefix p root")
  case None
  then show ?thesis by (simp add: should_ignore_def)
next
  case (Some rel)
  then show ?thesis using should_ignore_inside [OF Some assms] by auto
qed

lemma should_ignore_by_components_witness:
  "\<not> should_ignore (path_of ''/r'') (path_of ''/r/d/a.gds_tmp'')"
proof -
  have "\<forall>w \<in> set (p_segs (path_of ''/r/d/a.gds_tmp'')). seg_ok w" by code_simp
  moreover have "strip_prefix (path_of ''/r/d/a.gds_tmp'') (path_of ''/r'') =
      Some \<lparr>p_abs = False, p_segs = [''d'', ''a.gds_tmp'']\<rparr>" by code_simp
  moreover have "\<not> contains_str ''a.gds_tmp'' ''.conflict-''" "\<not> contains_str ''d'' ''.conflict-''"
    "\<not> noise_name ''a.gds_tmp''" "file_name \<lparr>p_abs = False, p_segs = [''d'', ''a.gds_tmp'']\<rparr> = Some ''a.gds_tmp''"
    by code_simp+
  ultimately show ?thesis by (subst should_ignore_by_components) auto
qed

section \<open>The daemon's own conflict copies\<close>

lemma conflict_loop_named:
  assumes "conflict_loop ex parent stem ext suffix n = Some p"
  shows "\<exists>m. p = path_join parent (conflict_name stem ext suffix (''-'' @ nat_to_str (unat (m :: 32 word))))"
  using assms
proof (induction rule: conflict_loop.raw_induct [rotated, consumes 1, case_names step])
  case (step loop ex parent stem ext suffix n p)
  then show ?case by (auto simp: Let_def split: if_splits)
qed

lemma conflict_copy_named:
  assumes "stamp_ok L" and "segs_clean base" and "conflict_copy_path L base t ex = Some p"
  obtains a b where "p = \<lparr>p_abs = p_abs (conflict_dir base),
      p_segs = p_segs (conflict_dir base) @ [a @ ''.conflict-'' @ b]\<rparr>"
    and "CHR ''/'' \<notin> set a" and "CHR ''/'' \<notin> set b"
proof -
  define stem where "stem = (case file_stem base of Some s \<Rightarrow> s | None \<Rightarrow> ''file'')"
  define ext where "ext = (case extension base of Some e \<Rightarrow> ''.'' @ e | None \<Rightarrow> [])"
  have clean: "CHR ''/'' \<notin> set stem" "CHR ''/'' \<notin> set ext" "CHR ''/'' \<notin> set (lib_conflict_stamp L t)"
    unfolding stem_def ext_def
    by (rule stem_clean [OF assms(2)], rule ext_clean [OF assms(2)], rule stamp_clean [OF assms(1)])
  have "\<exists>mid. p = path_join (conflict_dir base) (conflict_name stem ext (lib_conflict_stamp L t) mid) \<and>
      CHR ''/'' \<notin> set mid"
    using assms(3) nat_to_str_no_slash
    by (fastforce simp: conflict_copy_path_def Let_def stem_def ext_def conflict_dir_def
        split: if_splits dest: conflict_loop_named)
  then obtain mid where p: "p = path_join (conflict_dir base) (conflict_name stem ext (lib_conflict_stamp L t) mid)"
    and mid: "CHR ''/'' \<notin> set mid" by blast
  have "p = \<lparr>p_abs = p_abs (conflict_dir base), p_segs = p_segs (conflict_dir base) @
      [(stem @ ext) @ ''.conflict-'' @ (lib_conflict_stamp L t @ mid @ ext)]\<rparr>"
    using conflict_name_plain [OF clean mid] by (simp add: p path_join_name conflict_name_def)
  moreover have "CHR ''/'' \<notin> set (stem @ ext)" "CHR ''/'' \<notin> set (lib_conflict_stamp L t @ mid @ ext)"
    using clean mid by auto
  ultimately show ?thesis by (rule that)
qed

lemma contains_middle: "contains_str (a @ pat @ b) pat"
proof (induction a)
  case Nil
  have "starts_with (pat @ b) pat" by (simp add: starts_with_def)
  then show ?case by (cases "pat @ b") (simp_all add: starts_with_def)
next
  case (Cons c a)
  then show ?case by simp
qed

text \<open>
  C34: a conflict copy of a file under the root never wakes the synchronisation, whatever the name
  of the file, the time, and the copies that exist already.
\<close>

theorem conflict_copies_ignored:
  assumes "stamp_ok L" and "\<forall>w \<in> set (p_segs base). seg_ok w"
    and "strip_prefix base root = Some inner" and "p_segs inner \<noteq> []"
    and "conflict_copy_path L base t ex = Some p"
  shows "should_ignore root p"
proof -
  have "segs_clean base" using assms(2) by (simp add: segs_clean_def seg_ok_def)
  from conflict_copy_named [OF assms(1) this assms(5)] obtain a b where p: "p = \<lparr>p_abs = p_abs (conflict_dir base),
      p_segs = p_segs (conflict_dir base) @ [a @ ''.conflict-'' @ b]\<rparr>"
    and clean: "CHR ''/'' \<notin> set a" "CHR ''/'' \<notin> set b" by metis
  have dir: "conflict_dir base = \<lparr>p_abs = p_abs base, p_segs = butlast (p_segs base)\<rparr>"
    using assms(3,4) by (auto simp: conflict_dir_def path_parent_def strip_prefix_def split: if_splits)
  let ?n = "a @ ''.conflict-'' @ b"
  have "seg_ok ?n" using clean by (auto simp: seg_ok_def Cons_eq_append_conv)
  then have ok: "\<forall>w \<in> set (p_segs p). seg_ok w"
    using assms(2) by (auto simp: p dir dest: in_set_butlastD)
  show ?thesis
  proof (cases "strip_prefix p root")
    case None
    then show ?thesis by (simp add: should_ignore_def)
  next
    case (Some rel)
    have "length (p_segs root) < length (p_segs base)"
      using assms(3,4) by (auto simp: strip_prefix_def split: if_splits)
    moreover have "p_segs rel = drop (length (p_segs root)) (p_segs p)"
      using Some by (auto simp only: strip_prefix_def option.inject path.simps split: if_splits)
    moreover have "p_segs p = butlast (p_segs base) @ [?n]" by (simp only: p dir path.simps)
    ultimately have "p_segs rel = drop (length (p_segs root)) (butlast (p_segs base)) @ [?n]" by simp
    then have n: "?n \<in> set (p_segs rel)" by (simp only: set_append list.set Un_iff insert_iff simp_thms)
    have c: "contains_str ?n ''.conflict-''" by (rule contains_middle)
    show ?thesis
      unfolding should_ignore_inside [OF Some ok] by (intro disjI1 bexI [OF _ n] disjI2 c)
  qed
qed

lemma conflict_copies_ignored_witness:
  "\<exists>p. conflict_copy_path demo_libs demo_base 0 (\<lambda>p. p = demo_base) = Some p \<and> should_ignore (path_of ''/r'') p"
proof -
  have stamp: "stamp_ok demo_libs" using demo_libs_ok by (simp add: libs_ok_def)
  have segs: "\<forall>w \<in> set (p_segs demo_base). seg_ok w" by code_simp
  have inside: "strip_prefix demo_base (path_of ''/r'') = Some \<lparr>p_abs = False, p_segs = [''doc.txt'']\<rparr>" by code_simp
  have "segs_clean demo_base" by code_simp
  moreover have "names_in (\<lambda>p. p = demo_base) (conflict_dir demo_base) = {''doc.txt''}"
    by (auto simp: names_in_def demo_base_def conflict_dir_def path_parent_def)
  ultimately obtain p where "conflict_copy_path demo_libs demo_base 0 (\<lambda>p. p = demo_base) = Some p"
    using conflict_copy_path_some [OF stamp, of demo_base "\<lambda>p. p = demo_base" 0] by auto
  with conflict_copies_ignored [OF stamp segs inside _ this] show ?thesis by auto
qed

section \<open>The messages of a batch\<close>

text \<open>While the receiver exists, every event outside the ignored paths becomes one message, in order.\<close>

lemma forward_events_open:
  "ch_open c \<Longrightarrow> forward_events root ps c =
     c\<lparr>ch_messages := ch_messages c @ map Changed (filter (\<lambda>p. \<not> should_ignore root p) ps)\<rparr>"
  by (induction ps arbitrary: c) (auto simp: chan_send_def)

lemma forward_events_closed: "\<not> ch_open c \<Longrightarrow> forward_events root ps c = c"
  by (induction ps) (auto simp: chan_send_def)

end
