(* ===== verification/Gds_Main.thy ===== *)
theory Gds_Main
  imports Gds_Service Gds_Watcher
begin

text \<open>
  The daemon process (\<open>crates/gds-daemon/src/main.rs\<close>): its directories and configuration, the
  state it builds for the bus methods and the scheduler, the watchers it starts, and the threads
  that turn watch events into sync requests. The command line, the process and signal handling
  and the bus connection are parameters.
\<close>

section \<open>Parameters\<close>

record daemon_args =
  da_config_dir :: "path option"
  da_data_dir :: "path option"
  da_foreground :: bool

text \<open>
  What the process asks of its surroundings: environment variables, the user's directories, the
  files of the daemon itself (they are not those of a synced folder), the TOML parser, SQLite's
  pool and migrations, the HTTP client's builder, and the four steps of joining the session bus.
\<close>

record 'w host =
  ho_env_var :: "string \<Rightarrow> string option"
  ho_config_dir :: "path option"
  ho_data_local_dir :: "path option"
  ho_create_dir_all :: "path \<Rightarrow> ('w, string, unit) proc"
  ho_read :: "path \<Rightarrow> ('w, string, string) proc"
  ho_toml :: "string \<Rightarrow> string + config"
  ho_create_pool :: "path \<Rightarrow> ('w, string, unit) proc"
  ho_migrate :: "('w, string, unit) proc"
  ho_client_build :: "string + unit"
  ho_bus_session :: "('w, string, unit) proc"
  ho_bus_name :: "('w, string, unit) proc"
  ho_bus_serve :: "('w, string, unit) proc"
  ho_bus_build :: "('w, string, unit) proc"
  ho_watch :: "'w watch_ops"
  ho_pid :: "32 word"
  ho_write :: "path \<Rightarrow> string \<Rightarrow> ('w, string, unit) proc"
  ho_exists :: "path \<Rightarrow> 'w \<Rightarrow> bool"
  ho_remove :: "path \<Rightarrow> ('w, string, unit) proc"

section \<open>Directories, configuration, credentials\<close>

definition config_dir :: "'w host \<Rightarrow> path" where
  "config_dir H =
     (case map_option path_of (ho_env_var H ''GDS_CONFIG_DIR'') of
        Some p \<Rightarrow> p
      | None \<Rightarrow>
          (case map_option (\<lambda>d. path_join d ''gds'') (ho_config_dir H) of
             Some p \<Rightarrow> p
           | None \<Rightarrow> path_join (path_join (path_of ''.'') ''.config'') ''gds''))"

definition data_dir :: "'w host \<Rightarrow> path" where
  "data_dir H =
     (case map_option path_of (ho_env_var H ''GDS_DATA_DIR'') of
        Some p \<Rightarrow> p
      | None \<Rightarrow>
          (case map_option (\<lambda>d. path_join d ''gds'') (ho_data_local_dir H) of
             Some p \<Rightarrow> p
           | None \<Rightarrow> path_join (path_join (path_join (path_of ''.'') ''.local'') ''share'') ''gds''))"

definition load_config :: "'w host \<Rightarrow> path \<Rightarrow> ('w, string, config) proc" where
  "load_config H dir =
     (let p = path_join dir ''config.toml'' in
      seqp (map_errp (\<lambda>_. ''read config '' @ path_show p) (ho_read H p)) (\<lambda>s.
      liftp (map_sum (\<lambda>_. ''parse config '' @ path_show p) id (ho_toml H s))))"

definition resolve_oauth_credentials :: "(('w, disk) world, string, string \<times> string option) proc" where
  "resolve_oauth_credentials =
     seqp (tryp (on_db oauth_get)) (\<lambda>r. retp
       (case r of
          Inr (Some (i, secret)) \<Rightarrow> (i, Some secret)
        | _ \<Rightarrow> ([], None)))"

definition list_all_folders_inner :: "libs \<Rightarrow> datetime \<Rightarrow> sync_folder list db_proc" where
  "list_all_folders_inner L now = seqp (account_list_all L now) (\<lambda>accounts. folders_of L accounts)"

section \<open>Watchers\<close>

text \<open>
  A watcher for every folder that is not paused and whose directory exists; one that cannot be
  started is passed over. The result: the watched folders with their roots.
\<close>

fun start_watchers ::
    "'w watch_ops \<Rightarrow> disk local_fs \<Rightarrow> sync_folder list \<Rightarrow>
     (('w, disk) world, string, (string \<times> path) list) proc" where
  "start_watchers W FS [] = retp []"
| "start_watchers W FS (f # fs) =
     (if sf_paused f then start_watchers W FS fs
      else
        let p = path_of (sf_local_path f) in
        seqp (getp (\<lambda>s. lf_std_exists FS (w_disk s) p)) (\<lambda>there.
        if there then
          seqp (tryp (on_env (watcher_start W (watcher_new p 500)))) (\<lambda>r.
          case r of
            Inl (e :: string) \<Rightarrow> start_watchers W FS fs
          | Inr _ \<Rightarrow> seqp (start_watchers W FS fs) (\<lambda>ws. retp ((sf_id f, p) # ws)))
        else start_watchers W FS fs))"

text \<open>The thread of a watched folder: a sync request for each change; a failed send is ignored.\<close>

fun watch_thread :: "'w daemon_state \<Rightarrow> string \<Rightarrow> watch_event list \<Rightarrow> ('w, unit) bus_method" where
  "watch_thread D folder_id [] = retp ()"
| "watch_thread D folder_id (ev # evs) =
     (case ev of
        Changed p \<Rightarrow> seqp (ignorep (send_request D folder_id)) (\<lambda>_. watch_thread D folder_id evs)
      | WatchError \<Rightarrow> watch_thread D folder_id evs)"

section \<open>Start and end of the process\<close>

record 'w started =
  st_state :: "'w daemon_state"
  st_scheduler :: "'w scheduler"
  st_watched :: "(string \<times> path) list"

text \<open>\<open>with\_context\<close>: the error is replaced by what failed.\<close>

definition context_of :: "string \<Rightarrow> ('s, 'e, 'a) proc \<Rightarrow> ('s, string, 'a) proc" where
  "context_of what m = map_errp (\<lambda>_. what) m"

text \<open>
  The bus methods' state, and the scheduler before its first step: no folder queued, no sync
  running, a bucket of two, an empty channel, an empty token cache, the pause flag down. \<open>base\<close>
  has what the parameters provide; the configuration and the client are those of this start.
\<close>

definition fresh_state ::
    "'w services \<Rightarrow> 'w oauth_ops \<Rightarrow> config \<Rightarrow> drive_client \<Rightarrow> string \<Rightarrow> string option \<Rightarrow> 'w daemon_state" where
  "fresh_state base OA config client client_id client_secret =
     \<lparr>ds_services = base\<lparr>sv_config := config, sv_drive_client := client\<rparr>, ds_oauth = OA,
      ds_resolved_client_id = client_id, ds_resolved_client_secret = client_secret,
      ds_receiver = (\<lambda>_. True)\<rparr>"

definition fresh_scheduler :: "config \<Rightarrow> 64 word \<Rightarrow> ('w, disk) world \<Rightarrow> 'w scheduler" where
  "fresh_scheduler config now w =
     \<lparr>sch_pending = [],
      sch_poll_tick = uint now + int (sc_poll_interval_secs (cfg_sync config)) * 1000000000, sch_draining = False, sch_stopped = False,
      sch_daemon = \<lparr>dm_world = w\<lparr>w_cache := [], w_notices := []\<rparr>, dm_signals = [], dm_syncing = 0,
        dm_bucket = bucket_new 2 now, dm_requests = []\<rparr>\<rparr>"

definition daemon_start ::
    "'w host \<Rightarrow> 'w services \<Rightarrow> 'w oauth_ops \<Rightarrow> daemon_args \<Rightarrow> (('w, disk) world, string, 'w started) proc" where
  "daemon_start H base OA args =
     (let cdir = (case da_config_dir args of Some d \<Rightarrow> d | None \<Rightarrow> config_dir H);
          ddir = (case da_data_dir args of Some d \<Rightarrow> d | None \<Rightarrow> data_dir H);
          L = sv_libs base in
      seqp (on_env (context_of (''create config dir '' @ path_show cdir) (ho_create_dir_all H cdir))) (\<lambda>_.
      seqp (tryp (on_env (load_config H cdir))) (\<lambda>loaded.
      let config = (case loaded of Inr c \<Rightarrow> c | Inl (e :: string) \<Rightarrow> config_default) in
      seqp (on_env (context_of (''create data dir '' @ path_show ddir) (ho_create_dir_all H ddir))) (\<lambda>_.
      seqp (on_env (context_of ''create db pool'' (ho_create_pool H (path_join ddir ''state.db'')))) (\<lambda>_.
      seqp (on_env (context_of ''run migrations'' (ho_migrate H))) (\<lambda>_.
      seqp resolve_oauth_credentials (\<lambda>(client_id, client_secret).
      seqp (liftp (map_sum (sync_error_display (sv_db_text base)) id
              (build_client OA client_id client_secret (oc_redirect_port (cfg_oauth config))))) (\<lambda>_.
      seqp (liftp (map_sum (sync_error_display (sv_db_text base)) id
              (client_new (ho_client_build H) config))) (\<lambda>client.
      seqp (modp (\<lambda>s. s\<lparr>w_env := sv_store_pause base False (w_env s)\<rparr>)) (\<lambda>_.
      seqp (on_env (context_of ''session bus'' (ho_bus_session H))) (\<lambda>_.
      seqp (on_env (context_of ''request bus name (is another daemon running?)'' (ho_bus_name H))) (\<lambda>_.
      seqp (on_env (context_of ''serve D-Bus object'' (ho_bus_serve H))) (\<lambda>_.
      seqp (on_env (context_of ''build connection'' (ho_bus_build H))) (\<lambda>_.
      seqp (on_env (okp (sv_clock base))) (\<lambda>now.
      seqp (getp (fallback_now (sv_env base))) (\<lambda>t.
      seqp (tryp (on_db (list_all_folders_inner L t))) (\<lambda>listed.
      seqp (start_watchers (ho_watch H) (tokio_local_fs L)
              (case listed of Inr fs \<Rightarrow> fs | Inl (e :: sync_error) \<Rightarrow> [])) (\<lambda>watched.
      seqp (if da_foreground args then retp ()
            else ignorep (on_env (ho_write H (path_join ddir ''daemon.pid'') (nat_to_str (unat (ho_pid H)))))) (\<lambda>_.
      seqp (getp id) (\<lambda>w.
      retp \<lparr>st_state = fresh_state base OA config client client_id client_secret,
            st_scheduler = fresh_scheduler config now w, st_watched = watched\<rparr>))))))))))))))))))))"

text \<open>After a signal or the end of the scheduler: the PID file is removed.\<close>

definition daemon_stop :: "'w host \<Rightarrow> daemon_args \<Rightarrow> ('w, string, unit) proc" where
  "daemon_stop H args =
     (let pid_path = path_join (case da_data_dir args of Some d \<Rightarrow> d | None \<Rightarrow> data_dir H) ''daemon.pid'' in
      seqp (getp (ho_exists H pid_path)) (\<lambda>there.
      if \<not> da_foreground args \<and> there then ignorep (ho_remove H pid_path) else retp ()))"

section \<open>What a start gives\<close>

text \<open>A condition on the result of a program, wherever it starts.\<close>

definition yields :: "('a \<Rightarrow> bool) \<Rightarrow> ('s, 'e, 'a) proc \<Rightarrow> bool" where
  "yields Q m \<longleftrightarrow> (\<forall>s x t. m s = (Inr x, t) \<longrightarrow> Q x)"

lemma yieldsD: "yields Q m \<Longrightarrow> m s = (Inr x, t) \<Longrightarrow> Q x"
  by (auto simp: yields_def)

lemma yields_retp: "Q x \<Longrightarrow> yields Q (retp x)"
  by (simp add: yields_def retp_def)

lemma yields_last: "(\<And>x. yields Q (f x)) \<Longrightarrow> yields Q (seqp m f)"
  by (auto simp: yields_def elim!: seqp_InrE)

lemma yields_known: "yields P m \<Longrightarrow> (\<And>x. P x \<Longrightarrow> yields Q (f x)) \<Longrightarrow> yields Q (seqp m f)"
  unfolding yields_def by (metis seqp_InrE)

lemma yields_mono: "yields P m \<Longrightarrow> (\<And>x. P x \<Longrightarrow> Q x) \<Longrightarrow> yields Q m"
  by (auto simp: yields_def)

lemma yields_pair: "(\<And>x y. yields Q (f x y)) \<Longrightarrow> yields Q (case z of (x, y) \<Rightarrow> f x y)"
  by (cases z) simp

definition watchable :: "sync_folder list \<Rightarrow> (string \<times> path) set" where
  "watchable fs = {(sf_id f, path_of (sf_local_path f)) | f. f \<in> set fs \<and> \<not> sf_paused f}"

lemma start_watchers_watchable: "yields (\<lambda>ws. set ws \<subseteq> watchable fs) (start_watchers W FS fs)"
proof (induction fs)
  case Nil
  then show ?case by (simp add: yields_retp)
next
  case (Cons f fs)
  have rest: "yields (\<lambda>ws. set ws \<subseteq> watchable (f # fs)) (start_watchers W FS fs)"
    by (rule yields_mono [OF Cons.IH]) (auto simp: watchable_def)
  have more: "yields (\<lambda>ws. set ws \<subseteq> watchable (f # fs))
      (seqp (start_watchers W FS fs) (\<lambda>ws. retp ((sf_id f, path_of (sf_local_path f)) # ws)))"
    if "\<not> sf_paused f"
    using that by (intro yields_known [OF rest] yields_retp) (auto simp: watchable_def)
  show ?case
    using rest more by (auto simp: Let_def intro!: yields_last split: sum.splits)
qed

lemma daemon_start_fresh:
  "yields (\<lambda>st. \<exists>config now w client i secret. st_scheduler st = fresh_scheduler config now w \<and>
     st_state st = fresh_state base OA config client i secret) (daemon_start H base OA args)"
  unfolding daemon_start_def Let_def
  by (intro yields_last yields_pair yields_retp) auto

text \<open>
  C31: when the daemon has started, then in every state the scheduler reaches from there, with the
  configuration this start has read, no folder is queued twice and no sync is left counted as
  running (provided that the rest of the daemon does not touch the counter).
\<close>

theorem started_daemon_invariant:
  assumes "daemon_start H base OA args s = (Inr st, s1)"
    and "(sched_step (ds_services (st_state st)) others)\<^sup>*\<^sup>* (st_scheduler st) t"
    and "\<And>d d'. others d d' \<Longrightarrow> dm_syncing d' = dm_syncing d"
  shows "distinct (sch_pending t) \<and> dm_syncing (sch_daemon t) = 0"
proof -
  obtain config now w where "st_scheduler st = fresh_scheduler config now w"
    using yieldsD [OF daemon_start_fresh assms(1)] by blast
  then show ?thesis
    using scheduler_keeps [OF assms(2,3)] by (simp add: fresh_scheduler_def)
qed

section \<open>From a change on the disk to a sync request\<close>

lemma watch_thread_requests:
  assumes "\<And>w. ds_receiver D w"
  shows "watch_thread D i (map Changed ps) s =
    (Inr (), s\<lparr>dm_requests := dm_requests s @ replicate (length ps) i\<rparr>)"
  using assms
  by (induction ps arbitrary: s)
    (auto simp: seqp_def retp_def ignorep_def tryp_def send_request_def)

text \<open>
  C32: for a watched folder, a batch of events becomes as many sync requests for this folder as it
  has paths that are not ignored, after the requests that are already waiting; nothing else of
  the daemon changes.
\<close>

theorem local_changes_request_sync:
  assumes "\<And>w. ds_receiver D w" and "watcher_start W (watcher_new root ms) w = (Inr (c, callback), w')"
  shows "watch_thread D i (ch_messages (callback (Inr events) c)) s =
    (Inr (), s\<lparr>dm_requests :=
       dm_requests s @ replicate (length (filter (\<lambda>p. \<not> should_ignore root p) events)) i\<rparr>)"
proof -
  have "c = \<lparr>ch_open = True, ch_messages = []\<rparr>" "callback = on_debounce root"
    using assms(2) by (auto simp: watcher_start_def watcher_new_def retp_def elim!: seqp_InrE)
  then have "ch_messages (callback (Inr events) c) = map Changed (filter (\<lambda>p. \<not> should_ignore root p) events)"
    by (simp add: on_debounce_def forward_events_open)
  then show ?thesis by (simp add: watch_thread_requests [OF assms(1)])
qed

section \<open>Examples\<close>

text \<open>A host on which every step succeeds and there is neither a configuration nor a variable.\<close>

definition demo_host :: "token_map host" where
  "demo_host = \<lparr>ho_env_var = (\<lambda>_. None), ho_config_dir = Some (path_of ''/c''),
     ho_data_local_dir = Some (path_of ''/d''), ho_create_dir_all = (\<lambda>_. retp ()),
     ho_read = (\<lambda>_. failp ''not found''), ho_toml = (\<lambda>_. Inl []), ho_create_pool = (\<lambda>_. retp ()),
     ho_migrate = retp (), ho_client_build = Inr (), ho_bus_session = retp (), ho_bus_name = retp (),
     ho_bus_serve = retp (), ho_bus_build = retp (),
     ho_watch = \<lparr>wo_new_debouncer = (\<lambda>_. retp ()), wo_watch = (\<lambda>_. retp ())\<rparr>,
     ho_pid = 42, ho_write = (\<lambda>_ _. retp ()), ho_exists = (\<lambda>_ _. False), ho_remove = (\<lambda>_. retp ())\<rparr>"

definition demo_args :: daemon_args where
  "demo_args = \<lparr>da_config_dir = None, da_data_dir = None, da_foreground = True\<rparr>"

definition empty_db :: db where
  "empty_db = \<lparr>db_accounts = [], db_sync_folders = [], db_file_states = [], db_sync_errors = [], db_oauth = None\<rparr>"

lemma on_env_okay: "on_env (retp x) s = (Inr x, s)" "on_env (failp e) s = (Inl e, s)"
  by (simp_all add: on_env_def retp_def failp_def)

lemma on_env_context_okay: "on_env (context_of what (retp x)) s = (Inr x, s)"
  by (simp add: on_env_def context_of_def map_errp_def retp_def)

lemma demo_started:
  "\<exists>st s'. daemon_start demo_host demo_services demo_oauth demo_args (demo_world\<lparr>w_db := empty_db\<rparr>) = (Inr st, s')"
proof -
  obtain cl where cl: "build_client demo_oauth [] None (oc_redirect_port (cfg_oauth config_default)) = Inr cl"
    using demo_client_built by blast
  show ?thesis
    by (simp add: daemon_start_def demo_args_def demo_host_def Let_def on_env_context_okay seqp_def tryp_def
        load_config_def map_errp_def on_env_okay failp_def retp_def on_env_def okp_def demo_services_def
        resolve_oauth_credentials_def on_db_def oauth_get_def getp_def empty_db_def liftp_def cl
        client_new_def with_base_url_def modp_def list_all_folders_inner_def account_list_all_def context_of_def
        split: prod.splits)
qed

text \<open>The bus methods and watchers ask for the folder \<open>f1\<close>, twice.\<close>

definition demo_asks :: "token_map daemon \<Rightarrow> token_map daemon \<Rightarrow> bool" where
  "demo_asks d d' \<longleftrightarrow> d' = d\<lparr>dm_requests := [''f1'', ''f1'']\<rparr>"

lemma demo_request:
  assumes "daemon_start H demo_services OA args s = (Inr st, s1)"
  shows "\<exists>t. sched_step (ds_services (st_state st)) demo_asks (st_scheduler st) t \<and>
    sch_pending t = [''f1'']"
proof -
  obtain config now w client i secret where fresh: "st_scheduler st = fresh_scheduler config now w"
    "st_state st = fresh_state demo_services OA config client i secret"
    using yieldsD [OF daemon_start_fresh assms] by blast
  let ?s = "st_scheduler st" and ?V = "ds_services (st_state st)"
  define d where "d = (sch_daemon ?s)\<lparr>dm_requests := [''f1'', ''f1'']\<rparr>"
  have "\<not> sch_draining ?s" "\<not> sch_stopped ?s" by (simp_all add: fresh fresh_scheduler_def)
  moreover have "sv_load_shutdown ?V (w_env (dm_world (sch_daemon ?s))) = (False, w_env (dm_world (sch_daemon ?s)))"
    by (simp add: fresh fresh_state_def demo_services_def)
  moreover have "demo_asks ((sch_daemon ?s)\<lparr>dm_world := (dm_world (sch_daemon ?s))\<lparr>w_env :=
      w_env (dm_world (sch_daemon ?s))\<rparr>\<rparr>) d"
    by (simp add: demo_asks_def d_def)
  moreover have "dm_requests d = [''f1'', ''f1'']" by (simp add: d_def)
  ultimately have "sched_step ?V demo_asks ?s (?s\<lparr>sch_draining := True, sch_daemon := d\<lparr>dm_requests := [''f1'']\<rparr>,
      sch_pending := push_pending ''f1'' (sch_pending ?s)\<rparr>)"
    by (rule sched_step.request)
  moreover have "push_pending ''f1'' (sch_pending ?s) = [''f1'']"
    by (simp add: fresh(1) fresh_scheduler_def push_pending_def)
  ultimately show ?thesis by fastforce
qed

lemma started_daemon_invariant_witness:
  "\<exists>st s' t. daemon_start demo_host demo_services demo_oauth demo_args (demo_world\<lparr>w_db := empty_db\<rparr>) = (Inr st, s') \<and>
     sched_step (ds_services (st_state st)) demo_asks (st_scheduler st) t \<and> sch_pending t = [''f1''] \<and>
     distinct (sch_pending t) \<and> dm_syncing (sch_daemon t) = 0"
proof -
  obtain st s' where run: "daemon_start demo_host demo_services demo_oauth demo_args
      (demo_world\<lparr>w_db := empty_db\<rparr>) = (Inr st, s')" using demo_started by blast
  obtain t where t: "sched_step (ds_services (st_state st)) demo_asks (st_scheduler st) t" "sch_pending t = [''f1'']"
    using demo_request [OF run] by blast
  have "dm_syncing d' = dm_syncing d" if "demo_asks d d'" for d d' using that by (simp add: demo_asks_def)
  from started_daemon_invariant [OF run r_into_rtranclp, OF t(1) this] run t show ?thesis by blast
qed

lemma local_changes_request_sync_witness:
  "watch_thread demo_state_bus ''f1'' (ch_messages (on_debounce (path_of ''/r'')
      (Inr [path_of ''/r/a'', path_of ''/r/.git/HEAD'', path_of ''/r/b.swp'']) \<lparr>ch_open = True, ch_messages = []\<rparr>))
    demo_daemon = (Inr (), demo_daemon\<lparr>dm_requests := [''f1'']\<rparr>)"
proof -
  have "watcher_start (ho_watch demo_host) (watcher_new (path_of ''/r'') 500) w =
      (Inr (\<lparr>ch_open = True, ch_messages = []\<rparr>, on_debounce (path_of ''/r'')), w)" for w
    by (simp add: watcher_start_def demo_host_def seqp_def retp_def watcher_new_def)
  note run = local_changes_request_sync [OF _ this, of demo_state_bus "''f1''"]
  have "\<not> should_ignore (path_of ''/r'') (path_of ''/r/a'')" "should_ignore (path_of ''/r'') (path_of ''/r/.git/HEAD'')"
    "should_ignore (path_of ''/r'') (path_of ''/r/b.swp'')" by code_simp+
  then show ?thesis
    using run [of "[path_of ''/r/a'', path_of ''/r/.git/HEAD'', path_of ''/r/b.swp'']" demo_daemon]
    by (simp add: demo_state_bus_def demo_daemon_def)
qed

end
