(* ===== verification/Gds_Cli_Output.thy ===== *)
theory Gds_Cli_Output
  imports Gds_Service
begin

text \<open>
  The command line of \<open>gdrivesync\<close> (\<open>crates/gds-cli/src/cli.rs\<close>) and its output, for people and as
  JSON (\<open>crates/gds-cli/src/output.rs\<close>). The formats of chrono and the texts of serde\_json are
  parameters.
\<close>

section \<open>The command line\<close>

datatype shell = Bash | Zsh | Fish

datatype accounts_cmd = AccountsList | AccountsAdd | AccountsRemove string bool

datatype sync_cmd = SyncPause | SyncResume | SyncNow "string option"

datatype folders_cmd = FoldersList | FoldersAdd string string | FoldersRemove string

datatype daemon_cmd = DaemonStart | DaemonStop | DaemonRestart | DaemonStatus

datatype cli_command =
    StatusCmd
  | Accounts accounts_cmd
  | SyncCmd sync_cmd
  | Folders folders_cmd
  | Errors
  | Quota
  | DaemonCmd daemon_cmd
  | Completions shell
  | Configure

record cli =
  cli_json :: bool
  cli_quiet :: bool
  cli_verbose :: bool
  cli_command :: cli_command

section \<open>Texts\<close>

record status_account_json =
  sj_id :: string
  sj_email :: string
  sj_display_name :: string
  sj_quota_limit :: string
  sj_quota_usage :: string
  sj_last_sync_unix :: "int option"

record status_json =
  sj_global_status :: string
  sj_syncing_count :: "32 word"
  sj_accounts :: "status_account_json list"

record account_quota_json =
  aq_id :: string
  aq_email :: string
  aq_quota :: "quota_info option"

record daemon_status_json =
  ds_on_bus :: bool
  ds_service :: string
  ds_pid_file :: "string option"
  ds_pid :: "nat option"

text \<open>
  The libraries: \<open>DateTime::from_timestamp(t, 0)\<close> formatted (\<open>None\<close> out of range), the debug text
  of a string, and \<open>serde_json::to_string_pretty\<close> of the printed types.
\<close>

record texts =
  tx_minutes_utc :: "int \<Rightarrow> string option"
  tx_minutes :: "int \<Rightarrow> string option"
  tx_rfc3339 :: "int \<Rightarrow> string option"
  tx_debug :: "string \<Rightarrow> string"
  tx_status :: "status_json \<Rightarrow> string + string"
  tx_accounts :: "account_info list \<Rightarrow> string + string"
  tx_folders :: "sync_folder_info list \<Rightarrow> string + string"
  tx_errors :: "sync_error_info list \<Rightarrow> string + string"
  tx_quota :: "account_quota_json list \<Rightarrow> string + string"
  tx_daemon :: "daemon_status_json \<Rightarrow> string + string"

definition bool_to_str :: "bool \<Rightarrow> string" where
  "bool_to_str b = (if b then ''true'' else ''false'')"

definition debug_option :: "('a \<Rightarrow> string) \<Rightarrow> 'a option \<Rightarrow> string" where
  "debug_option f x = (case x of None \<Rightarrow> ''None'' | Some y \<Rightarrow> ''Some('' @ f y @ '')'')"

section \<open>The terminal\<close>

text \<open>The state of a run: the world of the command, and the lines on the two output streams.\<close>

record 'c terminal =
  tm_world :: 'c
  tm_stdout :: "string list"
  tm_stderr :: "string list"

definition on_tm :: "('c, 'e, 'a) proc \<Rightarrow> ('c terminal, 'e, 'a) proc" where
  "on_tm m s = (case m (tm_world s) of (r, c) \<Rightarrow> (r, s\<lparr>tm_world := c\<rparr>))"

definition println :: "cli \<Rightarrow> string \<Rightarrow> ('c terminal, 'e, unit) proc" where
  "println cli line =
     (if \<not> cli_quiet cli then modp (\<lambda>s. s\<lparr>tm_stdout := tm_stdout s @ [line]\<rparr>) else retp ())"

definition eprintln :: "string \<Rightarrow> ('c terminal, 'e, unit) proc" where
  "eprintln line = modp (\<lambda>s. s\<lparr>tm_stderr := tm_stderr s @ [line]\<rparr>)"

text \<open>JSON is printed also with \<open>--quiet\<close>.\<close>

definition json :: "string + string \<Rightarrow> ('c terminal, string, unit) proc" where
  "json encoded =
     seqp (liftp encoded) (\<lambda>text. modp (\<lambda>s. s\<lparr>tm_stdout := tm_stdout s @ [text]\<rparr>))"

fun print_lines :: "cli \<Rightarrow> string list \<Rightarrow> ('c terminal, 'e, unit) proc" where
  "print_lines cli [] = retp ()"
| "print_lines cli (l # ls) = seqp (println cli l) (\<lambda>_. print_lines cli ls)"

section \<open>Output\<close>

definition if_empty :: "string \<Rightarrow> string \<Rightarrow> string" where
  "if_empty s fallback = (if s = [] then fallback else s)"

text \<open>The latest time at which a folder of the account was synced, if any was.\<close>

fun last_sync :: "string \<Rightarrow> sync_folder_info list \<Rightarrow> int option \<Rightarrow> int option" where
  "last_sync account_id [] latest = latest"
| "last_sync account_id (f # fs) latest =
     (if fi_account_id f = account_id \<and> fi_last_sync_at f > 0
      then last_sync account_id fs
        (Some (case latest of None \<Rightarrow> fi_last_sync_at f | Some x \<Rightarrow> max x (fi_last_sync_at f)))
      else last_sync account_id fs latest)"

definition status_account_lines ::
    "texts \<Rightarrow> sync_folder_info list \<Rightarrow> (string \<times> quota_info) list \<Rightarrow> account_info \<Rightarrow> string list" where
  "status_account_lines T folders quota_by_account a =
     (let latest = last_sync (ai_id a) folders None;
          (lim, use_s) = (case map_of quota_by_account (ai_id a) of
             Some q \<Rightarrow> (qi_limit q, qi_usage q) | None \<Rightarrow> (''-'', ''-''));
          last_s = (case latest of
             None \<Rightarrow> ''-''
           | Some t \<Rightarrow> (case tx_minutes_utc T t of Some d \<Rightarrow> d | None \<Rightarrow> int_to_str t))
      in [''Account '' @ if_empty (ai_email a) (ai_id a) @ '' ('' @ take 8 (ai_id a) @ '')'',
          ''  display: '' @ ai_display_name a,
          ''  quota: '' @ use_s @ '' / '' @ lim,
          ''  last sync: '' @ last_s,
          []])"

definition status_human ::
    "texts \<Rightarrow> cli \<Rightarrow> string \<Rightarrow> 32 word \<Rightarrow> account_info list \<Rightarrow> sync_folder_info list \<Rightarrow>
     (string \<times> quota_info) list \<Rightarrow> ('c terminal, 'e, unit) proc" where
  "status_human T cli global_status syncing_count accounts folders quota_by_account =
     print_lines cli
       ([''Status: '' @ global_status @ '' (active syncs: '' @ nat_to_str (unat syncing_count) @ '')'', []] @
        concat (map (status_account_lines T folders quota_by_account) accounts))"

definition status_json_of ::
    "string \<Rightarrow> 32 word \<Rightarrow> account_info list \<Rightarrow> sync_folder_info list \<Rightarrow> (string \<times> quota_info) list \<Rightarrow>
     status_json" where
  "status_json_of global_status syncing_count accounts folders quota_by_account =
     \<lparr>sj_global_status = global_status, sj_syncing_count = syncing_count,
      sj_accounts = map (\<lambda>a.
        let q = map_of quota_by_account (ai_id a) in
        \<lparr>sj_id = ai_id a, sj_email = ai_email a, sj_display_name = ai_display_name a,
         sj_quota_limit = (case q of Some x \<Rightarrow> qi_limit x | None \<Rightarrow> []),
         sj_quota_usage = (case q of Some x \<Rightarrow> qi_usage x | None \<Rightarrow> []),
         sj_last_sync_unix = last_sync (ai_id a) folders None\<rparr>) accounts\<rparr>"

definition accounts_list_human :: "cli \<Rightarrow> account_info list \<Rightarrow> ('c terminal, 'e, unit) proc" where
  "accounts_list_human cli accounts =
     (if accounts = [] then println cli ''No accounts.''
      else print_lines cli (map (\<lambda>a.
        if_empty (ai_email a) ''(no email)'' @ ''  id='' @ ai_id a @ ''  name='' @ ai_display_name a) accounts))"

definition folders_list_human :: "texts \<Rightarrow> cli \<Rightarrow> sync_folder_info list \<Rightarrow> ('c terminal, 'e, unit) proc" where
  "folders_list_human T cli folders =
     (if folders = [] then println cli ''No sync folders.''
      else print_lines cli (map (\<lambda>f.
        let latest = (if fi_last_sync_at f > 0
              then (case tx_minutes T (fi_last_sync_at f) of Some d \<Rightarrow> d | None \<Rightarrow> int_to_str (fi_last_sync_at f))
              else ''-'')
        in fi_id f @ ''  local='' @ fi_local_path f @ ''  drive='' @ fi_drive_folder_id f @
           ''  paused='' @ bool_to_str (fi_paused f) @ ''  last='' @ latest) folders))"

definition errors_human :: "texts \<Rightarrow> cli \<Rightarrow> sync_error_info list \<Rightarrow> ('c terminal, 'e, unit) proc" where
  "errors_human T cli errors =
     (if errors = [] then println cli ''No recent errors.''
      else print_lines cli (map (\<lambda>e.
        let t = (case tx_rfc3339 T (ei_occurred_at e) of Some d \<Rightarrow> d | None \<Rightarrow> int_to_str (ei_occurred_at e))
        in ''['' @ t @ ''] retry='' @ int_to_str (ei_retry_count e) @ ''  '' @ ei_error_message e) errors))"

definition quota_human ::
    "cli \<Rightarrow> account_info list \<Rightarrow> (string \<times> quota_info) list \<Rightarrow> ('c terminal, 'e, unit) proc" where
  "quota_human cli accounts quota =
     print_lines cli (map (\<lambda>a.
       case map_of quota (ai_id a) of
         Some q \<Rightarrow> if_empty (ai_email a) (ai_id a) @ ''  usage='' @ qi_usage q @ ''  limit='' @ qi_limit q @
           ''  in_drive='' @ qi_usage_in_drive q
       | None \<Rightarrow> if_empty (ai_email a) (ai_id a) @ ''  (quota unavailable)'') accounts)"

section \<open>What the output shows\<close>

text \<open>The loop over the folders computes a maximum.\<close>

definition sync_times :: "string \<Rightarrow> sync_folder_info list \<Rightarrow> int set" where
  "sync_times i fs = {fi_last_sync_at f | f. f \<in> set fs \<and> fi_account_id f = i \<and> fi_last_sync_at f > 0}"

lemma sync_times_simps [simp]:
  "sync_times i [] = {}"
  "sync_times i (f # fs) = (if fi_account_id f = i \<and> fi_last_sync_at f > 0
     then insert (fi_last_sync_at f) (sync_times i fs) else sync_times i fs)"
  by (auto simp: sync_times_def)

lemma finite_sync_times [simp]: "finite (sync_times i fs)"
  by (induction fs) auto

lemma last_sync_some: "last_sync i fs (Some t) = Some (Max (insert t (sync_times i fs)))"
proof (induction fs arbitrary: t)
  case (Cons f fs)
  then show ?case
    by (cases "sync_times i fs = {}") (auto simp: max.left_commute max.commute max.assoc)
qed simp

lemma last_sync_max:
  "last_sync i fs None = (if sync_times i fs = {} then None else Some (Max (sync_times i fs)))"
  by (induction fs) (auto simp: last_sync_some)

section \<open>Quiet runs\<close>

lemma pres_on_tm [proc_pres]: "pres (\<lambda>s. I (tm_stdout s)) (on_tm m)"
  by (simp add: pres_def on_tm_def split: prod.split)

lemma pres_eprintln [proc_pres]: "pres (\<lambda>s. I (tm_stdout s)) (eprintln line)"
  by (simp add: eprintln_def pres_def modp_def)

lemma println_quiet: "cli_quiet cli \<Longrightarrow> println cli l = retp ()"
  by (simp add: println_def)

lemma print_lines_quiet: "cli_quiet cli \<Longrightarrow> print_lines cli ls = retp ()"
  by (induction ls) (simp_all add: println_quiet)

end
