(* ===== verification/Gds_Cli_Daemon.thy ===== *)
theory Gds_Cli_Daemon
  imports Gds_Cli_Output
begin

text \<open>
  Starting, stopping and finding the daemon from the command line
  (\<open>crates/gds-cli/src/daemon_ctl.rs\<close>, \<open>config.rs\<close>, \<open>dbus_client.rs\<close>). Processes, \<open>systemctl\<close>, signals, the
  session bus and the terminal dialogs are parameters.
\<close>

section \<open>The daemon on the bus\<close>

text \<open>The proxy of the daemon's interface; an error is its text.\<close>

record 'c bus_proxy =
  bp_get_status :: "('c, string, string \<times> 32 word) proc"
  bp_pause_sync :: "('c, string, unit) proc"
  bp_resume_sync :: "('c, string, unit) proc"
  bp_force_sync :: "string \<Rightarrow> ('c, string, unit) proc"
  bp_get_accounts :: "('c, string, account_info list) proc"
  bp_add_account :: "('c, string, unit) proc"
  bp_remove_account :: "string \<Rightarrow> ('c, string, unit) proc"
  bp_get_sync_folders :: "('c, string, sync_folder_info list) proc"
  bp_add_sync_folder :: "string \<Rightarrow> string \<Rightarrow> ('c, string, unit) proc"
  bp_remove_sync_folder :: "string \<Rightarrow> ('c, string, unit) proc"
  bp_get_sync_errors :: "('c, string, sync_error_info list) proc"
  bp_get_about_info :: "string \<Rightarrow> ('c, string, quota_info) proc"

text \<open>The proxy of a running daemon: each method is the daemon's own.\<close>

definition bus_of :: "'w daemon_state \<Rightarrow> 'w daemon bus_proxy" where
  "bus_of D =
     \<lparr>bp_get_status = get_status D, bp_pause_sync = pause_sync D, bp_resume_sync = resume_sync D,
      bp_force_sync = force_sync D, bp_get_accounts = get_accounts D, bp_add_account = add_account D,
      bp_remove_account = remove_account D, bp_get_sync_folders = get_sync_folders D,
      bp_add_sync_folder = add_sync_folder D, bp_remove_sync_folder = remove_sync_folder D,
      bp_get_sync_errors = get_sync_errors D, bp_get_about_info = get_about_info D\<rparr>"

record bus_target =
  bt_service :: string
  bt_path :: string

definition DEFAULT_SERVICE :: string where
  "DEFAULT_SERVICE = ''org.kde.GDriveSync''"

definition DEFAULT_PATH :: string where
  "DEFAULT_PATH = ''/org/kde/GDriveSync''"

section \<open>Parameters\<close>

text \<open>
  \<open>ch_systemctl\<close>: the outcome of \<open>systemctl --user <verb> gds-daemon\<close>, \<open>None\<close> when it cannot be run;
  \<open>ch_has_owner\<close>: whether a name has an owner on the bus, false on any failure.
\<close>

record 'c cli_host =
  ch_env_var :: "string \<Rightarrow> string option"
  ch_config_dir :: "path option"
  ch_data_local_dir :: "path option"
  ch_systemctl :: "string \<Rightarrow> 'c \<Rightarrow> bool option \<times> 'c"
  ch_current_exe :: "path option"
  ch_exists :: "path \<Rightarrow> 'c \<Rightarrow> bool"
  ch_spawn :: "string \<Rightarrow> ('c, string, unit) proc"
  ch_has_owner :: "string \<Rightarrow> 'c \<Rightarrow> bool \<times> 'c"
  ch_sleep :: "nat \<Rightarrow> 'c \<Rightarrow> 'c"
  ch_read :: "path \<Rightarrow> 'c \<Rightarrow> string option"
  ch_kill :: "int \<Rightarrow> 'c \<Rightarrow> 'c"
  ch_generate :: "shell \<Rightarrow> string"
  ch_input :: "string \<Rightarrow> ('c, string, string) proc"
  ch_password :: "string \<Rightarrow> ('c, string, string) proc"
  ch_confirm :: "string \<Rightarrow> ('c, string, bool) proc"
  ch_create_dir_all :: "path \<Rightarrow> ('c, string, unit) proc"
  ch_open_db :: "path \<Rightarrow> ('c, string, unit) proc"
  ch_migrate :: "('c, string, unit) proc"
  ch_upsert_oauth :: "string \<Rightarrow> string \<Rightarrow> ('c, string, unit) proc"
  ch_connect :: "bus_target \<Rightarrow> ('c, string, unit) proc"
  ch_proxy :: "bus_target \<Rightarrow> ('c, string, 'c bus_proxy) proc"
  ch_texts :: texts

definition target_from_env :: "'c cli_host \<Rightarrow> bus_target" where
  "target_from_env H =
     \<lparr>bt_service = (case ch_env_var H ''GDS_DBUS_SERVICE'' of Some s \<Rightarrow> s | None \<Rightarrow> DEFAULT_SERVICE),
      bt_path = (case ch_env_var H ''GDS_DBUS_PATH'' of Some s \<Rightarrow> s | None \<Rightarrow> DEFAULT_PATH)\<rparr>"

section \<open>Directories\<close>

definition cli_config_dir :: "'c cli_host \<Rightarrow> path" where
  "cli_config_dir H =
     (case map_option path_of (ch_env_var H ''GDS_CONFIG_DIR'') of
        Some p \<Rightarrow> p
      | None \<Rightarrow>
          (case map_option (\<lambda>d. path_join d ''gds'') (ch_config_dir H) of
             Some p \<Rightarrow> p
           | None \<Rightarrow> path_join (path_of ''.config'') ''gds''))"

definition cli_data_dir :: "'c cli_host \<Rightarrow> path" where
  "cli_data_dir H =
     (case map_option path_of (ch_env_var H ''GDS_DATA_DIR'') of
        Some p \<Rightarrow> p
      | None \<Rightarrow>
          (case map_option (\<lambda>d. path_join d ''gds'') (ch_data_local_dir H) of
             Some p \<Rightarrow> p
           | None \<Rightarrow> path_join (path_join (path_of ''.local'') ''share'') ''gds''))"

definition ctl_data_dir :: "'c cli_host \<Rightarrow> path" where
  "ctl_data_dir H =
     (case map_option path_of (ch_env_var H ''GDS_DATA_DIR'') of
        Some p \<Rightarrow> p
      | None \<Rightarrow>
          (case map_option (\<lambda>d. path_join d ''gds'') (ch_data_local_dir H) of
             Some p \<Rightarrow> p
           | None \<Rightarrow> path_of ''.local/share/gds''))"

definition pid_path :: "'c cli_host \<Rightarrow> path" where
  "pid_path H = path_join (ctl_data_dir H) ''daemon.pid''"

section \<open>Starting\<close>

definition which_gds_daemon :: "'c cli_host \<Rightarrow> 'c \<Rightarrow> string" where
  "which_gds_daemon H c =
     (case Option.bind (ch_current_exe H) (\<lambda>p. map_option (\<lambda>d. path_join d ''gds-daemon'') (path_parent p)) of
        Some p \<Rightarrow> if ch_exists H p c then path_show p else ''gds-daemon''
      | None \<Rightarrow> ''gds-daemon'')"

definition daemon_listening :: "'c cli_host \<Rightarrow> ('c terminal, 'e, bool) proc" where
  "daemon_listening H = on_tm (okp (ch_has_owner H DEFAULT_SERVICE))"

text \<open>The wait in steps of 200 ms; times in milliseconds.\<close>

function wait_from :: "'c cli_host \<Rightarrow> nat \<Rightarrow> bool \<Rightarrow> nat \<Rightarrow> ('c terminal, string, unit) proc" where
  "wait_from H timeout verbose elapsed =
     (if elapsed < timeout then
        seqp (daemon_listening H) (\<lambda>up.
        if up then (if verbose then eprintln ''daemon registered on D-Bus'' else retp ())
        else seqp (on_tm (modp (ch_sleep H 200))) (\<lambda>_. wait_from H timeout verbose (elapsed + 200)))
      else failp (''daemon did not appear on D-Bus within '' @ nat_to_str (timeout div 1000) @ ''s''))"
  by pat_completeness auto

termination
  by (relation "measure (\<lambda>(H, timeout, verbose, elapsed). timeout - elapsed)") auto

declare wait_from.simps [simp del]

definition wait_for_bus :: "'c cli_host \<Rightarrow> nat \<Rightarrow> bool \<Rightarrow> ('c terminal, string, unit) proc" where
  "wait_for_bus H timeout verbose = wait_from H timeout verbose 0"

definition daemon_start_cmd :: "'c cli_host \<Rightarrow> bool \<Rightarrow> ('c terminal, string, unit) proc" where
  "daemon_start_cmd H verbose =
     seqp (on_tm (okp (ch_systemctl H ''start''))) (\<lambda>status.
     if status = Some True then
       seqp (if verbose then eprintln ''systemctl --user start gds-daemon: ok'' else retp ()) (\<lambda>_.
       wait_for_bus H 15000 verbose)
     else
       seqp (getp (\<lambda>s. which_gds_daemon H (tm_world s))) (\<lambda>bin.
       seqp (map_errp (\<lambda>e. ''failed to spawn gds-daemon ('' @ bin @ ''): '' @ e @ ''. Is gds-daemon on PATH?'')
               (on_tm (ch_spawn H bin))) (\<lambda>_.
       wait_for_bus H 20000 verbose)))"

section \<open>Stopping\<close>

text \<open>
  \<open>trim()\<close>: the characters with the Unicode property \<open>White_Space\<close>, in UTF-8, are cut off at both ends.
  A last character is one of them exactly when its bytes, read backwards, are.
\<close>

definition white_space :: "string list" where
  "white_space =
     map (\<lambda>c. [c]) [CHR 0x09, CHR 0x0A, CHR 0x0B, CHR 0x0C, CHR 0x0D, CHR '' ''] @
     [[CHR 0xC2, CHR 0x85], [CHR 0xC2, CHR 0xA0], [CHR 0xE1, CHR 0x9A, CHR 0x80]] @
     map (\<lambda>c. [CHR 0xE2, CHR 0x80, c])
       [CHR 0x80, CHR 0x81, CHR 0x82, CHR 0x83, CHR 0x84, CHR 0x85, CHR 0x86, CHR 0x87, CHR 0x88,
        CHR 0x89, CHR 0x8A, CHR 0xA8, CHR 0xA9, CHR 0xAF] @
     [[CHR 0xE2, CHR 0x81, CHR 0x9F], [CHR 0xE3, CHR 0x80, CHR 0x80]]"

lemma drop_prefix_shorter: "w \<noteq> [] \<Longrightarrow> starts_with s w \<Longrightarrow> length (drop (length w) s) < length s"
  by (cases s) (auto simp: starts_with_def)

function trim_with :: "string list \<Rightarrow> string \<Rightarrow> string" where
  "trim_with ws s =
     (case find (\<lambda>w. w \<noteq> [] \<and> starts_with s w) ws of
        None \<Rightarrow> s
      | Some w \<Rightarrow> trim_with ws (drop (length w) s))"
  by pat_completeness auto

termination
proof (relation "measure (\<lambda>(ws, s). length s)")
  fix ws s w assume "find (\<lambda>w. w \<noteq> [] \<and> starts_with s w) ws = Some w"
  then have "w \<noteq> []" "starts_with s w" by (auto simp: find_Some_iff)
  then show "((ws, drop (length w) s), ws, s) \<in> measure (\<lambda>(ws, s). length s)"
    using drop_prefix_shorter by simp
qed simp

declare trim_with.simps [simp del]

definition trim_str :: "string \<Rightarrow> string" where
  "trim_str s = rev (trim_with (map rev white_space) (rev (trim_with white_space s)))"

lemma trim_with_digit:
  assumes "is_digit c" and "list_all (\<lambda>w. w \<noteq> [] \<and> \<not> is_digit (hd w)) ws"
  shows "trim_with ws (c # s) = c # s"
proof -
  have "find (\<lambda>w. w \<noteq> [] \<and> starts_with (c # s) w) ws = None"
    using assms by (auto simp: find_None_iff starts_with_def list_all_iff neq_Nil_conv)
  then show ?thesis by (subst trim_with.simps) simp
qed

lemma trim_digits:
  assumes "\<And>c. c \<in> set s \<Longrightarrow> is_digit c" and "s \<noteq> []"
  shows "trim_str s = s"
proof -
  have front: "list_all (\<lambda>w. w \<noteq> [] \<and> \<not> is_digit (hd w)) white_space" by code_simp
  have rear: "list_all (\<lambda>w. w \<noteq> [] \<and> \<not> is_digit (hd w)) (map rev white_space)" by code_simp
  obtain c cs where s: "s = c # cs" using assms(2) by (cases s) auto
  obtain d ds where r: "rev s = d # ds" using assms(2) by (cases "rev s") auto
  have "d \<in> set s" using r by (metis list.set_intros(1) set_rev)
  then have "is_digit c" "is_digit d" using assms(1) s by auto
  then show ?thesis
    using trim_with_digit [OF _ front, of c cs] trim_with_digit [OF _ rear, of d ds]
    by (simp add: trim_str_def flip: s r)
qed

definition parse_i32 :: "string \<Rightarrow> int option" where
  "parse_i32 s =
     (case s of
        CHR ''-'' # ds \<Rightarrow>
          (if ds = [] then None
           else (case parse_digits 0 ds of
                   Some n \<Rightarrow> if n \<le> 2 ^ 31 then Some (- int n) else None
                 | None \<Rightarrow> None))
      | _ \<Rightarrow> map_option int (parse_uint 31 s))"

definition daemon_stop_cmd :: "'c cli_host \<Rightarrow> ('c terminal, string, unit) proc" where
  "daemon_stop_cmd H =
     seqp (on_tm (okp (ch_systemctl H ''stop''))) (\<lambda>status.
     if status = Some True then retp ()
     else
       seqp (getp (\<lambda>s. ch_read H (pid_path H) (tm_world s))) (\<lambda>text.
       case text of
         None \<Rightarrow> failp (''no PID file at '' @ path_show (pid_path H) @ ''; is daemon running?'')
       | Some t \<Rightarrow>
           (case parse_i32 (trim_str t) of
              None \<Rightarrow> failp (''invalid PID in '' @ path_show (pid_path H))
            | Some pid \<Rightarrow> on_tm (modp (ch_kill H pid)))))"

text \<open>The number that the daemon writes into the PID file is the one that is signalled.\<close>

lemma parse_i32_nat_to_str:
  assumes "n < 2 ^ 31"
  shows "parse_i32 (trim_str (nat_to_str n)) = Some (int n)"
proof -
  obtain c cs where s: "nat_to_str n = c # cs" by (cases "nat_to_str n") auto
  have "c \<noteq> CHR ''-''" using nat_to_str_digits [of c n] by (auto simp: s is_digit_def)
  moreover have "trim_str (nat_to_str n) = nat_to_str n" by (intro trim_digits nat_to_str_digits) auto
  moreover have "parse_uint 31 (nat_to_str n) = Some n" by (rule parse_uint_nat_to_str [OF assms])
  ultimately show ?thesis by (auto simp: parse_i32_def s split: list.splits char.splits bool.splits)
qed

lemma stop_signals_written_pid:
  assumes "\<And>v c. ch_systemctl H v c = (None, c)"
    and "ch_read H (pid_path H) (tm_world s) = Some (nat_to_str (unat pid))" and "pid < 2 ^ 31"
  shows "daemon_stop_cmd H s = (Inr (), s\<lparr>tm_world := ch_kill H (uint (pid :: 32 word)) (tm_world s)\<rparr>)"
proof -
  have "unat pid < 2 ^ 31" using assms(3) by (simp add: word_less_nat_alt)
  then show ?thesis
    using assms(1,2)
    by (simp add: daemon_stop_cmd_def seqp_def on_tm_def okp_def getp_def modp_def parse_i32_nat_to_str)
qed

definition daemon_status :: "'c cli_host \<Rightarrow> bus_target \<Rightarrow> ('c terminal, 'e, daemon_status_json) proc" where
  "daemon_status H target =
     seqp (on_tm (okp (ch_has_owner H (bt_service target)))) (\<lambda>on_bus.
     seqp (getp (\<lambda>s. if ch_exists H (pid_path H) (tm_world s)
        then (Some (path_show (pid_path H)),
          Option.bind (ch_read H (pid_path H) (tm_world s)) (\<lambda>t. parse_uint 32 (trim_str t)))
        else (None, None))) (\<lambda>(pid_file, pid).
     retp \<lparr>ds_on_bus = on_bus, ds_service = bt_service target, ds_pid_file = pid_file, ds_pid = pid\<rparr>))"

end
