(* ===== verification/Gds_Cli_Run.thy ===== *)
theory Gds_Cli_Run
  imports Gds_Cli_Daemon
begin

text \<open>
  The dispatch of \<open>gdrivesync\<close> (\<open>crates/gds-cli/src/run.rs\<close>, \<open>main.rs\<close>): each command with its calls on
  the bus, what it prints, and its exit code.
\<close>

section \<open>Exit codes and failures\<close>

definition EXIT_DAEMON_GONE :: int where
  "EXIT_DAEMON_GONE = 2"

definition EXIT_ERROR :: int where
  "EXIT_ERROR = 1"

definition is_unreachable :: "string \<Rightarrow> bool" where
  "is_unreachable s \<longleftrightarrow>
     contains_str s ''Name has no owner'' \<or> contains_str s ''name not found'' \<or>
     contains_str s ''Could not get PM'' \<or> contains_str s ''The name is not activatable'' \<or>
     contains_str s ''ServiceUnknown'' \<or> contains_str s ''Connection refused''"

definition ellipsis :: string where
  "ellipsis = [CHR 0xE2, CHR 0x80, CHR 0xA6]"

definition arrow :: string where
  "arrow = [CHR 0xE2, CHR 0x86, CHR 0x92]"

fun eprint_lines :: "string list \<Rightarrow> ('c terminal, 'e, unit) proc" where
  "eprint_lines [] = retp ()"
| "eprint_lines (l # ls) = seqp (eprintln l) (\<lambda>_. eprint_lines ls)"

definition eprint_daemon_missing :: "('c terminal, 'e, unit) proc" where
  "eprint_daemon_missing = eprint_lines
     [''The sync daemon (gds-daemon) is not running '' @ em_dash @ '' nothing can talk to Google until it is.'',
      [],
      ''Start it, then run this command again:'',
      ''  gdrivesync daemon start'',
      ''  # or from the built tree:'',
      ''  ./gds-daemon'',
      [],
      ''(OAuth opens in your browser only after the daemon is on D-Bus.)'']"

type_synonym 'c cli_proc = "('c terminal, string, int) proc"

definition daemon_gone :: "string \<Rightarrow> 'c cli_proc" where
  "daemon_gone line = seqp (eprintln line) (\<lambda>_. seqp eprint_daemon_missing (\<lambda>_. retp EXIT_DAEMON_GONE))"

text \<open>The macro \<open>call!\<close>: the rest of the run after a call on the bus.\<close>

definition call :: "('c, string, 'a) proc \<Rightarrow> ('a \<Rightarrow> 'c cli_proc) \<Rightarrow> 'c cli_proc" where
  "call m k =
     seqp (tryp (on_tm m)) (\<lambda>r.
     case r of
       Inr x \<Rightarrow> k x
     | Inl e \<Rightarrow> if is_unreachable e then daemon_gone (''daemon not reachable: '' @ e) else failp e)"

definition say :: "cli \<Rightarrow> string \<Rightarrow> ('c terminal, string, unit) proc" where
  "say cli line = (if \<not> cli_quiet cli then println cli line else retp ())"

definition done0 :: "('c terminal, string, unit) proc \<Rightarrow> 'c cli_proc" where
  "done0 m = seqp m (\<lambda>_. retp 0)"

section \<open>Commands without the bus\<close>

definition run_daemon_cmd :: "'c cli_host \<Rightarrow> cli \<Rightarrow> daemon_cmd \<Rightarrow> 'c cli_proc" where
  "run_daemon_cmd H cli cmd =
     (case cmd of
        DaemonStart \<Rightarrow>
          seqp (daemon_start_cmd H (cli_verbose cli)) (\<lambda>_. done0 (say cli ''Daemon start requested.''))
      | DaemonStop \<Rightarrow> seqp (daemon_stop_cmd H) (\<lambda>_. done0 (say cli ''Daemon stop sent.''))
      | DaemonRestart \<Rightarrow>
          seqp (daemon_stop_cmd H) (\<lambda>_.
          seqp (daemon_start_cmd H (cli_verbose cli)) (\<lambda>_. done0 (say cli ''Daemon restarted.'')))
      | DaemonStatus \<Rightarrow>
          seqp (daemon_status H (target_from_env H)) (\<lambda>j.
          done0 (if cli_json cli then json (tx_daemon (ch_texts H) j)
            else println cli (''on_bus='' @ bool_to_str (ds_on_bus j) @ ''  service='' @ ds_service j @
              ''  pid='' @ debug_option nat_to_str (ds_pid j) @
              ''  pid_file='' @ debug_option (tx_debug (ch_texts H)) (ds_pid_file j)))))"

definition with_context_text :: "string \<Rightarrow> ('s, string, 'a) proc \<Rightarrow> ('s, string, 'a) proc" where
  "with_context_text what m = map_errp (\<lambda>e. what @ '': '' @ e) m"

definition run_configure :: "'c cli_host \<Rightarrow> cli \<Rightarrow> 'c cli_proc" where
  "run_configure H cli =
     (let dir = cli_data_dir H in
      seqp (say cli (''Google OAuth credentials (from Cloud Console '' @ arrow @ '' Credentials '' @ arrow @
              '' OAuth client ID, Desktop).'')) (\<lambda>_.
      seqp (say cli []) (\<lambda>_.
      seqp (map_errp (\<lambda>e. ''input: '' @ e) (on_tm (ch_input H ''Client ID''))) (\<lambda>client_id.
      seqp (map_errp (\<lambda>e. ''password input: '' @ e) (on_tm (ch_password H
              (''Client secret (input hidden for security '' @ em_dash @ '' stored in the daemon database)'')))) (\<lambda>secret.
      seqp (with_context_text (''create data dir '' @ path_show dir) (on_tm (ch_create_dir_all H dir))) (\<lambda>_.
      seqp (with_context_text ''open daemon database'' (on_tm (ch_open_db H (path_join dir ''state.db'')))) (\<lambda>_.
      seqp (with_context_text ''run migrations'' (on_tm (ch_migrate H))) (\<lambda>_.
      seqp (with_context_text ''save credentials to database''
              (on_tm (ch_upsert_oauth H (trim_str client_id) secret))) (\<lambda>_.
      seqp (say cli []) (\<lambda>_.
      seqp (say cli ''OAuth credentials saved to the daemon database.'') (\<lambda>_.
      seqp (daemon_listening H) (\<lambda>up.
      if up then
        seqp (daemon_stop_cmd H) (\<lambda>_.
        seqp (daemon_start_cmd H (cli_verbose cli)) (\<lambda>_. done0 (say cli ''Daemon restarted.'')))
      else done0 (say cli ''Daemon was not running; start it with 'gdrivesync daemon start' when needed.'')))))))))))))"

section \<open>Commands on the bus\<close>

text \<open>The quota of every account that answers.\<close>

fun quotas ::
    "'c bus_proxy \<Rightarrow> account_info list \<Rightarrow> (string \<times> quota_info) list \<Rightarrow>
     ('c terminal, string, (string \<times> quota_info) list) proc" where
  "quotas P [] acc = retp acc"
| "quotas P (a # as) acc =
     seqp (tryp (on_tm (bp_get_about_info P (ai_id a)))) (\<lambda>r.
     case r of
       Inr q \<Rightarrow> quotas P as (AList.update (ai_id a) q acc)
     | Inl (e :: string) \<Rightarrow> quotas P as acc)"

definition run_status :: "'c cli_host \<Rightarrow> cli \<Rightarrow> 'c bus_proxy \<Rightarrow> 'c cli_proc" where
  "run_status H cli P =
     call (bp_get_status P) (\<lambda>(global_status, syncing_count).
     call (bp_get_accounts P) (\<lambda>accounts.
     call (bp_get_sync_folders P) (\<lambda>folders.
     seqp (quotas P accounts []) (\<lambda>quota.
     done0 (if cli_json cli
       then json (tx_status (ch_texts H) (status_json_of global_status syncing_count accounts folders quota))
       else status_human (ch_texts H) cli global_status syncing_count accounts folders quota)))))"

definition run_add_account :: "cli \<Rightarrow> 'c bus_proxy \<Rightarrow> 'c cli_proc" where
  "run_add_account cli P =
     seqp (say cli (''Opening browser for Google sign-in (daemon handles OAuth)'' @ ellipsis)) (\<lambda>_.
     seqp (tryp (on_tm (bp_add_account P))) (\<lambda>r.
     case r of
       Inr _ \<Rightarrow> done0 (say cli ''Account added.'')
     | Inl msg \<Rightarrow>
         if is_unreachable msg then daemon_gone (''daemon not reachable: '' @ msg)
         else if contains_str msg ''OAuth credentials not configured'' \<or>
                 contains_str msg ''client_secret is missing'' \<or>
                 (contains_str msg ''client_secret'' \<and> contains_str msg ''missing'') then
           seqp (eprint_lines [msg, [],
             ''Run 'gdrivesync configure' to set Client ID and Client Secret, then restart the daemon.'']) (\<lambda>_.
           retp EXIT_ERROR)
         else failp msg))"

definition run_accounts :: "'c cli_host \<Rightarrow> cli \<Rightarrow> 'c bus_proxy \<Rightarrow> accounts_cmd \<Rightarrow> 'c cli_proc" where
  "run_accounts H cli P cmd =
     (case cmd of
        AccountsList \<Rightarrow>
          call (bp_get_accounts P) (\<lambda>accounts.
          done0 (if cli_json cli then json (tx_accounts (ch_texts H) accounts)
            else accounts_list_human cli accounts))
      | AccountsAdd \<Rightarrow> run_add_account cli P
      | AccountsRemove i yes \<Rightarrow>
          seqp (if yes then retp True
                else on_tm (ch_confirm H (''Remove account '' @ i @ '' and revoke tokens?''))) (\<lambda>proceed.
          if \<not> proceed then done0 (eprintln ''Aborted.'')
          else call (bp_remove_account P i) (\<lambda>_. done0 (say cli ''Account removed.''))))"

definition run_sync :: "cli \<Rightarrow> 'c bus_proxy \<Rightarrow> sync_cmd \<Rightarrow> 'c cli_proc" where
  "run_sync cli P cmd =
     (case cmd of
        SyncPause \<Rightarrow> call (bp_pause_sync P) (\<lambda>_. done0 (say cli ''Sync paused.''))
      | SyncResume \<Rightarrow> call (bp_resume_sync P) (\<lambda>_. done0 (say cli ''Sync resumed.''))
      | SyncNow path \<Rightarrow>
          call (bp_force_sync P (case path of Some p \<Rightarrow> p | None \<Rightarrow> [])) (\<lambda>_. done0 (say cli ''Sync queued.'')))"

definition run_folders :: "'c cli_host \<Rightarrow> cli \<Rightarrow> 'c bus_proxy \<Rightarrow> folders_cmd \<Rightarrow> 'c cli_proc" where
  "run_folders H cli P cmd =
     (case cmd of
        FoldersList \<Rightarrow>
          call (bp_get_sync_folders P) (\<lambda>folders.
          done0 (if cli_json cli then json (tx_folders (ch_texts H) folders)
            else folders_list_human (ch_texts H) cli folders))
      | FoldersAdd local_path drive_folder_id \<Rightarrow>
          call (bp_add_sync_folder P local_path drive_folder_id) (\<lambda>_.
          done0 (say cli ''Sync folder added (first account).''))
      | FoldersRemove i \<Rightarrow>
          call (bp_remove_sync_folder P i) (\<lambda>_. done0 (say cli ''Sync folder removed.'')))"

definition run_errors :: "'c cli_host \<Rightarrow> cli \<Rightarrow> 'c bus_proxy \<Rightarrow> 'c cli_proc" where
  "run_errors H cli P =
     call (bp_get_sync_errors P) (\<lambda>errors.
     done0 (if cli_json cli then json (tx_errors (ch_texts H) errors)
       else errors_human (ch_texts H) cli errors))"

definition run_quota :: "'c cli_host \<Rightarrow> cli \<Rightarrow> 'c bus_proxy \<Rightarrow> 'c cli_proc" where
  "run_quota H cli P =
     call (bp_get_accounts P) (\<lambda>accounts.
     seqp (quotas P accounts []) (\<lambda>quota.
     done0 (if cli_json cli
       then json (tx_quota (ch_texts H) (map (\<lambda>a.
         \<lparr>aq_id = ai_id a, aq_email = ai_email a, aq_quota = map_of quota (ai_id a)\<rparr>) accounts))
       else quota_human cli accounts quota)))"

text \<open>\<open>accounts add\<close> starts a daemon that is missing: \<open>Some\<close> exit code when it cannot.\<close>

definition ensure_daemon :: "'c cli_host \<Rightarrow> cli \<Rightarrow> ('c terminal, string, int option) proc" where
  "ensure_daemon H cli =
     seqp (daemon_listening H) (\<lambda>up.
     if up then retp None
     else
       seqp (say cli (''gds-daemon is not running '' @ em_dash @ '' starting it'' @ ellipsis)) (\<lambda>_.
       seqp (tryp (daemon_start_cmd H (cli_verbose cli))) (\<lambda>r.
       case r of
         Inl e \<Rightarrow>
           seqp (eprintln (''Could not start daemon: '' @ e)) (\<lambda>_.
           seqp eprint_daemon_missing (\<lambda>_. retp (Some EXIT_ERROR)))
       | Inr _ \<Rightarrow>
           seqp (say cli (''Daemon is up. Continuing with sign-in'' @ ellipsis)) (\<lambda>_. retp None))))"

definition dispatch :: "'c cli_host \<Rightarrow> cli \<Rightarrow> 'c bus_proxy \<Rightarrow> 'c cli_proc" where
  "dispatch H cli P =
     (case cli_command cli of
        StatusCmd \<Rightarrow> run_status H cli P
      | Accounts cmd \<Rightarrow> run_accounts H cli P cmd
      | SyncCmd cmd \<Rightarrow> run_sync cli P cmd
      | Folders cmd \<Rightarrow> run_folders H cli P cmd
      | Errors \<Rightarrow> run_errors H cli P
      | Quota \<Rightarrow> run_quota H cli P
      | _ \<Rightarrow> failp ''unreachable'')"

definition with_proxy :: "'c cli_host \<Rightarrow> cli \<Rightarrow> 'c cli_proc" where
  "with_proxy H cli =
     (let target = target_from_env H in
      seqp (tryp (on_tm (ch_connect H target))) (\<lambda>r.
      case r of
        Inl (e :: string) \<Rightarrow> daemon_gone (''D-Bus: '' @ e)
      | Inr _ \<Rightarrow> call (ch_proxy H target) (dispatch H cli)))"

definition run :: "'c cli_host \<Rightarrow> cli \<Rightarrow> 'c cli_proc" where
  "run H cli =
     (case cli_command cli of
        Completions sh \<Rightarrow> done0 (modp (\<lambda>s. s\<lparr>tm_stdout := tm_stdout s @ [ch_generate H sh]\<rparr>))
      | DaemonCmd cmd \<Rightarrow> run_daemon_cmd H cli cmd
      | Configure \<Rightarrow> run_configure H cli
      | Accounts AccountsAdd \<Rightarrow>
          seqp (ensure_daemon H cli) (\<lambda>stop.
          case stop of Some code \<Rightarrow> retp code | None \<Rightarrow> with_proxy H cli)
      | _ \<Rightarrow> with_proxy H cli)"

text \<open>\<open>main\<close>: the exit code of the process; an error is printed first.\<close>

definition main_exit :: "'c cli_host \<Rightarrow> cli \<Rightarrow> 'c terminal \<Rightarrow> int \<times> 'c terminal" where
  "main_exit H cli s =
     (case run H cli s of
        (Inr code, s') \<Rightarrow> (code, s')
      | (Inl e, s') \<Rightarrow> (EXIT_ERROR, s'\<lparr>tm_stderr := tm_stderr s' @ [''error: '' @ e]\<rparr>))"

end
