(* ===== verification/Gds_Cli_Facts.thy ===== *)
theory Gds_Cli_Facts
  imports Gds_Cli_Run
begin

text \<open>
  What the command line promises: a quiet run prints nothing, a run that does not end with code 0
  has said why, and a command for the daemon does what the daemon's method does.
\<close>

section \<open>Quiet runs\<close>

abbreviation shows_nothing :: "string list \<Rightarrow> ('c terminal, 'e, 'a) proc \<Rightarrow> bool" where
  "shows_nothing out \<equiv> pres (\<lambda>s. tm_stdout s = out)"

named_theorems quiet_rules

lemma quiet_on_tm [quiet_rules]: "shows_nothing out (on_tm m)"
  by (rule pres_on_tm)

lemma quiet_eprintln [quiet_rules]: "shows_nothing out (eprintln l)"
  by (rule pres_eprintln)

lemma quiet_eprint_lines [quiet_rules]: "shows_nothing out (eprint_lines ls)"
  by (induction ls) (auto intro: proc_pres quiet_rules)

lemma quiet_say [quiet_rules]: "cli_quiet cli \<Longrightarrow> shows_nothing out (say cli l)"
  by (simp add: say_def pres_retp)

lemma quiet_println [quiet_rules]: "cli_quiet cli \<Longrightarrow> shows_nothing out (println cli l)"
  by (simp add: println_def pres_retp)

lemma quiet_gone [quiet_rules]: "shows_nothing out (daemon_gone l)"
  unfolding daemon_gone_def eprint_daemon_missing_def by (intro proc_pres quiet_rules)

lemma quiet_call [quiet_rules]: "(\<And>x. shows_nothing out (k x)) \<Longrightarrow> shows_nothing out (call m k)"
  unfolding call_def by (intro proc_pres quiet_rules)

lemma quiet_done [quiet_rules]: "shows_nothing out m \<Longrightarrow> shows_nothing out (done0 m)"
  unfolding done0_def by (intro proc_pres)

lemma quiet_wait: "shows_nothing out (wait_from H timeout verbose elapsed)"
proof (induction H timeout verbose elapsed rule: wait_from.induct)
  case (1 H timeout verbose elapsed)
  then show ?case
    by (subst wait_from.simps) (auto simp: daemon_listening_def intro!: proc_pres quiet_rules)
qed

lemma quiet_start [quiet_rules]: "shows_nothing out (daemon_start_cmd H v)"
  unfolding daemon_start_cmd_def wait_for_bus_def by (intro proc_pres quiet_rules quiet_wait)

lemma quiet_stop [quiet_rules]: "shows_nothing out (daemon_stop_cmd H)"
  unfolding daemon_stop_cmd_def by (intro proc_pres quiet_rules)

lemma quiet_quotas [quiet_rules]: "shows_nothing out (quotas P as acc)"
  by (induction as arbitrary: acc) (auto intro!: proc_pres quiet_rules)

lemma quiet_lists [quiet_rules]:
  assumes "cli_quiet cli"
  shows "shows_nothing out (status_human T cli g n as fs q)" "shows_nothing out (accounts_list_human cli as)"
    "shows_nothing out (folders_list_human T cli fs)" "shows_nothing out (errors_human T cli es)"
    "shows_nothing out (quota_human cli as q)"
  using assms
  by (auto simp: status_human_def accounts_list_human_def folders_list_human_def errors_human_def
      quota_human_def print_lines_quiet println_quiet pres_retp)

lemma quiet_run_daemon:
  assumes "cli_quiet cli" and "\<not> cli_json cli"
  shows "shows_nothing out (run_daemon_cmd H cli cmd)"
  using assms
  by (cases cmd) (auto simp: run_daemon_cmd_def daemon_status_def intro!: proc_pres quiet_rules)

lemma quiet_configure: "cli_quiet cli \<Longrightarrow> shows_nothing out (run_configure H cli)"
  unfolding run_configure_def Let_def with_context_text_def daemon_listening_def
  by (intro proc_pres quiet_rules)

lemma quiet_dispatch:
  assumes "cli_quiet cli" and "\<not> cli_json cli"
  shows "shows_nothing out (dispatch H cli P)"
proof -
  have "shows_nothing out (run_status H cli P)" "shows_nothing out (run_errors H cli P)"
    "shows_nothing out (run_quota H cli P)"
    using assms unfolding run_status_def run_errors_def run_quota_def
    by (auto intro!: proc_pres quiet_rules)
  moreover have "shows_nothing out (run_accounts H cli P cmd)" for cmd
    using assms by (cases cmd) (auto simp: run_accounts_def run_add_account_def intro!: proc_pres quiet_rules)
  moreover have "shows_nothing out (run_folders H cli P cmd)" for cmd
    using assms by (cases cmd) (auto simp: run_folders_def intro!: proc_pres quiet_rules)
  moreover have "shows_nothing out (run_sync cli P cmd)" for cmd
    using assms by (cases cmd) (auto simp: run_sync_def intro!: proc_pres quiet_rules)
  ultimately show ?thesis
    by (cases "cli_command cli") (auto simp: dispatch_def intro: proc_pres)
qed

lemma quiet_proxy:
  assumes "cli_quiet cli" and "\<not> cli_json cli"
  shows "shows_nothing out (with_proxy H cli)"
  unfolding with_proxy_def Let_def
  by (intro proc_pres quiet_rules quiet_dispatch assms)

lemma quiet_ensure: "cli_quiet cli \<Longrightarrow> shows_nothing out (ensure_daemon H cli)"
  unfolding ensure_daemon_def daemon_listening_def eprint_daemon_missing_def
  by (intro proc_pres quiet_rules)

lemma quiet_run:
  assumes "cli_quiet cli" and "\<not> cli_json cli" and "\<And>sh. cli_command cli \<noteq> Completions sh"
  shows "shows_nothing out (run H cli)"
proof -
  have "shows_nothing out (case cmd of AccountsAdd \<Rightarrow>
      seqp (ensure_daemon H cli) (\<lambda>stop. case stop of Some code \<Rightarrow> retp code | None \<Rightarrow> with_proxy H cli)
      | _ \<Rightarrow> with_proxy H cli)" for cmd
    using assms(1,2) by (cases cmd) (auto intro!: proc_pres quiet_proxy quiet_ensure)
  then show ?thesis
    using assms quiet_proxy [OF assms(1,2)] quiet_run_daemon [OF assms(1,2)] quiet_configure [OF assms(1)]
    by (auto simp: run_def split: cli_command.split accounts_cmd.splits)
qed

text \<open>
  With \<open>--quiet\<close> and without \<open>--json\<close>, no command but \<open>completions\<close> writes a line to standard
  output, however it ends and whatever the daemon, the bus and the dialogs answer.
\<close>

theorem quiet_run_prints_nothing:
  assumes "cli_quiet cli" and "\<not> cli_json cli" and "\<And>sh. cli_command cli \<noteq> Completions sh"
  shows "tm_stdout (snd (main_exit H cli s)) = tm_stdout s"
proof -
  obtain r t where run: "run H cli s = (r, t)" by (cases "run H cli s")
  have "tm_stdout t = tm_stdout s" by (rule presD [OF quiet_run [OF assms] refl run])
  then show ?thesis by (simp add: main_exit_def run split: sum.split)
qed

section \<open>Exit codes\<close>

text \<open>
  \<open>explains m\<close>: the program only appends to standard error, and when it answers with an exit code
  other than 0, it has appended something. \<open>appends m\<close>: the first half, for any result.
\<close>

definition appends :: "('c terminal, 'e, 'a) proc \<Rightarrow> bool" where
  "appends m \<longleftrightarrow> (\<forall>s. \<exists>ls. tm_stderr (snd (m s)) = tm_stderr s @ ls)"

definition exit_ok :: "string + int \<Rightarrow> string list \<Rightarrow> bool" where
  "exit_ok r ls \<longleftrightarrow> (\<forall>c. r = Inr c \<longrightarrow> c = 0 \<or> (c = EXIT_ERROR \<or> c = EXIT_DAEMON_GONE) \<and> ls \<noteq> [])"

definition explains :: "'c cli_proc \<Rightarrow> bool" where
  "explains m \<longleftrightarrow> (\<forall>s r t. m s = (r, t) \<longrightarrow> (\<exists>ls. tm_stderr t = tm_stderr s @ ls \<and> exit_ok r ls))"

named_theorems exit_rules

lemma appendsD: "appends m \<Longrightarrow> m s = (r, t) \<Longrightarrow> \<exists>ls. tm_stderr t = tm_stderr s @ ls"
  unfolding appends_def by (metis snd_conv)

lemma explainsD: "explains m \<Longrightarrow> m s = (r, t) \<Longrightarrow> \<exists>ls. tm_stderr t = tm_stderr s @ ls \<and> exit_ok r ls"
  unfolding explains_def by blast

lemma exit_ok_append: "exit_ok r ls \<Longrightarrow> exit_ok r (ls' @ ls)"
  by (auto simp: exit_ok_def)

lemma appends_seqp [exit_rules]:
  assumes "appends m" and "\<And>x. appends (f x)"
  shows "appends (seqp m f)"
  unfolding appends_def
proof
  fix s
  obtain r t where run: "seqp m f s = (r, t)" by (cases "seqp m f s")
  obtain x u where x: "m s = (x, u)" by (cases "m s")
  obtain ls where ls: "tm_stderr u = tm_stderr s @ ls" using appendsD [OF assms(1) x] by blast
  have "\<exists>ls'. tm_stderr t = tm_stderr u @ ls'"
    using run x appendsD [OF assms(2)] by (cases x) (auto simp: seqp_def)
  then show "\<exists>ls. tm_stderr (snd (seqp m f s)) = tm_stderr s @ ls" using run ls by auto
qed

lemma appends_calls [exit_rules]:
  "appends (retp x)" "appends (failp e)" "appends (liftp z)" "appends (getp g)" "appends (on_tm n)"
  "appends (eprintln l)" "appends (println cli l)"
  by (auto simp: appends_def retp_def failp_def liftp_def getp_def on_tm_def eprintln_def println_def
      modp_def split: prod.split)

lemma appends_json [exit_rules]: "appends (json x)"
  unfolding json_def by (rule appends_seqp) (auto simp: appends_def liftp_def modp_def)

lemma appends_tryp [exit_rules]: "appends m \<Longrightarrow> appends (tryp m)"
  by (auto simp: appends_def tryp_def split: prod.splits) (metis snd_conv)

lemma appends_map_errp [exit_rules]: "appends m \<Longrightarrow> appends (map_errp g m)"
  by (auto simp: appends_def map_errp_def split: prod.splits sum.splits) (metis snd_conv)+

lemma appends_cases [exit_rules]:
  "(b \<Longrightarrow> appends m) \<Longrightarrow> (\<not> b \<Longrightarrow> appends n) \<Longrightarrow> appends (if b then m else n)"
  "appends m \<Longrightarrow> (\<And>x. appends (f x)) \<Longrightarrow> appends (case z of None \<Rightarrow> m | Some x \<Rightarrow> f x)"
  "(\<And>x. appends (g x)) \<Longrightarrow> (\<And>x. appends (f x)) \<Longrightarrow> appends (case y of Inl x \<Rightarrow> g x | Inr x \<Rightarrow> f x)"
  "(\<And>u v. appends (h u v)) \<Longrightarrow> appends (case w of (u, v) \<Rightarrow> h u v)"
  by (auto split: option.split sum.split prod.split)

lemma appends_lines [exit_rules]: "appends (eprint_lines ls)" "appends (print_lines cli ls)"
  by (induction ls) (auto intro: exit_rules)

lemma appends_say [exit_rules]: "appends (say cli l)"
  unfolding say_def by (intro exit_rules)

lemma explains_seqp [exit_rules]:
  assumes "appends m" and "\<And>x. explains (f x)"
  shows "explains (seqp m f)"
  unfolding explains_def
proof (intro allI impI)
  fix s r t
  assume run: "seqp m f s = (r, t)"
  obtain x u where x: "m s = (x, u)" by (cases "m s")
  obtain ls where ls: "tm_stderr u = tm_stderr s @ ls" using appendsD [OF assms(1) x] by blast
  have "\<exists>ls'. tm_stderr t = tm_stderr u @ ls' \<and> exit_ok r ls'"
  proof (cases x)
    case (Inl e)
    then have "t = u" "exit_ok r []" using run x by (auto simp: seqp_def exit_ok_def)
    then show ?thesis by simp
  next
    case (Inr y)
    then have "f y u = (r, t)" using run x by (simp add: seqp_def)
    then show ?thesis by (rule explainsD [OF assms(2)])
  qed
  then obtain ls' where "tm_stderr t = tm_stderr u @ ls'" "exit_ok r ls'" by blast
  then show "\<exists>ls. tm_stderr t = tm_stderr s @ ls \<and> exit_ok r ls"
    using ls exit_ok_append by (intro exI [of _ "ls @ ls'"]) simp
qed

lemma explains_failp [exit_rules]: "explains (failp e)"
  by (simp add: explains_def failp_def exit_ok_def)

lemma explains_done [exit_rules]: "appends m \<Longrightarrow> explains (done0 m)"
  unfolding done0_def by (rule explains_seqp) (simp_all add: explains_def retp_def exit_ok_def)

lemma explains_cases [exit_rules]:
  "(b \<Longrightarrow> explains m) \<Longrightarrow> (\<not> b \<Longrightarrow> explains n) \<Longrightarrow> explains (if b then m else n)"
  "explains m \<Longrightarrow> (\<And>x. explains (f x)) \<Longrightarrow> explains (case z of None \<Rightarrow> m | Some x \<Rightarrow> f x)"
  "(\<And>x. explains (g x)) \<Longrightarrow> (\<And>x. explains (f x)) \<Longrightarrow> explains (case y of Inl x \<Rightarrow> g x | Inr x \<Rightarrow> f x)"
  "(\<And>u v. explains (h u v)) \<Longrightarrow> explains (case w of (u, v) \<Rightarrow> h u v)"
  by (auto split: option.split sum.split prod.split)

text \<open>A message, and then a code that is not 0.\<close>

lemma explains_message:
  assumes "c = EXIT_ERROR \<or> c = EXIT_DAEMON_GONE" and "appends m"
  shows "explains (seqp (eprintln l) (\<lambda>_. seqp m (\<lambda>_. retp c)))"
  unfolding explains_def
proof (intro allI impI)
  fix s r t
  assume run: "seqp (eprintln l) (\<lambda>_. seqp m (\<lambda>_. retp c)) s = (r, t)"
  obtain x u where x: "m (s\<lparr>tm_stderr := tm_stderr s @ [l]\<rparr>) = (x, u)"
    by (cases "m (s\<lparr>tm_stderr := tm_stderr s @ [l]\<rparr>)")
  obtain ls where "tm_stderr u = tm_stderr s @ l # ls" using appendsD [OF assms(2) x] by auto
  moreover have "t = u \<and> (\<forall>d. r = Inr d \<longrightarrow> d = c)"
    using run x by (cases x) (auto simp: seqp_def eprintln_def modp_def retp_def)
  ultimately have "tm_stderr t = tm_stderr s @ l # ls" "exit_ok r (l # ls)"
    using assms(1) by (auto simp: exit_ok_def)
  then show "\<exists>ls. tm_stderr t = tm_stderr s @ ls \<and> exit_ok r ls" by blast
qed

lemma explains_gone [exit_rules]: "explains (daemon_gone l)"
  unfolding daemon_gone_def eprint_daemon_missing_def
  by (rule explains_message [OF disjI2 [OF refl] appends_lines(1)])

lemma explains_call [exit_rules]: "(\<And>x. explains (k x)) \<Longrightarrow> explains (call m k)"
  unfolding call_def by (intro exit_rules)

lemma appends_wait: "appends (wait_from H timeout verbose elapsed)"
proof (induction H timeout verbose elapsed rule: wait_from.induct)
  case (1 H timeout verbose elapsed)
  then show ?case
    by (subst wait_from.simps) (auto simp: daemon_listening_def intro!: exit_rules)
qed

lemma appends_control [exit_rules]:
  "appends (daemon_start_cmd H v)" "appends (daemon_stop_cmd H)" "appends (daemon_listening H)"
  unfolding daemon_start_cmd_def wait_for_bus_def daemon_stop_cmd_def daemon_listening_def
  by (intro exit_rules appends_wait)+

lemma appends_quotas [exit_rules]: "appends (quotas P as acc)"
  by (induction as arbitrary: acc) (auto intro!: exit_rules)

lemma appends_lists [exit_rules]:
  "appends (status_human T cli g n as fs q)" "appends (accounts_list_human cli as)"
  "appends (folders_list_human T cli fs)" "appends (errors_human T cli es)" "appends (quota_human cli as q)"
  unfolding status_human_def accounts_list_human_def folders_list_human_def errors_human_def quota_human_def
  by (intro exit_rules)+

lemma explains_add: "explains (run_add_account cli P)"
proof -
  have msg: "explains (seqp (eprint_lines (l # ls)) (\<lambda>_. retp EXIT_ERROR))" for l ls
    using explains_message [of EXIT_ERROR "eprint_lines ls" l] by (simp add: seqp_assoc exit_rules)
  show ?thesis unfolding run_add_account_def by (rule msg exit_rules)+
qed

lemma explains_commands:
  "explains (run_daemon_cmd H cli dc)" "explains (run_configure H cli)" "explains (run_status H cli P)"
  "explains (run_accounts H cli P ac)" "explains (run_sync cli P sc)" "explains (run_folders H cli P fc)"
  "explains (run_errors H cli P)" "explains (run_quota H cli P)"
proof -
  show "explains (run_daemon_cmd H cli dc)"
    by (cases dc) (auto simp: run_daemon_cmd_def daemon_status_def intro!: exit_rules)
  show "explains (run_accounts H cli P ac)"
    by (cases ac) (auto simp: run_accounts_def intro!: exit_rules explains_add)
  show "explains (run_sync cli P sc)" by (cases sc) (auto simp: run_sync_def intro!: exit_rules)
  show "explains (run_folders H cli P fc)" by (cases fc) (auto simp: run_folders_def intro!: exit_rules)
qed (unfold run_configure_def Let_def with_context_text_def run_status_def run_errors_def run_quota_def,
  (intro exit_rules)+)

lemma explains_proxy: "explains (with_proxy H cli)"
proof -
  have "explains (dispatch H cli P)" for P
    by (cases "cli_command cli") (auto simp: dispatch_def intro: explains_commands exit_rules)
  then show ?thesis unfolding with_proxy_def Let_def by (intro exit_rules)
qed

text \<open>A daemon that cannot be started is reported, too.\<close>

lemma seqp_choice:
  "seqp (if b then m else n) k = (if b then seqp m k else seqp n k)"
  "seqp (case y of Inl x \<Rightarrow> g x | Inr x \<Rightarrow> f x) k = (case y of Inl x \<Rightarrow> seqp (g x) k | Inr x \<Rightarrow> seqp (f x) k)"
  by (auto split: sum.split)

lemma explains_ensure:
  "explains (seqp (ensure_daemon H cli)
     (\<lambda>stop. case stop of Some code \<Rightarrow> retp code | None \<Rightarrow> with_proxy H cli))"
proof -
  have msg: "explains (seqp (eprintln l) (\<lambda>_. seqp eprint_daemon_missing (\<lambda>_. retp EXIT_ERROR)))" for l
    unfolding eprint_daemon_missing_def by (rule explains_message [OF disjI1 [OF refl] appends_lines(1)])
  show ?thesis
    unfolding ensure_daemon_def seqp_assoc seqp_choice seqp_retp option.case
    by (rule msg explains_proxy exit_rules)+
qed

lemma explains_run: "explains (run H cli)"
proof -
  have "explains (done0 (modp (\<lambda>s. s\<lparr>tm_stdout := tm_stdout s @ [l]\<rparr>)))" for l
    by (rule explains_done) (simp add: appends_def modp_def)
  then show ?thesis
    using explains_proxy explains_ensure explains_commands
    by (auto simp: run_def split: cli_command.split accounts_cmd.splits)
qed

text \<open>
  C36: the process ends with 0, 1 or 2 and only appends to standard error; when the code is not 0,
  it has appended at least one line.
\<close>

theorem nonzero_exit_is_explained:
  "\<exists>ls. tm_stderr (snd (main_exit H cli s)) = tm_stderr s @ ls \<and>
     fst (main_exit H cli s) \<in> {0, 1, 2} \<and> \<not> (fst (main_exit H cli s) \<noteq> 0 \<and> ls = [])"
proof -
  obtain r t where run: "run H cli s = (r, t)" by (cases "run H cli s")
  obtain ls where "tm_stderr t = tm_stderr s @ ls" "exit_ok r ls"
    using explainsD [OF explains_run run] by blast
  then show ?thesis
    by (cases r) (auto simp: main_exit_def run exit_ok_def EXIT_ERROR_def EXIT_DAEMON_GONE_def)
qed

section \<open>A command does what the daemon does\<close>

text \<open>The call of a command that changes the daemon's state and prints one line.\<close>

fun bus_effect :: "'c bus_proxy \<Rightarrow> cli_command \<Rightarrow> ('c, string, unit) proc option" where
  "bus_effect P (SyncCmd SyncPause) = Some (bp_pause_sync P)"
| "bus_effect P (SyncCmd SyncResume) = Some (bp_resume_sync P)"
| "bus_effect P (SyncCmd (SyncNow path)) =
     Some (bp_force_sync P (case path of Some p \<Rightarrow> p | None \<Rightarrow> []))"
| "bus_effect P (Folders (FoldersAdd l d)) = Some (bp_add_sync_folder P l d)"
| "bus_effect P (Folders (FoldersRemove i)) = Some (bp_remove_sync_folder P i)"
| "bus_effect P (Accounts (AccountsRemove i True)) = Some (bp_remove_account P i)"
| "bus_effect P _ = None"

lemma on_tm_run: "on_tm m s = (fst (m (tm_world s)), s\<lparr>tm_world := snd (m (tm_world s))\<rparr>)"
  by (simp add: on_tm_def split: prod.split)

lemma eprint_lines_world [simp]:
  "eprint_lines ls s = (Inr (), s\<lparr>tm_stderr := tm_stderr s @ ls\<rparr>)"
  by (induction ls arbitrary: s) (simp_all add: retp_def seqp_def eprintln_def modp_def)

lemma say_world: "\<exists>s'. done0 (say cli l) s = (Inr 0, s') \<and> tm_world s' = tm_world s"
  by (simp add: done0_def say_def println_def seqp_def modp_def retp_def)

lemma call_outcome:
  assumes "\<And>s. \<exists>s'. k s = (Inr 0, s') \<and> tm_world s' = tm_world s"
  shows "call m (\<lambda>_. k) s = (r, s') \<Longrightarrow> tm_world s' = snd (m (tm_world s)) \<and>
    (case fst (m (tm_world s)) of
       Inr _ \<Rightarrow> r = Inr 0
     | Inl e \<Rightarrow> if is_unreachable e then r = Inr EXIT_DAEMON_GONE else r = Inl e)"
  using assms [of "s\<lparr>tm_world := snd (m (tm_world s))\<rparr>"]
  by (auto simp: call_def seqp_def tryp_def on_tm_run daemon_gone_def eprintln_def modp_def
      eprint_daemon_missing_def retp_def failp_def split: sum.splits if_splits)

lemma dispatch_effect:
  assumes "bus_effect P (cli_command cli) = Some m"
  shows "\<exists>l. dispatch H cli P = call m (\<lambda>_. done0 (say cli l))"
  using assms
  by (cases "(P, cli_command cli)" rule: bus_effect.cases)
    (auto simp: dispatch_def run_sync_def run_folders_def run_accounts_def)

text \<open>
  C35: on a bus where the daemon runs, a command that pauses, resumes or requests a sync, adds or
  removes a folder, or removes an account changes the daemon exactly as its method does; the exit
  code is 0 when the method succeeds, 2 when its error says that the daemon is gone, and 1
  otherwise.
\<close>

theorem command_refines_method:
  assumes "ch_connect H (target_from_env H) (tm_world s) = (Inr (), tm_world s)"
    and "ch_proxy H (target_from_env H) (tm_world s) = (Inr (bus_of D), tm_world s)"
    and "bus_effect (bus_of D) (cli_command cli) = Some method"
    and "main_exit H cli s = (code, s')"
  shows "tm_world s' = snd (method (tm_world s)) \<and>
    code = (case fst (method (tm_world s)) of
      Inr _ \<Rightarrow> 0 | Inl e \<Rightarrow> if is_unreachable e then EXIT_DAEMON_GONE else EXIT_ERROR)"
proof -
  obtain l where l: "dispatch H cli (bus_of D) = call method (\<lambda>_. done0 (say cli l))"
    using dispatch_effect [OF assms(3)] by blast
  have "run H cli = with_proxy H cli"
    using assms(3) by (auto simp: run_def split: cli_command.split accounts_cmd.split)
  moreover have "with_proxy H cli s = call method (\<lambda>_. done0 (say cli l)) s"
    using assms(1,2) by (simp add: with_proxy_def Let_def seqp_def tryp_def on_tm_def call_def l)
  ultimately obtain r where run: "run H cli s = (r, snd (run H cli s))"
    and c: "call method (\<lambda>_. done0 (say cli l)) s = (r, snd (run H cli s))"
    by (metis prod.collapse)
  from call_outcome [OF say_world c] run assms(4) show ?thesis
    by (auto simp: main_exit_def split: sum.splits if_splits prod.splits)
qed

section \<open>Examples\<close>

text \<open>A host without \<open>systemctl\<close> and dialogs, on whose bus the example daemon runs.\<close>

definition demo_texts :: texts where
  "demo_texts = \<lparr>tx_minutes_utc = (\<lambda>_. None), tx_minutes = (\<lambda>_. None), tx_rfc3339 = (\<lambda>_. None),
     tx_debug = id, tx_status = (\<lambda>_. Inr ''{}''), tx_accounts = (\<lambda>_. Inr ''[]''), tx_folders = (\<lambda>_. Inr ''[]''),
     tx_errors = (\<lambda>_. Inr ''[]''), tx_quota = (\<lambda>_. Inr ''[]''), tx_daemon = (\<lambda>_. Inr ''{}'')\<rparr>"

definition demo_cli_host :: "token_map daemon cli_host" where
  "demo_cli_host = \<lparr>ch_env_var = (\<lambda>_. None), ch_config_dir = None, ch_data_local_dir = None,
     ch_systemctl = (\<lambda>_ c. (None, c)), ch_current_exe = None, ch_exists = (\<lambda>_ _. False),
     ch_spawn = (\<lambda>_. failp ''no such file''), ch_has_owner = (\<lambda>_ c. (True, c)), ch_sleep = (\<lambda>_ c. c),
     ch_read = (\<lambda>_ _. None), ch_kill = (\<lambda>_ c. c), ch_generate = (\<lambda>_. []),
     ch_input = (\<lambda>_. failp ''not a terminal''), ch_password = (\<lambda>_. failp ''not a terminal''),
     ch_confirm = (\<lambda>_. failp ''not a terminal''), ch_create_dir_all = (\<lambda>_. retp ()),
     ch_open_db = (\<lambda>_. retp ()), ch_migrate = retp (), ch_upsert_oauth = (\<lambda>_ _. retp ()),
     ch_connect = (\<lambda>_. retp ()), ch_proxy = (\<lambda>_. retp (bus_of demo_state_bus)), ch_texts = demo_texts\<rparr>"

definition demo_terminal :: "token_map daemon terminal" where
  "demo_terminal = \<lparr>tm_world = demo_daemon, tm_stdout = [], tm_stderr = []\<rparr>"

definition quiet_pause :: cli where
  "quiet_pause = \<lparr>cli_json = False, cli_quiet = True, cli_verbose = False, cli_command = SyncCmd SyncPause\<rparr>"

lemma quiet_run_prints_nothing_witness:
  "tm_stdout (snd (main_exit demo_cli_host quiet_pause demo_terminal)) = []"
  using quiet_run_prints_nothing [of quiet_pause demo_cli_host demo_terminal]
  by (simp add: quiet_pause_def demo_terminal_def)

lemma demo_bus:
  "ch_connect demo_cli_host t c = (Inr (), c)" "ch_proxy demo_cli_host t c = (Inr (bus_of demo_state_bus), c)"
  by (simp_all add: demo_cli_host_def retp_def)

lemma demo_pauses: "fst (pause_sync demo_state_bus demo_daemon) = Inr ()"
  by (simp add: pause_sync_def set_pause_eq [OF demo_cycle_wf])

lemma command_refines_method_witness:
  "fst (main_exit demo_cli_host quiet_pause demo_terminal) = 0 \<and>
   tm_world (snd (main_exit demo_cli_host quiet_pause demo_terminal)) = snd (pause_sync demo_state_bus demo_daemon)"
proof -
  obtain code s' where run: "main_exit demo_cli_host quiet_pause demo_terminal = (code, s')" by force
  have "bus_effect (bus_of demo_state_bus) (cli_command quiet_pause) = Some (pause_sync demo_state_bus)"
    by (simp add: quiet_pause_def bus_of_def)
  from command_refines_method [OF demo_bus this run]
  have "tm_world s' = snd (pause_sync demo_state_bus demo_daemon) \<and> code = 0"
    by (simp add: demo_terminal_def demo_pauses)
  then show ?thesis using run by simp
qed

section \<open>A restart that does not wait\<close>

lemma wait_ends_at_once:
  assumes "\<And>c. ch_has_owner H DEFAULT_SERVICE c = (True, c)" and "0 < timeout"
  shows "\<exists>s'. wait_for_bus H timeout v s = (Inr (), s') \<and> tm_world s' = tm_world s"
  unfolding wait_for_bus_def
  by (subst wait_from.simps)
    (simp add: assms daemon_listening_def seqp_def on_tm_def okp_def eprintln_def modp_def retp_def)

text \<open>
  \<open>daemon restart\<close> without \<open>systemctl\<close>: the signal is sent, and the wait for the new daemon is
  satisfied by the name that the old one still owns. The new daemon, started meanwhile, then finds
  the name taken, and the old one ends: the command reports a restart and no daemon is left.
\<close>

theorem restart_satisfied_by_old_daemon:
  assumes "\<And>v c. ch_systemctl H v c = (None, c)" and "\<And>p c. ch_read H p c = Some ''42''"
    and "\<And>b c. ch_spawn H b c = (Inr (), c)" and "\<And>n c. ch_has_owner H n c = (True, c)"
    and "cli_command cli = DaemonCmd DaemonRestart"
  shows "fst (main_exit H cli s) = 0 \<and> tm_world (snd (main_exit H cli s)) = ch_kill H 42 (tm_world s)"
proof -
  have "nat_to_str 42 = ''42''" by code_simp
  then have pid: "parse_i32 (trim_str ''42'') = Some 42" using parse_i32_nat_to_str [of 42] by simp
  obtain s1 where s1: "daemon_stop_cmd H s = (Inr (), s1)" "tm_world s1 = ch_kill H 42 (tm_world s)"
    using assms(1,2) by (simp add: daemon_stop_cmd_def seqp_def on_tm_def okp_def getp_def pid modp_def)
  have "\<exists>s2. daemon_start_cmd H (cli_verbose cli) s1 = (Inr (), s2) \<and> tm_world s2 = tm_world s1"
    using wait_ends_at_once [OF assms(4), of 20000 "cli_verbose cli" s1] assms(1,3)
    by (simp add: daemon_start_cmd_def seqp_def on_tm_def okp_def getp_def map_errp_def)
  then obtain s2 where s2: "daemon_start_cmd H (cli_verbose cli) s1 = (Inr (), s2)" "tm_world s2 = tm_world s1"
    by blast
  obtain s3 where s3: "done0 (say cli ''Daemon restarted.'') s2 = (Inr 0, s3)" "tm_world s3 = tm_world s2"
    using say_world by blast
  have "run H cli s = (Inr 0, s3)"
    using assms(5) by (simp add: run_def run_daemon_cmd_def seqp_def s1 s2 s3)
  then show ?thesis by (simp add: main_exit_def s1 s2 s3)
qed

end
