(* ===== verification/Gds_Kde_State.thy ===== *)
theory Gds_Kde_State
  imports Gds_Cli_Daemon Complex_Main
begin

text \<open>
  The user interface for the desktop, first part (\<open>crates/gds-kde/src/state.rs\<close>, \<open>notifications.rs\<close>):
  the state behind the tray, with its bounded activity log, and the notifications with their
  limits. The bus of the desktop, clocks, files and processes are parameters.
\<close>

section \<open>The state of the tray\<close>

datatype tray_status_kind = Disconnected | TrayPaused | Syncing "32 word" | Idle

record activity_entry =
  ac_at :: datetime
  ac_message :: string

definition ACTIVITY_MAX :: nat where
  "ACTIVITY_MAX = 500"

record ui_state =
  ui_connected :: bool
  ui_status_str :: string
  ui_syncing_count :: "32 word"
  ui_accounts :: "account_info list"
  ui_folders :: "sync_folder_info list"
  ui_activity :: "activity_entry list"

definition ui_new :: ui_state where
  "ui_new = \<lparr>ui_connected = False, ui_status_str = ''offline'', ui_syncing_count = 0,
     ui_accounts = [], ui_folders = [], ui_activity = []\<rparr>"

text \<open>\<open>while len > ACTIVITY_MAX \{ pop_front \}\<close>\<close>

fun pop_excess :: "nat \<Rightarrow> 'a list \<Rightarrow> 'a list" where
  "pop_excess limit [] = []"
| "pop_excess limit (x # xs) = (if length (x # xs) > limit then pop_excess limit xs else x # xs)"

definition push_activity :: "datetime \<Rightarrow> string \<Rightarrow> ui_state \<Rightarrow> ui_state" where
  "push_activity now message u =
     u\<lparr>ui_activity := pop_excess ACTIVITY_MAX (ui_activity u @ [\<lparr>ac_at = now, ac_message = message\<rparr>])\<rparr>"

definition tray_kind :: "ui_state \<Rightarrow> tray_status_kind" where
  "tray_kind u =
     (if \<not> ui_connected u then Disconnected
      else if ui_status_str u = ''paused'' then TrayPaused
      else if ui_status_str u = ''syncing'' \<or> ui_syncing_count u > 0 then Syncing (max (ui_syncing_count u) 1)
      else Idle)"

section \<open>Parameters and state of the process\<close>

record notification =
  nt_icon :: string
  nt_summary :: string
  nt_body :: string
  nt_actions :: "string list"
  nt_timeout :: int

record notification_manager =
  nm_show :: bool
  nm_timeout_ms :: "32 word"
  nm_last_errors :: "(string \<times> nat) list"
  nm_first_run_path :: path

text \<open>
  \<open>kh_now\<close>: \<open>Utc::now()\<close>; \<open>kh_instant\<close>: \<open>Instant::now()\<close>, in nanoseconds; \<open>kh_notify_proxy\<close> and
  \<open>kh_notify\<close>: the notification server; \<open>kh_dialog\<close>: a dialog program, with whether it succeeded and
  what it printed, \<open>None\<close> when it cannot be run; \<open>kh_spawn\<close>: a process nobody waits for;
  \<open>kh_ratio\<close>: the quotient of two integers in \<open>f64\<close>; \<open>kh_percent\<close>: its text in percent.
\<close>

record 'k kde_host =
  kh_env_var :: "string \<Rightarrow> string option"
  kh_config_dir :: "path option"
  kh_data_local_dir :: "path option"
  kh_now :: "'k \<Rightarrow> datetime \<times> 'k"
  kh_instant :: "'k \<Rightarrow> nat \<times> 'k"
  kh_notify_proxy :: "('k, string, unit) proc"
  kh_notify :: "notification \<Rightarrow> ('k, string, 32 word) proc"
  kh_exists :: "path \<Rightarrow> 'k \<Rightarrow> bool"
  kh_read :: "path \<Rightarrow> 'k \<Rightarrow> string option"
  kh_write :: "path \<Rightarrow> string \<Rightarrow> ('k, string, unit) proc"
  kh_create_dir_all :: "path \<Rightarrow> ('k, string, unit) proc"
  kh_toml_parse :: "string \<Rightarrow> config option"
  kh_toml_print :: "config \<Rightarrow> string + string"
  kh_dialog :: "string list \<Rightarrow> 'k \<Rightarrow> (bool \<times> string) option \<times> 'k"
  kh_spawn :: "string list \<Rightarrow> 'k \<Rightarrow> 'k"
  kh_daemon_proxy :: "bus_target \<Rightarrow> ('k, string, 'k bus_proxy) proc"
  kh_ratio :: "int \<Rightarrow> int \<Rightarrow> rat"
  kh_percent :: "rat \<Rightarrow> string"
  kh_minutes :: "int \<Rightarrow> string option"
  kh_seconds :: "datetime \<Rightarrow> string"

text \<open>
  \<open>kd_ui\<close> and \<open>kd_nm\<close> are what the tasks share behind a lock; \<open>kd_sent\<close> lists the requests made of the
  notification server so far.
\<close>

record 'k kde =
  kd_world :: 'k
  kd_ui :: ui_state
  kd_nm :: notification_manager
  kd_sent :: "notification list"

text \<open>\<open>BusTarget::default()\<close>; the two defaults are those of the command line.\<close>

definition kde_target :: "'k kde_host \<Rightarrow> bus_target" where
  "kde_target H =
     \<lparr>bt_service = (case kh_env_var H ''GDS_DBUS_SERVICE'' of Some s \<Rightarrow> s | None \<Rightarrow> DEFAULT_SERVICE),
      bt_path = (case kh_env_var H ''GDS_DBUS_PATH'' of Some s \<Rightarrow> s | None \<Rightarrow> DEFAULT_PATH)\<rparr>"

definition on_k :: "('k, 'e, 'a) proc \<Rightarrow> ('k kde, 'e, 'a) proc" where
  "on_k m s = (case m (kd_world s) of (r, k) \<Rightarrow> (r, s\<lparr>kd_world := k\<rparr>))"

definition on_ui :: "(ui_state \<Rightarrow> ui_state) \<Rightarrow> ('k kde, 'e, unit) proc" where
  "on_ui f = modp (\<lambda>s. s\<lparr>kd_ui := f (kd_ui s)\<rparr>)"

section \<open>Notifications\<close>

definition ERROR_DEDUP_SECS :: nat where
  "ERROR_DEDUP_SECS = 300"

text \<open>\<open>(timeout_ms as i32).min(i32::MAX)\<close>: the cast keeps the bits, and the minimum changes nothing.\<close>

definition nm_new :: "bool \<Rightarrow> 32 word \<Rightarrow> path \<Rightarrow> notification_manager" where
  "nm_new show_notifications timeout_ms data_dir =
     \<lparr>nm_show = show_notifications, nm_timeout_ms = word_of_int (min (sint timeout_ms) (2 ^ 31 - 1)),
      nm_last_errors = [], nm_first_run_path = path_join data_dir ''kde_first_sync_notified''\<rparr>"

definition notify ::
    "'k kde_host \<Rightarrow> string \<Rightarrow> string \<Rightarrow> string \<Rightarrow> string list \<Rightarrow> int \<Rightarrow> ('k kde, string, 32 word) proc" where
  "notify H icon summary body actions timeout =
     seqp (getp (\<lambda>s. nm_show (kd_nm s))) (\<lambda>on.
     if \<not> on then retp 0
     else
       let n = \<lparr>nt_icon = icon, nt_summary = summary, nt_body = body, nt_actions = actions, nt_timeout = timeout\<rparr> in
       seqp (map_errp (\<lambda>_. ''Notifications'') (on_k (kh_notify_proxy H))) (\<lambda>_.
       seqp (modp (\<lambda>s. s\<lparr>kd_sent := kd_sent s @ [n]\<rparr>)) (\<lambda>_.
       map_errp (\<lambda>_. ''Notify'') (on_k (kh_notify H n)))))"

definition own_timeout :: "'k kde \<Rightarrow> int" where
  "own_timeout s = sint (nm_timeout_ms (kd_nm s))"

definition sync_complete :: "'k kde_host \<Rightarrow> string \<Rightarrow> 32 word \<Rightarrow> ('k kde, string, unit) proc" where
  "sync_complete H path files =
     seqp (getp own_timeout) (\<lambda>t.
     seqp (notify H ''folder-sync'' ''Sync complete''
             (path @ '' '' @ em_dash @ '' '' @ nat_to_str (unat files) @ '' file(s) synced.'') [] t) (\<lambda>_. retp ()))"

definition conflict :: "'k kde_host \<Rightarrow> string \<Rightarrow> string \<Rightarrow> ('k kde, string, 32 word) proc" where
  "conflict H local_path conflict_copy =
     notify H ''dialog-warning'' ''Sync conflict''
       (''Server copy kept. Your version saved as: '' @ conflict_copy)
       [''keep'', ''Keep Mine'', ''diff'', ''View Diff'', ''dismiss'', ''Dismiss''] (- 1)"

definition error_key :: "string \<Rightarrow> string \<Rightarrow> string" where
  "error_key err path = path @ '':'' @ err"

text \<open>\<open>Duration::as_secs\<close> of the time since an instant.\<close>

definition elapsed_secs :: "nat \<Rightarrow> nat \<Rightarrow> nat" where
  "elapsed_secs now t = (now - t) div 1000000000"

definition sync_error_notice :: "'k kde_host \<Rightarrow> string \<Rightarrow> string \<Rightarrow> ('k kde, string, unit) proc" where
  "sync_error_notice H err path =
     (let key = error_key err path in
      seqp (getp (\<lambda>s. map_of (nm_last_errors (kd_nm s)) key)) (\<lambda>seen.
      seqp (case seen of
              None \<Rightarrow> retp False
            | Some t \<Rightarrow> seqp (on_k (okp (kh_instant H))) (\<lambda>now. retp (elapsed_secs now t < ERROR_DEDUP_SECS))) (\<lambda>recent.
      if recent then retp ()
      else
        seqp (on_k (okp (kh_instant H))) (\<lambda>now.
        seqp (modp (\<lambda>s. s\<lparr>kd_nm := (kd_nm s)\<lparr>nm_last_errors := AList.update key now (nm_last_errors (kd_nm s))\<rparr>\<rparr>)) (\<lambda>_.
        seqp (notify H ''dialog-error'' ''Sync error'' (path @ [CHR 0x0A] @ err) [''retry'', ''Retry''] (- 1)) (\<lambda>_.
        retp ()))))))"

definition low_quota :: "'k kde_host \<Rightarrow> string \<Rightarrow> rat \<Rightarrow> ('k kde, string, unit) proc" where
  "low_quota H account pct_free =
     seqp (getp own_timeout) (\<lambda>t.
     seqp (notify H ''drive-harddisk'' ''Low Google Drive space''
             (account @ '' '' @ em_dash @ '' '' @ kh_percent H pct_free @ ''% free.'') [] t) (\<lambda>_. retp ()))"

definition initial_sync_started :: "'k kde_host \<Rightarrow> ('k kde, string, unit) proc" where
  "initial_sync_started H =
     seqp (getp (\<lambda>s. (nm_first_run_path (kd_nm s), kh_exists H (nm_first_run_path (kd_nm s)) (kd_world s)))) (\<lambda>(marker, there).
     if there then retp ()
     else
       seqp (getp own_timeout) (\<lambda>t.
       seqp (notify H ''folder-sync'' ''Initial sync started''
               ''First-time sync is running in the background.'' [] t) (\<lambda>_.
       seqp (tryp (on_k (kh_write H marker ''1''))) (\<lambda>(r :: string + unit). retp ()))))"

end
