(* ===== verification/Gds_Kde_Tray.thy ===== *)
theory Gds_Kde_Tray
  imports Gds_Kde_State
begin

text \<open>
  The tray icon (\<open>crates/gds-kde/src/tray.rs\<close>): its tool tip, its menu as data, with the action that
  each item sends, and which actions the menu offers. The crate \<open>ksni\<close>, which draws them, is not
  modelled.
\<close>

section \<open>Menu and tool tip\<close>

datatype tray_action =
    OpenFolder string
  | OpenBrowser
  | Pause
  | Resume
  | ForceSync string
  | Preferences
  | ActivityLog
  | Quit

text \<open>\<open>Standard label icon enabled action\<close>: without an action, activating the item does nothing.\<close>

datatype menu_item =
    Standard string string bool "tray_action option"
  | SubMenu string "menu_item list"
  | Separator

record tool_tip =
  tt_icon_name :: string
  tt_title :: string
  tt_description :: string

definition ICON_APP :: string where
  "ICON_APP = ''org.kde.gdrivesync''"

definition bullet :: string where
  "bullet = [CHR 0xE2, CHR 0x97, CHR 0x8F]"

definition middle_dot :: string where
  "middle_dot = [CHR 0xC2, CHR 0xB7]"

definition dots :: string where
  "dots = [CHR 0xE2, CHR 0x80, CHR 0xA6]"

definition latest_time :: "sync_folder_info list \<Rightarrow> int" where
  "latest_time folders =
     (case map fi_last_sync_at (filter (\<lambda>f. fi_last_sync_at f > 0) folders) of
        [] \<Rightarrow> 0 | t # ts \<Rightarrow> foldl max t ts)"

definition subtitle :: "(int \<Rightarrow> string option) \<Rightarrow> ui_state \<Rightarrow> string" where
  "subtitle minutes u =
     (case tray_kind u of
        Disconnected \<Rightarrow> ''Daemon offline '' @ em_dash @ '' start gds-daemon''
      | TrayPaused \<Rightarrow> ''Paused''
      | Syncing n \<Rightarrow> ''Syncing (~'' @ nat_to_str (unat n) @ '' ops)'' @ dots
      | Idle \<Rightarrow>
          (let latest = latest_time (ui_folders u) in
           if latest > 0
           then ''Up to date '' @ middle_dot @ '' last sync '' @
             (case minutes latest of Some t \<Rightarrow> t | None \<Rightarrow> [])
           else ''Up to date''))"

text \<open>\<open>None\<close>: the state is locked by another task.\<close>

definition tool_tip_of :: "(int \<Rightarrow> string option) \<Rightarrow> ui_state option \<Rightarrow> tool_tip" where
  "tool_tip_of minutes locked =
     (case locked of
        Some u \<Rightarrow>
          (let email = (case ui_accounts u of
             a # _ \<Rightarrow> if ai_email a \<noteq> [] then ai_email a else ''No account''
           | [] \<Rightarrow> ''No account'')
           in \<lparr>tt_icon_name = ICON_APP, tt_title = ''Google Drive Sync'',
               tt_description = email @ [CHR 0x0A] @ subtitle minutes u\<rparr>)
      | None \<Rightarrow> \<lparr>tt_icon_name = ICON_APP, tt_title = ''Google Drive Sync'', tt_description = []\<rparr>)"

text \<open>The first characters of UTF-8 text: a byte of the form 10xxxxxx belongs to the character before it.\<close>

fun take_chars :: "nat \<Rightarrow> string \<Rightarrow> string" where
  "take_chars n [] = []"
| "take_chars n (c # cs) =
     (if of_char c div 64 = (2 :: nat) then c # take_chars n cs
      else if n = 0 then [] else c # take_chars (n - 1) cs)"

definition truncate_path :: "string \<Rightarrow> string" where
  "truncate_path p = (case file_name (path_of p) of Some s \<Rightarrow> s | None \<Rightarrow> take_chars 40 p)"

definition account_menu :: "sync_folder_info list \<Rightarrow> account_info \<Rightarrow> menu_item" where
  "account_menu folders acc =
     (let email = (if ai_email acc = [] then ai_id acc else ai_email acc);
          sub = map (\<lambda>f. Standard (''Open '' @ truncate_path (fi_local_path f)) ''folder-open'' True
                    (Some (OpenFolder (fi_local_path f))))
                 (filter (\<lambda>f. fi_account_id f = ai_id acc) folders)
      in SubMenu (bullet @ '' '' @ email)
           (if sub = [] then [Standard ''(no sync folders)'' [] False None] else sub))"

definition menu :: "ui_state \<Rightarrow> menu_item list" where
  "menu u =
     (let paused = (ui_status_str u = ''paused'') in
      map (account_menu (ui_folders u)) (ui_accounts u) @
      (if ui_accounts u = []
       then [Standard (''(no accounts '' @ em_dash @ '' use gdrivesync accounts add)'') [] False None] else []) @
      [Separator,
       Standard ''Open in Browser'' ''internet-web-browser'' True (Some OpenBrowser),
       Standard (if paused then ''Resume Syncing'' else ''Pause Syncing'')
         (if paused then ''media-playback-start'' else ''media-playback-pause'') True
         (Some (if paused then Resume else Pause)),
       Standard ''Force Sync Now'' ''view-refresh'' True (Some (ForceSync [])),
       Separator,
       Standard (''Preferences'' @ dots) ''preferences-system'' True (Some Preferences),
       Standard (''View Sync Activity'' @ dots) ''view-list-details'' True (Some ActivityLog),
       Separator,
       Standard ''Quit'' ''application-exit'' True (Some Quit)])"

section \<open>The actions the menu offers\<close>

fun item_actions :: "menu_item \<Rightarrow> tray_action set" where
  "item_actions (Standard l i enabled a) = (if enabled then set_option a else {})"
| "item_actions (SubMenu l items) = (\<Union>x \<in> set items. item_actions x)"
| "item_actions Separator = {}"

lemma account_menu_actions:
  "item_actions (account_menu folders acc) =
     {OpenFolder (fi_local_path f) | f. f \<in> set folders \<and> fi_account_id f = ai_id acc}"
  by (auto simp: account_menu_def Let_def filter_empty_conv)

lemma foldl_max: "foldl max t ts = Max (set (t # ts :: int list))"
proof (induction ts arbitrary: t)
  case (Cons y ys)
  then show ?case by (cases "ys = []") (simp_all add: max.assoc)
qed simp

lemma latest_time_max:
  assumes "\<exists>f \<in> set folders. fi_last_sync_at f > 0"
  shows "latest_time folders = Max {fi_last_sync_at f | f. f \<in> set folders \<and> fi_last_sync_at f > 0}"
proof -
  let ?ts = "map fi_last_sync_at (filter (\<lambda>f. fi_last_sync_at f > 0) folders)"
  have s: "set ?ts = {fi_last_sync_at f | f. f \<in> set folders \<and> fi_last_sync_at f > 0}" by auto
  obtain t ts where ts: "?ts = t # ts"
    using assms by (cases ?ts) (auto simp: filter_empty_conv)
  have "foldl max t ts = Max (set (t # ts))" by (rule foldl_max)
  then show ?thesis by (simp only: latest_time_def ts list.case s [symmetric])
qed

text \<open>
  The menu offers to open exactly the folders of the listed accounts, and to pause or to resume,
  according to the status the daemon last reported, never both; browser, sync, preferences,
  activity and quitting are always there.
\<close>

theorem menu_offers:
  "(\<Union>x \<in> set (menu u). item_actions x) =
     {OpenFolder (fi_local_path f) | f a. f \<in> set (ui_folders u) \<and> a \<in> set (ui_accounts u) \<and>
        fi_account_id f = ai_id a} \<union>
     {if ui_status_str u = ''paused'' then Resume else Pause} \<union>
     {OpenBrowser, ForceSync [], Preferences, ActivityLog, Quit}"
proof -
  have "(\<Union>x \<in> set (map (account_menu (ui_folders u)) (ui_accounts u)). item_actions x) =
      {OpenFolder (fi_local_path f) | f a. f \<in> set (ui_folders u) \<and> a \<in> set (ui_accounts u) \<and>
        fi_account_id f = ai_id a}"
    by (auto simp: account_menu_actions)
  moreover have "menu u = map (account_menu (ui_folders u)) (ui_accounts u) @
      drop (length (ui_accounts u)) (menu u)"
    by (simp add: menu_def Let_def)
  moreover have "(\<Union>x \<in> set (drop (length (ui_accounts u)) (menu u)). item_actions x) =
      {if ui_status_str u = ''paused'' then Resume else Pause} \<union>
      {OpenBrowser, ForceSync [], Preferences, ActivityLog, Quit}"
    by (auto simp: menu_def Let_def)
  ultimately show ?thesis by (metis (no_types, lifting) UN_Un Un_assoc set_append)
qed

end
