(* ===== verification/Gds_Kde.thy ===== *)
theory Gds_Kde
  imports Gds_Kde_Tray
begin

text \<open>
  The tasks of the desktop interface (\<open>crates/gds-kde/src/main.rs\<close>) and its preferences
  (\<open>prefs.rs\<close>): the refresh of the tray, the signals of the daemon, the quota check and the actions
  of the menu, each as a program on the shared state, and the process as a step relation over them.
\<close>

section \<open>Directories and preferences\<close>

definition kde_data_dir :: "'k kde_host \<Rightarrow> path" where
  "kde_data_dir H =
     (case map_option path_of (kh_env_var H ''GDS_DATA_DIR'') of
        Some p \<Rightarrow> p
      | None \<Rightarrow>
          (case map_option (\<lambda>d. path_join d ''gds'') (kh_data_local_dir H) of
             Some p \<Rightarrow> p
           | None \<Rightarrow> path_of ''.local/share/gds''))"

text \<open>\<open>manifest_dir\<close>: the directory of the crate when it was compiled.\<close>

definition icon_dir :: "'k kde_host \<Rightarrow> string \<Rightarrow> path" where
  "icon_dir H manifest_dir =
     (case map_option path_of (kh_env_var H ''GDS_ICON_PATH'') of
        Some p \<Rightarrow> p
      | None \<Rightarrow> path_join (path_join (path_of manifest_dir) ''assets'') ''icons'')"

definition prefs_config_path :: "'k kde_host \<Rightarrow> path" where
  "prefs_config_path H =
     path_join (path_join
       (case kh_config_dir H of Some d \<Rightarrow> d | None \<Rightarrow> path_join (path_of ''.'') ''.config'') ''gds'') ''config.toml''"

definition prefs_load_config :: "'k kde_host \<Rightarrow> 'k \<Rightarrow> config" where
  "prefs_load_config H k =
     (case Option.bind (kh_read H (prefs_config_path H) k) (kh_toml_parse H) of
        Some c \<Rightarrow> c | None \<Rightarrow> config_default)"

definition save_config :: "'k kde_host \<Rightarrow> config \<Rightarrow> ('k, string, unit) proc" where
  "save_config H c =
     (let p = prefs_config_path H in
      seqp (case path_parent p of
              Some d \<Rightarrow> map_errp (\<lambda>_. ''mkdir '' @ path_show d) (kh_create_dir_all H d)
            | None \<Rightarrow> retp ()) (\<lambda>_.
      seqp (liftp (map_sum (\<lambda>_. ''serialize config'') id (kh_toml_print H c))) (\<lambda>s.
      map_errp (\<lambda>_. ''write '' @ path_show p) (kh_write H p s))))"

definition with_poll :: "nat \<Rightarrow> config \<Rightarrow> config" where
  "with_poll n c = c\<lparr>cfg_sync := (cfg_sync c)\<lparr>sc_poll_interval_secs := n\<rparr>\<rparr>"

definition with_show :: "bool \<Rightarrow> config \<Rightarrow> config" where
  "with_show b c = c\<lparr>cfg_ui := (cfg_ui c)\<lparr>uc_show_notifications := b\<rparr>\<rparr>"

definition parsed_or :: "nat \<Rightarrow> string \<Rightarrow> nat" where
  "parsed_or fallback line = (case parse_uint 32 (trim_str line) of Some n \<Rightarrow> n | None \<Rightarrow> fallback)"

definition poll_dialog :: "'k kde_host \<Rightarrow> nat \<Rightarrow> string list" where
  "poll_dialog H poll =
     [''kdialog'', ''--title'', ''Google Drive Sync '' @ em_dash @ '' Preferences'', ''--inputbox'',
      ''Poll interval (seconds) [current: '' @ nat_to_str poll @ '']'' @ [CHR 0x0A] @ ''(also edit '' @
        path_show (prefs_config_path H) @ '' for full options)'',
      nat_to_str poll]"

definition open_preferences_dialog :: "'k kde_host \<Rightarrow> config \<Rightarrow> ('k, string, config option) proc" where
  "open_preferences_dialog H current =
     (let poll = sc_poll_interval_secs (cfg_sync current) in
      seqp (okp (kh_dialog H (poll_dialog H poll))) (\<lambda>out.
      case out of
        Some (True, line) \<Rightarrow>
          (let c = with_poll (min (max (parsed_or poll line) 5) 3600) current in
           seqp (okp (kh_dialog H [''kdialog'', ''--title'', ''Notifications'', ''--yesno'',
                   ''Show desktop notifications?''])) (\<lambda>answer.
           let c' = with_show (case answer of
               Some (ok, _) \<Rightarrow> ok | None \<Rightarrow> uc_show_notifications (cfg_ui current)) c in
           seqp (save_config H c') (\<lambda>_. retp (Some c'))))
      | _ \<Rightarrow>
          seqp (okp (kh_dialog H [''zenity'', ''--entry'', ''--title=GDrive Sync'',
                  ''Poll interval (s), current '' @ nat_to_str poll, ''--text='' @ nat_to_str poll])) (\<lambda>z.
          case z of
            Some (True, line) \<Rightarrow>
              (let c = with_poll (max (parsed_or poll line) 5) current in
               seqp (save_config H c) (\<lambda>_. retp (Some c)))
          | _ \<Rightarrow> retp None)))"

section \<open>The refresh\<close>

text \<open>One tick of the refresh task, every three seconds. What a call does not answer stays as it was.\<close>

definition refresh_tick :: "'k kde_host \<Rightarrow> ('k kde, string, unit) proc" where
  "refresh_tick H =
     seqp (tryp (on_k (kh_daemon_proxy H (kde_target H)))) (\<lambda>connected.
     case connected of
       Inl (e :: string) \<Rightarrow> on_ui (\<lambda>u. u\<lparr>ui_connected := False, ui_status_str := ''offline''\<rparr>)
     | Inr P \<Rightarrow>
         seqp (tryp (on_k (bp_get_status P))) (\<lambda>status.
         case status of
           Inl (e :: string) \<Rightarrow> on_ui (\<lambda>u. u\<lparr>ui_connected := False\<rparr>)
         | Inr (s, n) \<Rightarrow>
             seqp (on_ui (\<lambda>u. u\<lparr>ui_connected := True, ui_status_str := s, ui_syncing_count := n\<rparr>)) (\<lambda>_.
             seqp (tryp (on_k (bp_get_accounts P))) (\<lambda>accs.
             seqp (case accs of Inr as \<Rightarrow> on_ui (\<lambda>u. u\<lparr>ui_accounts := as\<rparr>) | Inl (e :: string) \<Rightarrow> retp ()) (\<lambda>_.
             seqp (tryp (on_k (bp_get_sync_folders P))) (\<lambda>folders.
             case folders of Inr fs \<Rightarrow> on_ui (\<lambda>u. u\<lparr>ui_folders := fs\<rparr>) | Inl (e :: string) \<Rightarrow> retp ()))))))"

section \<open>Signals of the daemon\<close>

text \<open>A message on the bus: a signal of the daemon's interface with its arguments, or another one.\<close>

datatype bus_message = DaemonSignal signal | OtherMessage

definition note_activity :: "'k kde_host \<Rightarrow> string \<Rightarrow> ('k kde, string, unit) proc" where
  "note_activity H message =
     seqp (on_k (okp (kh_now H))) (\<lambda>now. on_ui (push_activity now message))"

definition quietly :: "('k kde, string, 'a) proc \<Rightarrow> ('k kde, string, unit) proc" where
  "quietly m = seqp (tryp m) (\<lambda>(r :: string + 'a). retp ())"

definition on_message :: "'k kde_host \<Rightarrow> bus_message \<Rightarrow> ('k kde, string, unit) proc" where
  "on_message H msg =
     (case msg of
        DaemonSignal (SyncCompleted account path files) \<Rightarrow>
          seqp (note_activity H (''Synced '' @ nat_to_str (unat files) @ '' files '' @ em_dash @ '' '' @ path)) (\<lambda>_.
          quietly (sync_complete H path files))
      | DaemonSignal (ConflictDetected local_path conflict_copy) \<Rightarrow>
          seqp (note_activity H (''Conflict: '' @ local_path)) (\<lambda>_.
          quietly (conflict H local_path conflict_copy))
      | DaemonSignal (SyncErrorSignal account path err) \<Rightarrow>
          seqp (note_activity H (''Error '' @ path @ '': '' @ err)) (\<lambda>_.
          quietly (sync_error_notice H err path))
      | DaemonSignal (SyncStarted account path) \<Rightarrow>
          seqp (note_activity H (''Sync started: '' @ path)) (\<lambda>_.
          quietly (initial_sync_started H))
      | DaemonSignal (StatusChanged status) \<Rightarrow> retp ()
      | OtherMessage \<Rightarrow> retp ())"

section \<open>The quota check\<close>

definition parse_i64 :: "string \<Rightarrow> int option" where
  "parse_i64 s =
     (case s of
        CHR ''-'' # ds \<Rightarrow>
          (if ds = [] then None
           else (case parse_digits 0 ds of
                   Some n \<Rightarrow> if n \<le> 2 ^ 63 then Some (- int n) else None
                 | None \<Rightarrow> None))
      | _ \<Rightarrow> map_option int (parse_uint 63 s))"

definition or_zero :: "int option \<Rightarrow> int" where
  "or_zero x = (case x of Some i \<Rightarrow> i | None \<Rightarrow> 0)"

text \<open>The constant \<open>0.1\<close> of the source, as the \<open>f64\<close> it denotes.\<close>

definition tenth :: rat where
  "tenth = 3602879701896397 / 36028797018963968"

text \<open>The difference is an \<open>i64\<close>, which wraps.\<close>

definition check_quota :: "'k kde_host \<Rightarrow> account_info \<Rightarrow> quota_info \<Rightarrow> ('k kde, string, unit) proc" where
  "check_quota H a q =
     (let lim = or_zero (parse_i64 (qi_limit q)); usage = or_zero (parse_i64 (qi_usage q)) in
      if lim > 0 then
        (let free = kh_ratio H (sint (word_of_int (lim - usage) :: 64 word)) lim in
         if free < tenth \<and> free \<ge> 0 then quietly (low_quota H (ai_email a) free) else retp ())
      else retp ())"

fun quota_accounts :: "'k kde_host \<Rightarrow> 'k bus_proxy \<Rightarrow> account_info list \<Rightarrow> ('k kde, string, unit) proc" where
  "quota_accounts H P [] = retp ()"
| "quota_accounts H P (a # as) =
     seqp (tryp (on_k (bp_get_about_info P (ai_id a)))) (\<lambda>r.
     case r of
       Inl (e :: string) \<Rightarrow> quota_accounts H P as
     | Inr q \<Rightarrow> seqp (check_quota H a q) (\<lambda>_. quota_accounts H P as))"

definition quota_tick :: "'k kde_host \<Rightarrow> ('k kde, string, unit) proc" where
  "quota_tick H =
     seqp (tryp (on_k (kh_daemon_proxy H (kde_target H)))) (\<lambda>r.
     case r of
       Inl (e :: string) \<Rightarrow> retp ()
     | Inr P \<Rightarrow>
         seqp (tryp (on_k (bp_get_accounts P))) (\<lambda>accs.
         case accs of Inl (e :: string) \<Rightarrow> retp () | Inr as \<Rightarrow> quota_accounts H P as))"

section \<open>The actions of the menu\<close>

definition activity_text :: "'k kde_host \<Rightarrow> ui_state \<Rightarrow> string" where
  "activity_text H u =
     concat (map (\<lambda>e. ''['' @ kh_seconds H (ac_at e) @ ''] '' @ ac_message e @ [CHR 0x0A])
       (take 200 (rev (ui_activity u))))"

text \<open>A call on the daemon whose failure is ignored.\<close>

definition tell_daemon :: "'k kde_host \<Rightarrow> ('k bus_proxy \<Rightarrow> ('k, string, unit) proc) \<Rightarrow> ('k kde, string, unit) proc" where
  "tell_daemon H method =
     seqp (tryp (on_k (kh_daemon_proxy H (kde_target H)))) (\<lambda>r.
     case r of Inl (e :: string) \<Rightarrow> retp () | Inr P \<Rightarrow> quietly (on_k (method P)))"

definition spawn :: "'k kde_host \<Rightarrow> string list \<Rightarrow> ('k kde, string, unit) proc" where
  "spawn H args = on_k (modp (kh_spawn H args))"

text \<open>Whether the process goes on.\<close>

definition run_action :: "'k kde_host \<Rightarrow> tray_action \<Rightarrow> ('k kde, string, bool) proc" where
  "run_action H action =
     (case action of
        Quit \<Rightarrow> retp False
      | OpenBrowser \<Rightarrow> seqp (spawn H [''xdg-open'', ''https://drive.google.com'']) (\<lambda>_. retp True)
      | OpenFolder p \<Rightarrow> seqp (spawn H [''xdg-open'', p]) (\<lambda>_. retp True)
      | Pause \<Rightarrow> seqp (tell_daemon H bp_pause_sync) (\<lambda>_. retp True)
      | Resume \<Rightarrow> seqp (tell_daemon H bp_resume_sync) (\<lambda>_. retp True)
      | ForceSync p \<Rightarrow> seqp (tell_daemon H (\<lambda>P. bp_force_sync P p)) (\<lambda>_. retp True)
      | Preferences \<Rightarrow>
          seqp (getp (\<lambda>s. prefs_load_config H (kd_world s))) (\<lambda>c.
          seqp (quietly (on_k (open_preferences_dialog H c))) (\<lambda>_. retp True))
      | ActivityLog \<Rightarrow>
          seqp (getp (\<lambda>s. activity_text H (kd_ui s))) (\<lambda>text.
          let tmp = path_join (kde_data_dir H) ''gds_activity_log.txt'' in
          seqp (tryp (on_k (kh_write H tmp text))) (\<lambda>r.
          seqp (case r of
                  Inr _ \<Rightarrow> spawn H [''kdialog'', ''--textbox'', path_show tmp, ''600'', ''400'']
                | Inl (e :: string) \<Rightarrow> retp ()) (\<lambda>_. retp True))))"

section \<open>The process\<close>

text \<open>The state after the start; a directory that cannot be made is ignored.\<close>

definition kde_start :: "'k kde_host \<Rightarrow> 'k \<Rightarrow> 'k kde" where
  "kde_start H k =
     (let cfg = prefs_load_config H k; dir = kde_data_dir H; k' = snd (kh_create_dir_all H dir k) in
      \<lparr>kd_world = k', kd_ui = ui_new,
       kd_nm = nm_new (uc_show_notifications (cfg_ui cfg))
         (word_of_nat (uc_notification_timeout_ms (cfg_ui cfg))) dir,
       kd_sent = []\<rparr>)"

text \<open>
  The tasks in any order; between them the rest of the system moves (\<open>others\<close>). A step is labelled
  with the message it takes from the bus, if it takes one.
\<close>

inductive kde_step ::
    "'k kde_host \<Rightarrow> ('k \<Rightarrow> 'k \<Rightarrow> bool) \<Rightarrow> 'k kde \<Rightarrow> bus_message list \<Rightarrow> 'k kde \<Rightarrow> bool" for H others where
  refresh: "refresh_tick H s = (r, s') \<Longrightarrow> kde_step H others s [] s'"
| message: "on_message H msg s = (r, s') \<Longrightarrow> kde_step H others s [msg] s'"
| quota: "quota_tick H s = (r, s') \<Longrightarrow> kde_step H others s [] s'"
| action: "run_action H a s = (Inr True, s') \<Longrightarrow> kde_step H others s [] s'"
| others: "others (kd_world s) k \<Longrightarrow> kde_step H others s [] (s\<lparr>kd_world := k\<rparr>)"

text \<open>A run of the process with the messages it takes, oldest first.\<close>

inductive kde_run ::
    "'k kde_host \<Rightarrow> ('k \<Rightarrow> 'k \<Rightarrow> bool) \<Rightarrow> 'k kde \<Rightarrow> bus_message list \<Rightarrow> 'k kde \<Rightarrow> bool" for H others where
  start: "kde_run H others s [] s"
| step: "kde_run H others s msgs t \<Longrightarrow> kde_step H others t new u \<Longrightarrow> kde_run H others s (msgs @ new) u"

inductive_cases kde_stepE [consumes 1, case_names refresh message quota action others]:
  "kde_step H others s new s'"

end
