(* ===== verification/Gds_Kde_Facts.thy ===== *)
theory Gds_Kde_Facts
  imports Gds_Kde
begin

text \<open>
  What the desktop interface promises: the activity log holds the newest messages, the same error is
  notified once in five minutes, the tray shows the state of a daemon that answers, and the
  preferences keep the poll interval in its bounds.
\<close>

section \<open>The activity log\<close>

definition newest :: "nat \<Rightarrow> 'a list \<Rightarrow> 'a list" where
  "newest n xs = drop (length xs - n) xs"

lemma newest_short: "length xs \<le> n \<Longrightarrow> newest n xs = xs"
  by (simp add: newest_def)

lemma length_newest: "length (newest n xs) \<le> n"
  by (simp add: newest_def)

lemma newest_append: "newest n (newest n xs @ ys) = newest n (xs @ ys)"
proof (cases "length xs \<le> n")
  case True
  then show ?thesis by (simp add: newest_short)
next
  case False
  let ?k = "length xs - n"
  have "newest n (xs @ ys) = drop (length ys + ?k) (xs @ ys)"
    using False by (simp add: newest_def add.commute)
  also have "\<dots> = drop (length ys) (drop ?k xs @ ys)" by (simp flip: drop_drop)
  also have "\<dots> = newest n (newest n xs @ ys)" using False by (simp add: newest_def)
  finally show ?thesis ..
qed

lemma newest_map: "map f (newest n xs) = newest n (map f xs)"
  by (simp add: newest_def drop_map)

lemma pop_excess_newest: "pop_excess n xs = newest n xs"
  by (induction xs) (auto simp: newest_def Suc_diff_le not_less)

lemma push_activity_messages:
  "map ac_message (ui_activity (push_activity t m u)) =
     newest ACTIVITY_MAX (map ac_message (ui_activity u) @ [m])"
  by (simp add: push_activity_def pop_excess_newest newest_map)

text \<open>What a message adds to the log.\<close>

fun message_texts :: "bus_message \<Rightarrow> string list" where
  "message_texts (DaemonSignal (SyncCompleted account path files)) =
     [''Synced '' @ nat_to_str (unat files) @ '' files '' @ em_dash @ '' '' @ path]"
| "message_texts (DaemonSignal (ConflictDetected local_path copy)) = [''Conflict: '' @ local_path]"
| "message_texts (DaemonSignal (SyncErrorSignal account path err)) = [''Error '' @ path @ '': '' @ err]"
| "message_texts (DaemonSignal (SyncStarted account path)) = [''Sync started: '' @ path]"
| "message_texts (DaemonSignal (StatusChanged status)) = []"
| "message_texts OtherMessage = []"

definition log_texts :: "'k kde \<Rightarrow> string list" where
  "log_texts s = map ac_message (ui_activity (kd_ui s))"

abbreviation same_log :: "string list \<Rightarrow> ('k kde, 'e, 'a) proc \<Rightarrow> bool" where
  "same_log l \<equiv> pres (\<lambda>s. log_texts s = l)"

named_theorems log_rules

lemma log_on_k [log_rules]: "same_log l (on_k m)"
  by (simp add: pres_def on_k_def log_texts_def split: prod.split)

lemma log_manager [log_rules]:
  "same_log l (modp (\<lambda>s. s\<lparr>kd_nm := f s\<rparr>))" "same_log l (modp (\<lambda>s. s\<lparr>kd_sent := g s\<rparr>))"
  by (simp_all add: pres_def modp_def log_texts_def)

lemma log_notify [log_rules]: "same_log l (notify H i su b a t)"
  unfolding notify_def Let_def by (intro proc_pres log_rules)

lemma log_notices [log_rules]:
  "same_log l (sync_complete H p n)" "same_log l (conflict H p c)" "same_log l (sync_error_notice H e p)"
  "same_log l (low_quota H a f)" "same_log l (initial_sync_started H)"
  unfolding sync_complete_def conflict_def sync_error_notice_def low_quota_def initial_sync_started_def Let_def
  by (intro proc_pres log_rules)+

lemma log_quietly [log_rules]: "same_log l m \<Longrightarrow> same_log l (quietly m)"
  unfolding quietly_def by (intro proc_pres)

lemma quietly_returns: "\<exists>s'. quietly m s = (Inr (), s')"
  by (simp add: quietly_def seqp_def tryp_def retp_def split: prod.split)

lemma log_push: "log_texts s' = newest ACTIVITY_MAX (log_texts s @ [m])"
  if "note_activity H m s = (r, s')"
  using that
  by (auto simp: note_activity_def seqp_def on_k_def okp_def on_ui_def modp_def log_texts_def
      push_activity_messages split: prod.splits)

lemma log_message:
  assumes "on_message H msg s = (r, s')" and "length (log_texts s) \<le> ACTIVITY_MAX"
  shows "log_texts s' = newest ACTIVITY_MAX (log_texts s @ message_texts msg)"
proof -
  have step: "log_texts s' = newest ACTIVITY_MAX (log_texts s @ [m])"
    if run: "seqp (note_activity H m) (\<lambda>_. quietly k) s = (r, s')" and k: "\<And>l. same_log l k"
    for m and k :: "('a kde, string, 'b) proc"
  proof -
    obtain x s1 where n: "note_activity H m s = (x, s1)" by (cases "note_activity H m s")
    have "x = Inr ()"
      using n by (auto simp: note_activity_def seqp_def on_k_def okp_def on_ui_def modp_def split: prod.splits)
    then have "quietly k s1 = (r, s')" using run n by (simp add: seqp_def)
    then have "log_texts s' = log_texts s1"
      using presD [OF log_quietly [OF k] refl] by blast
    then show ?thesis using log_push [OF n] by simp
  qed
  show ?thesis
    using assms by (cases "msg" rule: message_texts.cases)
      (auto simp: on_message_def retp_def newest_short intro: step log_notices)
qed

lemma log_on_ui [log_rules]:
  "(\<And>u. ui_activity (f u) = ui_activity u) \<Longrightarrow> same_log l (on_ui f)"
  by (simp add: pres_def on_ui_def modp_def log_texts_def)

lemma log_refresh: "same_log l (refresh_tick H)"
  unfolding refresh_tick_def by (intro proc_pres log_rules) simp_all

lemma log_quota_accounts [log_rules]: "same_log l (quota_accounts H P as)"
proof (induction as)
  case (Cons a as)
  have "same_log l (check_quota H a q)" for q
    unfolding check_quota_def Let_def by (intro proc_pres log_rules)
  then show ?case unfolding quota_accounts.simps by (intro proc_pres log_rules Cons.IH)
qed (simp add: proc_pres)

lemma log_quota: "same_log l (quota_tick H)"
  unfolding quota_tick_def by (intro proc_pres log_rules)

lemma log_action: "same_log l (run_action H a)"
  unfolding run_action_def tell_daemon_def spawn_def Let_def by (cases a; simp; intro proc_pres log_rules)

lemma log_step:
  assumes "kde_step H others s new s'" and "length (log_texts s) \<le> ACTIVITY_MAX"
  shows "log_texts s' = newest ACTIVITY_MAX (log_texts s @ concat (map message_texts new))"
  using assms(1)
proof (cases rule: kde_stepE)
  case (refresh r)
  then show ?thesis using presD [OF log_refresh refl refresh(2)] assms(2) by (simp add: newest_short)
next
  case (message msg r)
  then show ?thesis using log_message assms(2) by fastforce
next
  case (quota r)
  then show ?thesis using presD [OF log_quota refl quota(2)] assms(2) by (simp add: newest_short)
next
  case (action a)
  then show ?thesis using presD [OF log_action refl action(2)] assms(2) by (simp add: newest_short)
next
  case (others k)
  then show ?thesis using assms(2) by (simp add: log_texts_def newest_short)
qed

lemma log_start: "log_texts (kde_start H k) = []"
  by (simp add: log_texts_def kde_start_def Let_def ui_new_def)

text \<open>
  C38: whatever the tasks of the process do and in whatever order, the activity log holds, oldest
  first, the last 500 of the texts of the messages taken from the bus since the start: one for
  each completed, failed and started sync and each conflict, and none for the rest.
\<close>

theorem activity_log_is_newest:
  assumes "kde_run H others (kde_start H k) msgs s"
  shows "log_texts s = newest ACTIVITY_MAX (concat (map message_texts msgs))"
  using assms
proof (induction "kde_start H k" msgs s rule: kde_run.induct)
  case start
  then show ?case by (simp add: log_start newest_def)
next
  case (step msgs t new u)
  then show ?case by (simp add: log_step [OF step(3)] length_newest newest_append)
qed

section \<open>Errors are notified once\<close>

text \<open>A list of failed syncs, and for each the requests it makes of the notification server.\<close>

fun error_calls ::
    "'k kde_host \<Rightarrow> (string \<times> string) list \<Rightarrow> 'k kde \<Rightarrow> notification list list" where
  "error_calls H [] s = []"
| "error_calls H ((err, path) # evs) s =
     (let s1 = snd (sync_error_notice H err path s)
      in drop (length (kd_sent s)) (kd_sent s1) # error_calls H evs s1)"

lemma pres_value: "(\<And>x. pres (\<lambda>s. f s = x) m) \<Longrightarrow> pres (\<lambda>s. I (f s)) m"
  by (simp add: pres_def)

lemma notify_manager: "pres (\<lambda>s. kd_nm s = m) (notify H i su b a t)"
  unfolding notify_def Let_def
  by (intro proc_pres) (auto simp: pres_def on_k_def modp_def split: prod.split)

lemma error_notice_remembers:
  assumes "map_of (nm_last_errors (kd_nm s)) key = Some t"
    and "\<And>k. fst (kh_instant H k) < t + 300000000000"
    and "sync_error_notice H err path s = (r, s1)"
  shows "map_of (nm_last_errors (kd_nm s1)) key = Some t \<and>
    (error_key err path = key \<longrightarrow> kd_sent s1 = kd_sent s)"
proof (cases "error_key err path = key")
  case True
  have "(fst (kh_instant H k) - t) div 1000000000 < 300" for k
    using assms(2) [of k] by (simp add: less_mult_imp_div_less)
  then have recent: "elapsed_secs (fst (kh_instant H k)) t < ERROR_DEDUP_SECS" for k
    by (simp add: elapsed_secs_def ERROR_DEDUP_SECS_def)
  obtain now k where now: "kh_instant H (kd_world s) = (now, k)" by force
  have "elapsed_secs now t < ERROR_DEDUP_SECS" using recent [of "kd_world s"] now by simp
  then have "kd_nm s1 = kd_nm s \<and> kd_sent s1 = kd_sent s"
    using assms(1,3) True
    by (auto simp: sync_error_notice_def Let_def seqp_def getp_def on_k_def okp_def retp_def now)
  then show ?thesis using assms(1) by simp
next
  case False
  define J where "J = (\<lambda>s :: 'a kde. map_of (nm_last_errors (kd_nm s)) key = Some t)"
  have "pres J (on_k m)" for m :: "('a, 'e, 'b) proc"
    by (auto simp: J_def pres_def on_k_def split: prod.split)
  moreover have "pres J (notify H i su b a t')" for i su b a t'
    unfolding J_def by (rule pres_value [where I = "\<lambda>m. map_of (nm_last_errors m) key = Some t"], rule notify_manager)
  moreover have "pres J (modp (\<lambda>s. s\<lparr>kd_nm := (kd_nm s)
      \<lparr>nm_last_errors := AList.update (error_key err path) now (nm_last_errors (kd_nm s))\<rparr>\<rparr>))" for now
    using False by (auto simp: J_def pres_def modp_def map_of_update)
  ultimately have "pres J (sync_error_notice H err path)"
    unfolding sync_error_notice_def Let_def by (intro proc_pres)
  then show ?thesis using assms(1,3) False presD unfolding J_def by fastforce
qed

lemma error_calls_silent:
  assumes "map_of (nm_last_errors (kd_nm s)) key = Some t"
    and "\<And>k. fst (kh_instant H k) < t + 300000000000"
    and "i < length evs" and "error_key (fst (evs ! i)) (snd (evs ! i)) = key"
  shows "error_calls H evs s ! i = []"
  using assms(1,3,4)
proof (induction evs arbitrary: s i)
  case (Cons ev evs)
  obtain err path where ev: "ev = (err, path)" by force
  obtain r s1 where n: "sync_error_notice H err path s = (r, s1)" by force
  have m: "map_of (nm_last_errors (kd_nm s1)) key = Some t"
    "error_key err path = key \<longrightarrow> kd_sent s1 = kd_sent s"
    using error_notice_remembers [OF Cons.prems(1) assms(2) n] by auto
  show ?case
    using Cons.IH [OF m(1)] Cons.prems m(2) by (cases i) (auto simp: ev n Let_def)
qed simp

text \<open>
  The first failure of a path with an error makes one request of the notification server, when
  notifications are on and the server is there; and as long as the clock is less than 300 seconds
  past that failure, no later failure with the same path and error makes a request, whatever
  other failures come in between.
\<close>

theorem error_notified_once:
  assumes "nm_show (kd_nm s)" and "map_of (nm_last_errors (kd_nm s)) (error_key err path) = None"
    and "\<And>k. fst (kh_notify_proxy H k) = Inr ()"
    and "sync_error_notice H err path s = (r, s1)"
    and "\<And>k. fst (kh_instant H k) < fst (kh_instant H (kd_world s)) + 300000000000"
  shows "length (kd_sent s1) = Suc (length (kd_sent s)) \<and>
    (\<forall>i < length evs. error_key (fst (evs ! i)) (snd (evs ! i)) = error_key err path \<longrightarrow>
       error_calls H evs s1 ! i = [])"
proof -
  obtain t k where t: "kh_instant H (kd_world s) = (t, k)" by force
  obtain k1 where k1: "kh_notify_proxy H k = (Inr (), k1)" using assms(3) [of k] by (metis prod.collapse)
  have "length (kd_sent s1) = Suc (length (kd_sent s))"
    and "map_of (nm_last_errors (kd_nm s1)) (error_key err path) = Some t"
    using assms(1,2,4)
    by (auto simp: sync_error_notice_def Let_def seqp_def getp_def on_k_def okp_def retp_def t k1 modp_def
        notify_def map_errp_def map_of_update split: prod.splits sum.splits)
  then show ?thesis using error_calls_silent [of s1 "error_key err path" t H] assms(5) t by simp
qed

section \<open>The tray and the daemon\<close>

lemma max_one: "0 < n \<Longrightarrow> max n 1 = (n :: 32 word)"
  using inc_le [of 0 n] by (simp add: max_def)

lemma seqp_ok: "m s = (Inr x, t) \<Longrightarrow> seqp m f s = f x t"
  by (simp add: seqp_def)

context status_bus begin

lemma refresh_shows:
  assumes "kh_daemon_proxy H (kde_target H) (kd_world s) = (Inr P, kd_world s)" and P: "bp_get_status P = status"
    and "refresh_tick H s = (r, s')"
  shows "tray_kind (kd_ui s') =
    (if paused (kd_world s) then TrayPaused
     else if running (kd_world s) = 0 then Idle else Syncing (running (kd_world s)))"
proof -
  let ?u = "\<lambda>s. (ui_connected (kd_ui s), ui_status_str (kd_ui s), ui_syncing_count (kd_ui s))"
  define n where "n = running (kd_world s)"
  define word where "word = status_word (paused (kd_world s)) n"
  obtain k where st: "status (kd_world s) = (Inr (word, n), k)"
    using answersD unfolding word_def n_def by blast
  let ?s1 = "s\<lparr>kd_world := k, kd_ui := (kd_ui s)\<lparr>ui_connected := True, ui_status_str := word, ui_syncing_count := n\<rparr>\<rparr>"
  let ?rest = "seqp (tryp (on_k (bp_get_accounts P))) (\<lambda>accs.
      seqp (case accs of Inr as \<Rightarrow> on_ui (\<lambda>u. u\<lparr>ui_accounts := as\<rparr>) | Inl (e :: string) \<Rightarrow> retp ()) (\<lambda>_.
      seqp (tryp (on_k (bp_get_sync_folders P))) (\<lambda>folders.
      case folders of Inr fs \<Rightarrow> on_ui (\<lambda>u. u\<lparr>ui_folders := fs\<rparr>) | Inl (e :: string) \<Rightarrow> retp ())))"
  have a: "tryp (on_k (kh_daemon_proxy H (kde_target H))) s = (Inr (Inr P :: string + 'c bus_proxy), s)"
    using assms(1) by (simp add: tryp_def on_k_def)
  have b: "tryp (on_k status) s = (Inr (Inr (word, n) :: string + string \<times> 32 word), s\<lparr>kd_world := k\<rparr>)"
    by (simp add: tryp_def on_k_def st)
  have c: "on_ui (\<lambda>u. u\<lparr>ui_connected := True, ui_status_str := word, ui_syncing_count := n\<rparr>) (s\<lparr>kd_world := k\<rparr>) =
      (Inr () :: string + unit, ?s1)"
    by (simp add: on_ui_def modp_def)
  have "refresh_tick H s = ?rest ?s1"
    by (simp add: refresh_tick_def P
      seqp_ok [where m = "tryp (on_k (kh_daemon_proxy H (kde_target H)))" and s = s, OF a]
      seqp_ok [where m = "tryp (on_k status)" and s = s, OF b]
      seqp_ok [where s = "s\<lparr>kd_world := k\<rparr>" and t = ?s1 and m = "on_ui u" for u, OF c])
  with assms(3) have run: "?rest ?s1 = (r, s')" by simp
  have keep: "pres (\<lambda>s. ?u s = (True, word, n)) ?rest"
    by (intro proc_pres) (auto simp: pres_def on_k_def on_ui_def modp_def split: prod.split)
  have start: "?u ?s1 = (True, word, n)" by simp
  have "?u s' = (True, word, n)" by (rule presD [OF keep start run])
  then show ?thesis
    by (auto simp: tray_kind_def word_def status_word_def max_one word_gt_0 n_def [symmetric])
qed

end

text \<open>
  C37: when the daemon answers, one refresh makes the tray show it: paused when the pause flag is up,
  else the number of running syncs, else idle.
\<close>

theorem tray_shows_daemon:
  assumes "kh_daemon_proxy H (kde_target H) (kd_world s) = (Inr (bus_of D), kd_world s)"
    and "refresh_tick H s = (r, s')"
  shows "tray_kind (kd_ui s') =
    (if fst (env_pause (sv_env (ds_services D)) (w_env (dm_world (kd_world s)))) then TrayPaused
     else if dm_syncing (kd_world s) = 0 then Idle else Syncing (dm_syncing (kd_world s)))"
  by (rule own.refresh_shows [OF assms(1) _ assms(2)]) (simp add: bus_of_def)

section \<open>Preferences\<close>

text \<open>
  Preferences that a dialog returns keep the configuration but for the poll interval and the
  notification switch. When the first dialog program answers, the interval lies between 5
  seconds and an hour, whatever was typed; with the second one, which is asked when the first is
  missing or was cancelled, the switch stays and the interval is at least 5 seconds, with no
  upper bound.
\<close>

theorem preferences_in_bounds:
  assumes "open_preferences_dialog H current k = (Inr (Some c), k')"
  defines "poll \<equiv> sc_poll_interval_secs (cfg_sync c)"
  shows "\<exists>sw. c = with_poll poll (with_show sw current) \<and> 5 \<le> poll \<and>
    (poll \<le> 3600 \<or>
     \<not> (\<exists>line. fst (kh_dialog H (poll_dialog H (sc_poll_interval_secs (cfg_sync current))) k) = Some (True, line)) \<and>
     sw = uc_show_notifications (cfg_ui current))"
proof -
  let ?old = "sc_poll_interval_secs (cfg_sync current)"
  have polls: "sc_poll_interval_secs (cfg_sync (with_show b (with_poll n d))) = n"
    "sc_poll_interval_secs (cfg_sync (with_poll n d)) = n"
    "with_show b (with_poll n d) = with_poll n (with_show b d)"
    "with_show (uc_show_notifications (cfg_ui d)) d = d" for b n d
    by (simp_all add: with_show_def with_poll_def)
  obtain out k1 where out: "kh_dialog H (poll_dialog H ?old) k = (out, k1)" by force
  show ?thesis
  proof (cases "\<exists>line. out = Some (True, line)")
    case True
    then obtain line where "out = Some (True, line)" by blast
    then obtain sw where "c = with_show sw (with_poll (min (max (parsed_or ?old line) 5) 3600) current)"
      using assms(1) by (auto simp: open_preferences_dialog_def Let_def seqp_def okp_def out retp_def
          split: prod.splits sum.splits option.splits)
    then show ?thesis unfolding poll_def by (intro exI [of _ sw]) (simp add: polls)
  next
    case False
    then have "\<exists>line. c = with_poll (max (parsed_or ?old line) 5) current"
      using assms(1) by (auto simp: open_preferences_dialog_def Let_def seqp_def okp_def out retp_def
          split: prod.splits sum.splits option.splits bool.splits)
    then show ?thesis
      unfolding poll_def using False
      by (intro exI [of _ "uc_show_notifications (cfg_ui current)"]) (auto simp: polls out)
  qed
qed

section \<open>Examples\<close>

text \<open>
  A desktop with a notification server and the first dialog program, in which \<open>1\<close> is typed for the
  interval; the clock stands still, and the example daemon answers on the bus.
\<close>

definition demo_kde_host :: "token_map daemon kde_host" where
  "demo_kde_host = \<lparr>kh_env_var = (\<lambda>_. None), kh_config_dir = None, kh_data_local_dir = None,
     kh_now = (\<lambda>k. (7, k)), kh_instant = (\<lambda>k. (1000, k)), kh_notify_proxy = retp (), kh_notify = (\<lambda>_. retp 1),
     kh_exists = (\<lambda>_ _. False), kh_read = (\<lambda>_ _. None), kh_write = (\<lambda>_ _. retp ()),
     kh_create_dir_all = (\<lambda>_. retp ()), kh_toml_parse = (\<lambda>_. None), kh_toml_print = (\<lambda>_. Inr ''''),
     kh_dialog = (\<lambda>_ k. (Some (True, ''1''), k)), kh_spawn = (\<lambda>_ k. k),
     kh_daemon_proxy = (\<lambda>_. retp (bus_of demo_state_bus)), kh_ratio = (\<lambda>_ _. 1), kh_percent = (\<lambda>_. ''100.0''),
     kh_minutes = (\<lambda>_. None), kh_seconds = (\<lambda>_. '''')\<rparr>"

definition demo_kde :: "token_map daemon kde" where
  "demo_kde = kde_start demo_kde_host demo_daemon"

lemma demo_kde_simps:
  "kd_world demo_kde = demo_daemon" "kd_ui demo_kde = ui_new" "kd_sent demo_kde = []"
  "nm_show (kd_nm demo_kde) = True" "nm_last_errors (kd_nm demo_kde) = []"
  by (simp_all add: demo_kde_def kde_start_def Let_def demo_kde_host_def retp_def nm_new_def prefs_load_config_def
      config_default_def ui_config_default_def)

definition demo_message :: bus_message where
  "demo_message = DaemonSignal (SyncStarted ''a1'' ''/r'')"

lemma activity_log_is_newest_witness:
  "log_texts (snd (on_message demo_kde_host demo_message (snd (refresh_tick demo_kde_host demo_kde)))) =
     [''Sync started: /r'']"
proof -
  let ?s1 = "snd (refresh_tick demo_kde_host demo_kde)" and ?none = "\<lambda>a b. False"
  have "kde_run demo_kde_host ?none demo_kde ([] @ []) ?s1"
    by (rule kde_run.step [OF kde_run.start kde_step.refresh]) (rule prod.collapse [symmetric])
  from kde_run.step [OF this kde_step.message]
  have "kde_run demo_kde_host ?none demo_kde [demo_message] (snd (on_message demo_kde_host demo_message ?s1))"
    by (metis append_Nil prod.collapse)
  from activity_log_is_newest [OF this [unfolded demo_kde_def]]
  show ?thesis by (simp add: demo_message_def newest_def ACTIVITY_MAX_def demo_kde_def)
qed

definition demo_failures :: "(string \<times> string) list" where
  "demo_failures = [(''y'', ''/r''), (''x'', ''/r'')]"

lemma error_notified_once_witness:
  "length (kd_sent (snd (sync_error_notice demo_kde_host ''x'' ''/r'' demo_kde))) = 1 \<and>
   error_calls demo_kde_host demo_failures (snd (sync_error_notice demo_kde_host ''x'' ''/r'' demo_kde)) ! 1 = []"
proof -
  obtain r s1 where run: "sync_error_notice demo_kde_host ''x'' ''/r'' demo_kde = (r, s1)" by force
  have host: "fst (kh_notify_proxy demo_kde_host k) = Inr ()" "fst (kh_instant demo_kde_host k) = 1000" for k
    by (simp_all add: demo_kde_host_def retp_def)
  have "length (kd_sent s1) = 1 \<and>
    (\<forall>i < length demo_failures. error_key (fst (demo_failures ! i)) (snd (demo_failures ! i)) =
       error_key ''x'' ''/r'' \<longrightarrow> error_calls demo_kde_host demo_failures s1 ! i = [])"
    using error_notified_once [OF _ _ _ run, where evs = demo_failures] by (simp add: demo_kde_simps host)
  moreover have "1 < length demo_failures" "demo_failures ! 1 = (''x'', ''/r'')"
    by (simp_all add: demo_failures_def)
  ultimately show ?thesis by (simp add: run)
qed

lemma tray_shows_daemon_witness:
  "tray_kind (kd_ui (snd (refresh_tick demo_kde_host demo_kde))) = Idle"
proof -
  obtain r s' where run: "refresh_tick demo_kde_host demo_kde = (r, s')" by force
  have "kh_daemon_proxy demo_kde_host (kde_target demo_kde_host) (kd_world demo_kde) = (Inr (bus_of demo_state_bus), kd_world demo_kde)"
    by (simp add: demo_kde_host_def retp_def)
  from tray_shows_daemon [OF this run] have "tray_kind (kd_ui s') = Idle"
    by (simp add: demo_kde_simps demo_state_bus_def demo_services_def token_env_def demo_daemon_def demo_world_def)
  then show ?thesis by (simp add: run)
qed

lemma preferences_in_bounds_witness:
  "\<exists>c. fst (open_preferences_dialog demo_kde_host config_default demo_daemon) = Inr (Some c) \<and>
     5 \<le> sc_poll_interval_secs (cfg_sync c) \<and> sc_poll_interval_secs (cfg_sync c) \<le> 3600"
proof -
  obtain r k' where run: "open_preferences_dialog demo_kde_host config_default demo_daemon = (r, k')" by force
  then obtain c where c: "r = Inr (Some c)"
    by (auto simp: open_preferences_dialog_def Let_def seqp_def okp_def retp_def demo_kde_host_def save_config_def
        map_errp_def liftp_def split: option.splits)
  have first: "fst (kh_dialog demo_kde_host (poll_dialog demo_kde_host p) k) = Some (True, ''1'')" for p k
    by (simp add: demo_kde_host_def)
  from preferences_in_bounds [OF run [unfolded c]] first
  have "5 \<le> sc_poll_interval_secs (cfg_sync c)" "sc_poll_interval_secs (cfg_sync c) \<le> 3600" by auto
  then show ?thesis by (simp add: run c)
qed

end
