(* ===== verification/Spec2Isabelle.thy ===== *)
theory Spec2Isabelle
  imports Gds_Queue Gds_Workspace Gds_Paths Gds_Database Gds_Local_Fs Gds_World Gds_Retry
    Gds_Client Gds_Auth Gds_Diff Gds_Scan Gds_Executor Gds_Transfer Gds_Rate_Limit Gds_Cycle Gds_Scheduler
    Gds_Service Gds_Remote Gds_File_Map Gds_Catalogue Gds_Next_Scan Gds_Rounds Gds_Watcher Gds_Main Gds_Cli_Facts Gds_Kde_Facts
begin

text \<open>
  A verification library for kde-google-drive-sync: a daemon that keeps local folders and Google
  Drive in step (\<open>crates/gds-daemon\<close>), the engine it is built on (\<open>crates/gds-core\<close>), a command
  line (\<open>crates/gds-cli\<close>) and a tray icon with notifications (\<open>crates/gds-kde\<close>), which talk to the
  daemon over D-Bus.

  \<^bold>\<open>How the program works.\<close> A sync folder pairs a local directory with a Drive folder. The scheduler
  keeps a queue of folders: a poll adds every folder that is not paused, a bus method, the watcher of
  a folder or a failed cycle adds one. Draining the queue, a token bucket limits how often a cycle
  starts. A cycle fetches the pages of Drive's change list since the stored page token, scans the local
  directory against the recorded file states, turns both into actions, merges them, runs them through
  the executor in priority order, and stores the new page token. Each action changes Drive, the disk and
  the row of its file in the database. The bus methods read and change the same database, flag and queue.

  \<^bold>\<open>How it is read.\<close> \<open>Gds_Prelude\<close> reads Rust: a \<open>String\<close> is the list of its bytes, an
  \<open>async fn ... -> Result\<close> over shared state is a \<open>proc\<close>, a function from the state to the outcome (\<open>Inl\<close> the
  error, \<open>Inr\<close> the value) and the state it leaves also when it fails; \<open>seqp\<close> is the \<open>?\<close> operator. Integers
  whose width matters are words (the \<open>u32\<close> counter of conflict names and of running syncs, the \<open>u64\<close>
  nanoseconds of the bucket, the \<open>i32\<close> timeout of a notification). A \<open>HashMap\<close> is an association list with
  one entry per key. The names of the source are kept where HOL allows it; a record's fields carry a
  prefix. Third-party crates, the network, sockets, clocks, random numbers, the keyring, processes and
  dialogs are parameters: fields of the records \<open>libs\<close>, \<open>codecs\<close>, \<open>env\<close>, \<open>oauth_ops\<close>, \<open>host\<close>, \<open>cli_host\<close>,
  \<open>kde_host\<close>. Each call of one of them returns the world it leaves, about which nothing is assumed, so other
  tasks may act between any two calls; what a theorem needs of a parameter is a hypothesis of it.

  \<^bold>\<open>The engine, \<open>crates/gds-core/src\<close>.\<close>
  \<^item> \<open>Gds_Model\<close> (\<open>model/\<close>): the records and enums, the error type with its messages, the
    configuration and its defaults.
  \<^item> \<open>Gds_Change\<close> (\<open>sync/change.rs\<close>) and \<open>Gds_Queue\<close> (\<open>sync/queue.rs\<close>): actions, priorities, the
    conflict predicate, and the priority queue, whose interface is the locale \<open>priority_queue\<close>. Pushing one
    by one is a stable sort; popping yields a permutation in order.
  \<^item> \<open>Gds_Workspace\<close> (\<open>api/workspace.rs\<close>, \<open>sync/workspace_stub.rs\<close>): export types and stub files.
  \<^item> \<open>Gds_Paths\<close> (\<open>sync/path.rs\<close>): the part of \<open>std::path\<close> that is used, the check of paths that come from
    Drive, and the search for the name of a conflict copy, which is proved to end.
  \<^item> \<open>Gds_Database\<close> (\<open>db/\<close>, \<open>migrations/\<close>): the tables with their constraints, every repository operation, the
    invariant \<open>db_wf\<close> (keys and foreign keys), and the locale \<open>keyed_store\<close> of lookup-after-update laws.
    \<open>Gds_File_Map\<close> refines the table of file states to a map, over whole histories of calls, and
    \<open>Gds_Catalogue\<close> the tables of accounts and folders to two maps, with the answer of every call. What SQLite
    checks by itself (keys and foreign keys) is part of each statement; the refinements show what the statements do.
  \<^item> \<open>Gds_Local_Fs\<close> (\<open>sync/fs.rs\<close>): a disk as a tree with symbolic links and path resolution, the trait
    \<open>LocalFs\<close> as a record of operations, \<open>TokioLocalFs\<close> as its instance, and the locale \<open>file_store\<close>.
  \<^item> \<open>Gds_World\<close>, \<open>Gds_Retry\<close>, \<open>Gds_Client\<close> (\<open>api/\<close>): requests and answers, the retry loop with its backoff,
    and each call of the Drive client with the requests it sends, resumable uploads included.
  \<^item> \<open>Gds_Auth\<close> (\<open>auth/\<close>): token stores (locale \<open>token_store_laws\<close>), the authorization flow over the loopback
    redirect, the cache of access tokens, revocation.
  \<^item> \<open>Gds_Diff\<close> (\<open>sync/diff.rs\<close>): the local scan, the remote changes and the merge. \<open>Gds_Scan\<close> shows what a scan
    finds, \<open>Gds_Remote\<close> what a change list gives, each against a description without the loop.
  \<^item> \<open>Gds_Executor\<close> (\<open>sync/executor.rs\<close>): every action with its calls in order, and the queue loop.
    \<open>Gds_Transfer\<close> shows what transfers and conflicts leave on the disk and in the database; the ways in
    which a conflict can end are the rules of \<open>conflict_outcome\<close>. \<open>Gds_Next_Scan\<close> relates the two: what the next
    scan and the next change list make of a file that an action has just transferred. The rows that an action
    writes and the times that a scan compares do not agree for downloads, so the theorems say when they do.

  \<^bold>\<open>The daemon, \<open>crates/gds-daemon/src\<close>.\<close>
  \<^item> \<open>Gds_Rate_Limit\<close> (\<open>scheduler/rate_limit.rs\<close>, \<open>retry.rs\<close>): the token bucket and the backoff.
  \<^item> \<open>Gds_Cycle\<close> (\<open>scheduler/mod.rs\<close>, \<open>dbus/signals.rs\<close>): the state the tasks share, and one cycle. \<open>Gds_Rounds\<close>: a
    cycle with the engine below it, that is which actions it executes and that it leaves a folder in step
    alone. \<open>Gds_Scheduler\<close>: the loop as the step relation \<open>sched_step\<close>, with what holds in every reachable state.
  \<^item> \<open>Gds_Service\<close> (\<open>dbus/service.rs\<close>, \<open>types.rs\<close>): every bus method. The locale \<open>status_bus\<close> is what a client
    may rely on of \<open>GetStatus\<close>.
  \<^item> \<open>Gds_Watcher\<close> (\<open>watcher/\<close>): the ignored paths and the callback of the watch. \<open>Gds_Main\<close> (\<open>main.rs\<close>): the start
    of the process, which gives the initial states of the two step relations, and its end.

  \<^bold>\<open>The clients.\<close>
  \<^item> \<open>Gds_Cli_Output\<close>, \<open>Gds_Cli_Daemon\<close>, \<open>Gds_Cli_Run\<close> (\<open>crates/gds-cli/src\<close>): the commands, what they print, how they
    start, stop and find the daemon, and their exit codes; \<open>Gds_Cli_Facts\<close>: that a command acts on the daemon
    exactly as the bus method does, what \<open>--quiet\<close> means, and that a failure is explained.
  \<^item> \<open>Gds_Kde_State\<close>, \<open>Gds_Kde_Tray\<close>, \<open>Gds_Kde\<close> (\<open>crates/gds-kde/src\<close>): the state behind the tray, notifications, menu,
    preferences, and the tasks of the process as the steps of \<open>kde_step\<close>; \<open>Gds_Kde_Facts\<close>: the activity log of
    every run, the limit on repeated errors, and the agreement of the tray with the daemon.

  \<^bold>\<open>The properties.\<close> Each theorem whose text starts with C and a number is a property of the program; a lemma with
  its name and \<open>_witness\<close> applies it to concrete values. Local content: conflicts, checked paths, atomic writes. Agreement
  with a description: the scan, the remote changes, the merge, the page loop, the ignored paths, and the tables of
  the database as maps. Composition: a cycle executes the merged actions of both sides in order of priority, a folder
  in step is a fixed point of the cycle, and what each kind of transfer leaves for the next cycle. Errors and
  termination: a failed action leaves the database, a failed cycle the page token, a retried request returns the answer
  of its last run; the search for conflict names ends. Reachable states: scheduler from the start of the daemon, log of
  the desktop process. Bounds and liveness: retries, bucket, and a queue that does not drain while requests fail.

  \<^bold>\<open>Fuel and partiality.\<close> The walk over the directories takes fuel (\<open>sv_fuel\<close>), one unit for each directory; \<open>Gds_Scan\<close>
  proves that some amount is enough on every disk without links, and that a scan with enough fuel ends. The page loop
  of the change list and the search for a conflict name may run forever in principle and are
  \<open>partial_function (option)\<close>, \<open>None\<close> meaning that they do not return; for the search, returning is proved. The
  recursion of retries, chunk uploads, waiting for the bus and trimming has a measure. Queries that test the
  disk for a path see one state of it.

  \<^bold>\<open>Not modelled.\<close> The third-party crates (sqlx and SQLite beyond the statements and constraints, reqwest, zbus, oauth2,
  keyring, notify, ksni, clap, chrono, serde); \<open>db/mod.rs\<close>, which opens the pool; logging and progress
  callbacks; the declaration of the bus proxies; \<open>launch_diff_tool\<close>, which has no caller; the man page generator and
  the KIO worker, a C++ stub. Failures of SQLite from outside (disk full, locks) do not occur in the model, nor do
  names that are not UTF-8 (the watcher ignores them), nor other processes that write to a synced folder while an
  action runs. Panics: slicing an account id in the middle of a character (\<open>output.rs\<close>, ids are made by the daemon from ASCII) is read as taking its first bytes, and a
  debug build would stop where a difference of quotas (\<open>gds-kde/src/main.rs\<close>) wraps.
\<close>

end
